(* ===== verification/Prelude.thy ===== *)
theory Prelude
  imports Complex_Main "HOL-Library.Code_Target_Numeral"
begin

text \<open>
  What every component of the development shares: fallible results, tables as lists of rows,
  the string operations of the handlers, JSON values, and the lemma collections the component
  proofs are run with.
  \<^item> A Python exception or a refused SQL statement is the left side of a sum \<open>'e + 'a\<close>;
    \<open>bindE\<close> runs the next statement only when the one before it succeeded.
  \<^item> A table is the list of its rows in insertion order. \<open>update_where\<close> is
    \<open>UPDATE ... SET ... WHERE\<close>, \<open>try_update_where\<close> the same for an assignment that may be
    refused (numeric overflow, a CHECK constraint), and \<open>find\<close> is the row of a SELECT on a
    unique column.
  \<^item> Strings are lists of characters; \<open>upper\<close>, \<open>lower\<close> and \<open>strip\<close> are Python's
    methods of the same names on the ASCII characters, which are the only ones the code
    compares against.
\<close>

named_theorems table_simps
named_theorems outcome_simps

section \<open>Fallible results\<close>

definition bindE :: "'e + 'a \<Rightarrow> ('a \<Rightarrow> 'e + 'b) \<Rightarrow> 'e + 'b" where
  "bindE m f = (case m of Inl e \<Rightarrow> Inl e | Inr x \<Rightarrow> f x)"

lemma bindE_simps [simp]:
  "bindE (Inl e) f = Inl e"
  "bindE (Inr x) f = f x"
  by (simp_all add: bindE_def)

lemma bindE_eq_Inr [outcome_simps]:
  "bindE m f = Inr y \<longleftrightarrow> (\<exists>x. m = Inr x \<and> f x = Inr y)"
  by (cases m) simp_all

lemma bindE_eq_Inl:
  "bindE m f = Inl e \<longleftrightarrow> m = Inl e \<or> (\<exists>x. m = Inr x \<and> f x = Inl e)"
  by (cases m) simp_all

lemma bindE_assoc: "bindE (bindE m f) g = bindE m (\<lambda>x. bindE (f x) g)"
  by (cases m) simp_all

lemma bindE_cong [fundef_cong]:
  "m = m' \<Longrightarrow> (\<And>x. m' = Inr x \<Longrightarrow> f x = g x) \<Longrightarrow> bindE m f = bindE m' g"
  by (cases m') simp_all

section \<open>Tables\<close>

definition update_where :: "('r \<Rightarrow> bool) \<Rightarrow> ('r \<Rightarrow> 'r) \<Rightarrow> 'r list \<Rightarrow> 'r list" where
  "update_where P f t = map (\<lambda>r. if P r then f r else r) t"

fun try_update_where :: "('r \<Rightarrow> bool) \<Rightarrow> ('r \<Rightarrow> 'e + 'r) \<Rightarrow> 'r list \<Rightarrow> 'e + 'r list" where
  "try_update_where P f [] = Inr []"
| "try_update_where P f (r # t) =
     bindE (if P r then f r else Inr r) (\<lambda>r'.
     bindE (try_update_where P f t) (\<lambda>t'. Inr (r' # t')))"

lemma update_where_simps [simp]:
  "update_where P f [] = []"
  "update_where P f (r # t) = (if P r then f r else r) # update_where P f t"
  "update_where P f (s @ t) = update_where P f s @ update_where P f t"
  by (simp_all add: update_where_def)

lemma length_update_where [simp]: "length (update_where P f t) = length t"
  by (simp add: update_where_def)

lemma set_update_where:
  "set (update_where P f t) = f ` {r \<in> set t. P r} \<union> {r \<in> set t. \<not> P r}"
  by (auto simp: update_where_def)

lemma update_where_id [table_simps]: "(\<And>r. r \<in> set t \<Longrightarrow> \<not> P r) \<Longrightarrow> update_where P f t = t"
  by (induction t) auto

lemma find_update_where_other [table_simps]:
  "(\<And>r. P r \<Longrightarrow> \<not> Q r) \<Longrightarrow> (\<And>r. P r \<Longrightarrow> \<not> Q (f r)) \<Longrightarrow>
   find Q (update_where P f t) = find Q t"
  by (induction t) auto

lemma find_update_where_same [table_simps]:
  "(\<And>r. P r \<Longrightarrow> P (f r)) \<Longrightarrow> find P (update_where P f t) = map_option f (find P t)"
  by (induction t) auto

lemma find_SomeD: "find P t = Some r \<Longrightarrow> r \<in> set t \<and> P r"
  by (auto simp: find_Some_iff in_set_conv_nth)

lemma find_append [table_simps]:
  "find P (s @ t) = (case find P s of None \<Rightarrow> find P t | Some r \<Rightarrow> Some r)"
  by (induction s) auto

lemma distinct_map_find:
  assumes "distinct (map k t)" "r \<in> set t"
  shows "find (\<lambda>q. k q = k r) t = Some r"
  using assms
proof (induction t)
  case (Cons q t)
  then show ?case by (cases "k q = k r") (auto simp: rev_image_eqI)
qed simp

lemma update_where_key_eq:
  "distinct (map k t) \<Longrightarrow> r \<in> set t \<Longrightarrow>
   update_where (\<lambda>q. k q = k r) f t = map (\<lambda>q. if q = r then f r else q) t"
  by (auto simp: update_where_def inj_on_def distinct_map)

lemma sum_list_update_where_key:
  fixes g :: "'r \<Rightarrow> int"
  assumes "distinct (map k t)" "find (\<lambda>q. k q = c) t = Some r"
  shows "sum_list (map g (update_where (\<lambda>q. k q = c) f t)) = sum_list (map g t) - g r + g (f r)"
  using assms
proof (induction t)
  case (Cons q t)
  show ?case
  proof (cases "k q = c")
    case True
    with Cons.prems have "\<And>p. p \<in> set t \<Longrightarrow> k p \<noteq> c" by (auto simp: image_iff)
    then have "update_where (\<lambda>q. k q = c) f t = t" by (simp add: update_where_id)
    with True Cons.prems show ?thesis by simp
  next
    case False
    with Cons show ?thesis by simp
  qed
qed simp

lemma try_update_where_Inr:
  "try_update_where P f t = Inr t' \<longleftrightarrow>
   list_all2 (\<lambda>r r'. (if P r then f r else Inr r) = Inr r') t t'"
proof (induction t arbitrary: t')
  case Nil
  show ?case by auto
next
  case (Cons r t)
  show ?case by (cases t') (auto simp: outcome_simps Cons.IH)
qed

lemma try_update_where_total:
  "(\<And>r. r \<in> set t \<Longrightarrow> P r \<Longrightarrow> f r = Inr (g r)) \<Longrightarrow>
   try_update_where P f t = Inr (update_where P g t)"
  by (induction t) auto

lemma try_update_where_none [table_simps]:
  "(\<And>r. r \<in> set t \<Longrightarrow> \<not> P r) \<Longrightarrow> try_update_where P f t = Inr t"
  by (induction t) auto

text \<open>
  \<open>ORDER BY c ASC\<close> and \<open>DESC\<close>: the order of rows with equal keys is left open by SQL; here the
  sort is stable.
\<close>

definition oldest_first :: "('r \<Rightarrow> nat) \<Rightarrow> 'r list \<Rightarrow> 'r list" where
  "oldest_first c t = sort_key c t"

definition newest_first :: "('r \<Rightarrow> nat) \<Rightarrow> 'r list \<Rightarrow> 'r list" where
  "newest_first c t = rev (sort_key c (rev t))"

lemma set_ordered [simp]: "set (oldest_first c t) = set t" "set (newest_first c t) = set t"
  by (simp_all add: oldest_first_def newest_first_def)

lemma length_ordered [simp]: "length (oldest_first c t) = length t" "length (newest_first c t) = length t"
  by (simp_all add: oldest_first_def newest_first_def)

lemma newest_first_sorted: "sorted_wrt (\<lambda>x y. c y \<le> c x) (newest_first c t)"
proof -
  have "sorted (map c (sort_key c (rev t)))" by simp
  then show ?thesis by (simp add: newest_first_def sorted_wrt_rev sorted_map)
qed

lemma newest_first_hd: "t \<noteq> [] \<Longrightarrow> r \<in> set t \<Longrightarrow> c r \<le> c (hd (newest_first c t))"
proof -
  assume t: "t \<noteq> []" "r \<in> set t"
  then have r: "r \<in> set (newest_first c t)" by simp
  then obtain x xs where x: "newest_first c t = x # xs" by (cases "newest_first c t") auto
  with newest_first_sorted [of c t] r show ?thesis by auto
qed

lemma filter_unique_key:
  "distinct (map k (filter P xs)) \<Longrightarrow>
   filter (\<lambda>x. k x = c \<and> P x) xs = (case find (\<lambda>x. k x = c \<and> P x) xs of None \<Rightarrow> [] | Some x \<Rightarrow> [x])"
proof (induction xs)
  case (Cons x xs)
  show ?case
  proof (cases "k x = c \<and> P x")
    case True
    then have "filter (\<lambda>x. k x = c \<and> P x) xs = []"
      using Cons.prems by (auto simp: filter_empty_conv image_iff)
    with True show ?thesis by simp
  next
    case False
    with Cons show ?thesis by (auto split: if_splits)
  qed
qed simp

text \<open>
  The interface of an UPDATE that never touches a key column: \<open>touch\<close> rewrites the other
  columns of a row. What the rest of the program relies on is that the keys of the table stay
  as they are, so that a UNIQUE column stays unique and a row is still found where it was.
\<close>

locale key_preserving_update =
  fixes key :: "'r \<Rightarrow> 'k"
    and touch :: "'a \<Rightarrow> 'r \<Rightarrow> 'r"
  assumes key_touch: "key (touch a r) = key r"
begin

lemma keys_update: "map key (update_where P (touch a) t) = map key t"
  by (induction t) (simp_all add: key_touch)

lemma distinct_keys_update:
  "distinct (map key (update_where P (touch a) t)) = distinct (map key t)"
  by (simp only: keys_update)

lemma find_key_update:
  "find (\<lambda>r. key r = c) (update_where (\<lambda>r. key r = k) (touch a) t) =
   (if c = k then map_option (touch a) (find (\<lambda>r. key r = c) t)
    else find (\<lambda>r. key r = c) t)"
  by (induction t) (auto simp: key_touch)

end

lemma distinct_filter_update:
  assumes "distinct (map k (filter P xs))" "\<And>x. k (f x) = k x"
    and "\<And>x. x \<in> set xs \<Longrightarrow> Q x \<Longrightarrow> P (f x) \<Longrightarrow> P x"
  shows "distinct (map k (filter P (update_where Q f xs)))"
  using assms(1,3)
proof (induction xs)
  case (Cons x xs)
  have sub: "k ` set (filter P (update_where Q f xs)) \<subseteq> k ` set (filter P xs)"
    using Cons.prems(2) assms(2) by (force simp: set_update_where)
  have "distinct (map k (filter P (update_where Q f xs)))"
    using Cons by (auto split: if_splits)
  with sub Cons.prems assms(2) show ?case by (auto split: if_splits)
qed simp

section \<open>Strings\<close>

definition upper_char :: "char \<Rightarrow> char" where
  "upper_char c = (let n = (of_char c :: nat) in if 97 \<le> n \<and> n \<le> 122 then char_of (n - 32) else c)"

definition lower_char :: "char \<Rightarrow> char" where
  "lower_char c = (let n = (of_char c :: nat) in if 65 \<le> n \<and> n \<le> 90 then char_of (n + 32) else c)"

definition upper :: "string \<Rightarrow> string" where
  "upper s = map upper_char s"

definition lower :: "string \<Rightarrow> string" where
  "lower s = map lower_char s"

definition is_space :: "char \<Rightarrow> bool" where
  "is_space c = (let n = (of_char c :: nat) in n = 32 \<or> (9 \<le> n \<and> n \<le> 13) \<or> (28 \<le> n \<and> n \<le> 31))"

definition strip :: "string \<Rightarrow> string" where
  "strip s = rev (dropWhile is_space (rev (dropWhile is_space s)))"

definition remove_blanks :: "string \<Rightarrow> string" where
  \<comment> \<open>\<open>s.replace(" ", "")\<close>\<close>
  "remove_blanks s = filter (\<lambda>c. c \<noteq> CHR '' '') s"

definition starts_with :: "string \<Rightarrow> string \<Rightarrow> bool" where
  "starts_with p s \<longleftrightarrow> take (length p) s = p"

definition ends_with :: "string \<Rightarrow> string \<Rightarrow> bool" where
  "ends_with p s \<longleftrightarrow> length p \<le> length s \<and> drop (length s - length p) s = p"

lemma ends_with_append [simp]: "ends_with p (s @ p)"
  by (simp add: ends_with_def)

lemma ends_with_iff: "ends_with p s \<longleftrightarrow> (\<exists>q. s = q @ p)"
proof
  assume "ends_with p s"
  then show "\<exists>q. s = q @ p"
    unfolding ends_with_def by (metis append_take_drop_id)
qed (auto simp: ends_with_def)

lemma starts_with_iff: "starts_with p s \<longleftrightarrow> (\<exists>q. s = p @ q)"
proof
  assume "starts_with p s"
  then show "\<exists>q. s = p @ q"
    unfolding starts_with_def by (metis append_take_drop_id)
qed (auto simp: starts_with_def)

lemma length_upper [simp]: "length (upper s) = length s"
  by (simp add: upper_def)

lemma upper_char_idem: "upper_char (upper_char c) = upper_char c"
proof (cases "97 \<le> (of_char c :: nat) \<and> (of_char c :: nat) \<le> 122")
  case True
  define n where "n = (of_char c :: nat)"
  have n: "97 \<le> n" "n \<le> 122" using True by (simp_all add: n_def)
  then have "of_char (char_of (n - 32) :: char) = n - 32" by simp
  with n show ?thesis
    by (simp add: upper_char_def Let_def flip: n_def) arith
qed (auto simp: upper_char_def Let_def)

lemma upper_idem [simp]: "upper (upper s) = upper s"
  by (simp add: upper_def upper_char_idem)

section \<open>JSON\<close>

datatype json =
    JNull
  | JBool bool
  | JNum rat
  | JStr string
  | JArr "json list"
  | JObj "(string \<times> json) list"

definition jget :: "(string \<times> json) list \<Rightarrow> string \<Rightarrow> json option" where
  "jget ob k = map_of ob k"

text \<open>\<open>bool(x)\<close> of a value read from JSON: the empty values are false.\<close>

fun truthy :: "json \<Rightarrow> bool" where
  "truthy JNull = False"
| "truthy (JBool b) = b"
| "truthy (JNum n) = (n \<noteq> 0)"
| "truthy (JStr s) = (s \<noteq> [])"
| "truthy (JArr xs) = (xs \<noteq> [])"
| "truthy (JObj kvs) = (kvs \<noteq> [])"

text \<open>The \<open>||\<close> of JSONB objects: the right operand's entries win.\<close>

definition jsonb_concat :: "(string \<times> json) list \<Rightarrow> (string \<times> json) list \<Rightarrow> (string \<times> json) list" where
  "jsonb_concat a b = filter (\<lambda>kv. map_of b (fst kv) = None) a @ b"

lemma map_of_filter_key:
  "map_of (filter (\<lambda>kv. P (fst kv)) a) k = (if P k then map_of a k else None)"
  by (induction a) auto

lemma jget_jsonb_concat:
  "jget (jsonb_concat a b) k = (case jget b k of None \<Rightarrow> jget a k | Some v \<Rightarrow> Some v)"
  by (auto simp: jsonb_concat_def jget_def map_add_def split: option.splits
      simp: map_of_filter_key [where P = "\<lambda>k. map_of b k = None"])

end
