(* ===== verification/Decimal.thy ===== *)
theory Decimal
  imports Prelude
begin

text \<open>
  The two decimal arithmetics of the program.
  \<^item> Python's \<open>decimal.Decimal\<close> under the default context (28 significant digits, results
    rounded half to even): \<open>Dec c e\<close> is the number \<open>c * 10 ^ e\<close>. \<open>dec_mul\<close>, \<open>dec_add\<close> and
    \<open>dec_sub\<close> compute exactly and then round to the context, \<open>quantize_unit\<close> is
    \<open>quantize(Decimal("1"), rounding=ROUND_HALF_UP)\<close>, whose \<open>InvalidOperation\<close> is \<open>None\<close>.
    The sign of zero, NaN, the infinities and the exponent limits of the context are not
    modelled: the request schemas refuse non-finite numbers.
  \<^item> PostgreSQL's NUMERIC: exact rationals, and the columns of type NUMERIC(15,2), stored here
    as a whole number of hundredths. \<open>num_15_2\<close> is the assignment to such a column: round
    half away from zero to two places, refuse what needs more than 15 digits.
  The lemmas connect both to rounding on the rationals (\<open>round_half_away\<close>).
\<close>

section \<open>Rounding half away from zero\<close>

definition round_half_away :: "rat \<Rightarrow> int" where
  "round_half_away x = (if 0 \<le> x then \<lfloor>x + 1/2\<rfloor> else - \<lfloor>- x + 1/2\<rfloor>)"

lemma round_half_away_unique:
  assumes "0 \<le> x" "of_int k \<le> x + 1/2" "x + 1/2 < of_int k + 1"
  shows "round_half_away x = k"
  using assms by (simp add: round_half_away_def floor_unique)

lemma round_half_away_minus: "round_half_away (- x) = - round_half_away x"
  by (cases "x = 0") (auto simp: round_half_away_def floor_eq_iff)

lemma round_half_away_of_int [simp]: "round_half_away (of_int k) = k"
proof (cases "0 \<le> k")
  case True
  then show ?thesis by (intro round_half_away_unique) auto
next
  case False
  then have "round_half_away (of_int (- k)) = - k" by (intro round_half_away_unique) auto
  then show ?thesis using round_half_away_minus [of "of_int k"] by simp
qed

lemma round_half_away_bounds:
  "x - 1/2 \<le> of_int (round_half_away x)" "of_int (round_half_away x) \<le> x + 1/2"
proof -
  have *: "of_int (round_half_away y) \<le> y + 1/2 \<and> y - 1/2 < of_int (round_half_away y)"
    if "0 \<le> y" for y :: rat
  proof -
    have "of_int \<lfloor>y + 1/2\<rfloor> \<le> y + 1/2" "y + 1/2 < of_int \<lfloor>y + 1/2\<rfloor> + 1"
      using floor_correct [of "y + 1/2"] by simp_all
    with that show ?thesis by (simp add: round_half_away_def)
  qed
  show "x - 1/2 \<le> of_int (round_half_away x)" "of_int (round_half_away x) \<le> x + 1/2"
    using * [of x] * [of "- x"] by (cases "0 \<le> x"; simp add: round_half_away_minus)+
qed

lemma round_half_away_nonneg: "0 \<le> x \<Longrightarrow> 0 \<le> round_half_away x"
  by (simp add: round_half_away_def)

lemma round_half_away_mono: "0 \<le> x \<Longrightarrow> x \<le> y \<Longrightarrow> round_half_away x \<le> round_half_away y"
  by (simp add: round_half_away_def floor_mono)

text \<open>Adding a whole number commutes with the rounding as long as both sides stay positive.\<close>

lemma round_half_away_add_int:
  assumes "0 \<le> x" "0 \<le> k"
  shows "round_half_away (of_int k + x) = k + round_half_away x"
proof -
  have "of_int k + x + 1/2 = (x + 1/2) + of_int k" by simp
  then have "\<lfloor>of_int k + x + 1/2\<rfloor> = \<lfloor>x + 1/2\<rfloor> + k" by (simp only: floor_add_int)
  with assms show ?thesis by (simp add: round_half_away_def)
qed

text \<open>
  Subtracting from a whole number rounds the other way exactly at a half: that is where a
  balance and a ledger row computed from the same amount drift apart.
\<close>

lemma round_half_away_diff_int:
  assumes "0 \<le> x" "x \<le> of_int k"
  shows "round_half_away (of_int k - x) =
         k - round_half_away x + (if x = of_int \<lfloor>x\<rfloor> + 1/2 then 1 else 0)"
proof -
  have fl: "of_int \<lfloor>x\<rfloor> \<le> x" "x < of_int \<lfloor>x\<rfloor> + 1"
    using floor_correct [of x] by simp_all
  consider (lt) "x < of_int \<lfloor>x\<rfloor> + 1/2" | (half) "x = of_int \<lfloor>x\<rfloor> + 1/2" | (gt) "of_int \<lfloor>x\<rfloor> + 1/2 < x"
    by linarith
  then show ?thesis
  proof cases
    case lt
    then have "round_half_away x = \<lfloor>x\<rfloor>" using fl assms by (intro round_half_away_unique; simp; linarith)
    moreover have "round_half_away (of_int k - x) = k - \<lfloor>x\<rfloor>"
      using fl lt assms by (intro round_half_away_unique; simp; linarith)
    ultimately show ?thesis using lt by simp
  next
    case half
    then have "round_half_away x = \<lfloor>x\<rfloor> + 1" using fl assms by (intro round_half_away_unique; simp; linarith)
    moreover have "round_half_away (of_int k - x) = k - \<lfloor>x\<rfloor>"
      using fl half assms by (intro round_half_away_unique; simp; linarith)
    ultimately show ?thesis using half by simp
  next
    case gt
    then have "round_half_away x = \<lfloor>x\<rfloor> + 1" using fl assms by (intro round_half_away_unique; simp; linarith)
    moreover have "round_half_away (of_int k - x) = k - \<lfloor>x\<rfloor> - 1"
      using fl gt assms by (intro round_half_away_unique; simp; linarith)
    ultimately show ?thesis using gt by simp
  qed
qed

section \<open>NUMERIC(15,2)\<close>

definition num_15_2 :: "rat \<Rightarrow> int option" where
  "num_15_2 x = (let c = round_half_away (100 * x) in if \<bar>c\<bar> < 10 ^ 15 then Some c else None)"

definition cents :: "int \<Rightarrow> rat" where
  "cents c = of_int c / 100"

lemma cents_simps [simp]:
  "cents 0 = 0" "cents (a + b) = cents a + cents b" "cents (a - b) = cents a - cents b"
  "cents a = cents b \<longleftrightarrow> a = b" "cents a < cents b \<longleftrightarrow> a < b" "cents a \<le> cents b \<longleftrightarrow> a \<le> b"
  by (simp_all add: cents_def add_divide_distrib diff_divide_distrib)

lemma cents_pos [simp]: "0 < cents a \<longleftrightarrow> 0 < a" "0 \<le> cents a \<longleftrightarrow> 0 \<le> a"
  by (simp_all add: cents_def)

lemma hundred_cents [simp]: "100 * cents c = of_int c"
  by (simp add: cents_def)

lemma num_15_2_cents: "num_15_2 (cents c) = (if \<bar>c\<bar> < 10 ^ 15 then Some c else None)"
  by (simp add: num_15_2_def)

lemma num_15_2_SomeD: "num_15_2 x = Some c \<Longrightarrow> c = round_half_away (100 * x) \<and> \<bar>c\<bar> < 10 ^ 15"
  by (auto simp: num_15_2_def Let_def split: if_splits)

lemma num_15_2_add_cents:
  "0 \<le> b \<Longrightarrow> 0 \<le> x \<Longrightarrow> num_15_2 (cents b + x) = Some c \<Longrightarrow> c = b + round_half_away (100 * x)"
  by (auto dest!: num_15_2_SomeD simp: distrib_left round_half_away_add_int)

section \<open>Python's Decimal\<close>

datatype decimal = Dec (coef: int) (expo: int)

definition dec_val :: "decimal \<Rightarrow> rat" where
  "dec_val d = (if 0 \<le> expo d then of_int (coef d * 10 ^ nat (expo d))
                else of_int (coef d) / of_int (10 ^ nat (- expo d)))"

definition dec_of_int :: "int \<Rightarrow> decimal" where
  "dec_of_int n = Dec n 0"

lemma dec_val_of_int [simp]: "dec_val (dec_of_int n) = of_int n"
  by (simp add: dec_val_def dec_of_int_def)

lemma dec_val_powi: "dec_val (Dec c e) = of_int c * 10 powi e"
  unfolding dec_val_def power_int_def power_inverse divide_inverse by simp

fun ndigits :: "nat \<Rightarrow> nat" where
  "ndigits n = (if n < 10 then 1 else Suc (ndigits (n div 10)))"

declare ndigits.simps [simp del]

lemma ndigits_le_iff: "0 < k \<Longrightarrow> ndigits n \<le> k \<longleftrightarrow> n < 10 ^ k"
proof (induction n arbitrary: k rule: ndigits.induct)
  case (1 n)
  show ?case
  proof (cases "n < 10")
    case True
    with \<open>0 < k\<close> have "n < 10 ^ k"
      by (metis One_nat_def Suc_leI less_le_trans numeral_One one_le_numeral power_increasing power_one_right)
    with True \<open>0 < k\<close> show ?thesis by (simp add: ndigits.simps [of n])
  next
    case False
    show ?thesis
    proof (cases "k = 1")
      case True
      with False show ?thesis by (subst ndigits.simps) (simp add: ndigits.simps [of "n div 10"])
    next
      case False
      with \<open>0 < k\<close> obtain m where m: "k = Suc m" "0 < m" by (cases k) auto
      with \<open>\<not> n < 10\<close> "1.IH" [of m] show ?thesis
        by (simp add: ndigits.simps [of n] div_less_iff_less_mult mult.commute)
    qed
  qed
qed

definition PREC :: nat where "PREC = 28"

definition div_half_even :: "nat \<Rightarrow> nat \<Rightarrow> nat" where
  "div_half_even m d =
     (let q = m div d; r = m mod d
      in if 2 * r < d then q else if d < 2 * r then q + 1 else if even q then q else q + 1)"

definition div_half_up :: "nat \<Rightarrow> nat \<Rightarrow> nat" where
  "div_half_up m d = (let q = m div d; r = m mod d in if d \<le> 2 * r then q + 1 else q)"

text \<open>Rounding to the context: nothing happens to a coefficient of at most 28 digits.\<close>

definition dec_fix :: "decimal \<Rightarrow> decimal" where
  "dec_fix d =
     (let m = nat \<bar>coef d\<bar>; n = ndigits m in
      if n \<le> PREC then d
      else let k = n - PREC; q = div_half_even m (10 ^ k) in
        if q = 10 ^ PREC then Dec (sgn (coef d) * 10 ^ (PREC - 1)) (expo d + int k + 1)
        else Dec (sgn (coef d) * int q) (expo d + int k))"

definition dec_mul :: "decimal \<Rightarrow> decimal \<Rightarrow> decimal" where
  "dec_mul a b = dec_fix (Dec (coef a * coef b) (expo a + expo b))"

definition dec_add :: "decimal \<Rightarrow> decimal \<Rightarrow> decimal" where
  "dec_add a b =
     (let e = min (expo a) (expo b) in
      dec_fix (Dec (coef a * 10 ^ nat (expo a - e) + coef b * 10 ^ nat (expo b - e)) e))"

definition dec_sub :: "decimal \<Rightarrow> decimal \<Rightarrow> decimal" where
  "dec_sub a b = dec_add a (Dec (- coef b) (expo b))"

definition quantize_unit :: "decimal \<Rightarrow> decimal option" where
  "quantize_unit d =
     (let c = (if 0 \<le> expo d then coef d * 10 ^ nat (expo d)
               else sgn (coef d) * int (div_half_up (nat \<bar>coef d\<bar>) (10 ^ nat (- expo d)))) in
      if ndigits (nat \<bar>c\<bar>) \<le> PREC then Some (Dec c 0) else None)"

lemma dec_fix_exact: "nat \<bar>coef d\<bar> < 10 ^ PREC \<Longrightarrow> dec_fix d = d"
  using ndigits_le_iff [of PREC "nat \<bar>coef d\<bar>"] by (simp add: dec_fix_def PREC_def)

lemma dec_val_mul:
  assumes "\<bar>coef a * coef b\<bar> < 10 ^ PREC"
  shows "dec_val (dec_mul a b) = dec_val a * dec_val b"
proof -
  have "nat \<bar>coef a * coef b\<bar> < 10 ^ PREC" using assms by (simp add: nat_less_iff)
  then have "dec_mul a b = Dec (coef a * coef b) (expo a + expo b)"
    by (simp add: dec_mul_def dec_fix_exact)
  then show ?thesis
    by (cases a; cases b) (simp add: dec_val_powi power_int_add)
qed

definition aligned_sum :: "decimal \<Rightarrow> decimal \<Rightarrow> int" where
  "aligned_sum a b =
     (let e = min (expo a) (expo b)
      in coef a * 10 ^ nat (expo a - e) + coef b * 10 ^ nat (expo b - e))"

lemma dec_val_add:
  assumes "\<bar>aligned_sum a b\<bar> < 10 ^ PREC"
  shows "dec_val (dec_add a b) = dec_val a + dec_val b"
proof -
  define e where "e = min (expo a) (expo b)"
  have sh: "of_int (c * 10 ^ nat (f - e)) * 10 powi e = (of_int c * 10 powi f :: rat)"
    if "e \<le> f" for c f
  proof -
    have "(10 :: rat) powi f = 10 powi (f - e) * 10 powi e"
      by (simp flip: power_int_add)
    with that show ?thesis by (simp add: power_int_def)
  qed
  have le: "e \<le> expo a" "e \<le> expo b" by (simp_all add: e_def)
  have "nat \<bar>aligned_sum a b\<bar> < 10 ^ PREC" using assms by (simp add: nat_less_iff)
  then have "dec_add a b = Dec (aligned_sum a b) e"
    by (simp add: dec_add_def aligned_sum_def Let_def dec_fix_exact e_def)
  then have "dec_val (dec_add a b) = of_int (aligned_sum a b) * 10 powi e"
    by (simp add: dec_val_powi)
  also have "\<dots> = of_int (coef a * 10 ^ nat (expo a - e)) * 10 powi e
                  + of_int (coef b * 10 ^ nat (expo b - e)) * 10 powi e"
    by (simp only: aligned_sum_def Let_def of_int_add distrib_right flip: e_def)
  also have "\<dots> = of_int (coef a) * 10 powi expo a + of_int (coef b) * 10 powi expo b"
    by (simp only: sh le)
  finally show ?thesis by (cases a; cases b) (simp add: dec_val_powi)
qed

lemma dec_val_sub:
  assumes "\<bar>aligned_sum a (Dec (- coef b) (expo b))\<bar> < 10 ^ PREC"
  shows "dec_val (dec_sub a b) = dec_val a - dec_val b"
  using dec_val_add [OF assms] by (cases b) (simp add: dec_sub_def dec_val_powi)

lemma div_half_up_round:
  assumes "0 < d"
  shows "round_half_away (of_nat m / of_nat d) = int (div_half_up m d)"
proof -
  define q r where "q = m div d" and "r = m mod d"
  have m: "(of_nat m :: rat) = of_nat q * of_nat d + of_nat r" and "r < d"
    using assms by (simp_all add: q_def r_def flip: of_nat_mult of_nat_add)
  define y :: rat where "y = of_nat r / of_nat d"
  have x: "(of_nat m / of_nat d :: rat) = of_nat q + y"
    using assms by (simp add: m add_divide_distrib y_def)
  have r: "0 \<le> y" "y < 1"
    using assms \<open>r < d\<close> by (simp_all add: y_def)
  have half: "1 / 2 \<le> y \<longleftrightarrow> d \<le> 2 * r"
  proof -
    have "of_nat d \<le> (of_nat (2 * r) :: rat) \<longleftrightarrow> d \<le> 2 * r" by (rule of_nat_le_iff)
    then show ?thesis using assms by (simp add: field_simps y_def)
  qed
  show ?thesis
  proof (cases "d \<le> 2 * r")
    case True
    with half r show ?thesis
      unfolding x div_half_up_def by (intro round_half_away_unique) (auto simp flip: q_def r_def)
  next
    case False
    with half r show ?thesis
      unfolding x div_half_up_def by (intro round_half_away_unique) (auto simp flip: q_def r_def)
  qed
qed

lemma div_half_up_signed:
  assumes "0 < d"
  shows "round_half_away (of_int c / of_nat d) = sgn c * int (div_half_up (nat \<bar>c\<bar>) d)"
proof -
  define m where "m = nat \<bar>c\<bar>"
  consider "c = 0" | (pos) "0 < c" "c = int m" | (neg) "c < 0" "c = - int m"
    unfolding m_def by linarith
  then show ?thesis
  proof cases
    case 1
    then show ?thesis by (simp add: round_half_away_of_int [of 0, simplified])
  next
    case pos
    then have "(of_int c :: rat) = of_nat m" by simp
    moreover have "sgn c = 1" using pos by simp
    ultimately show ?thesis
      by (simp only: div_half_up_round [OF assms] flip: m_def)
  next
    case neg
    then have "(of_int c :: rat) / of_nat d = - (of_nat m / of_nat d)" by simp
    moreover have "sgn c = -1" using neg by simp
    ultimately show ?thesis
      by (simp only: round_half_away_minus div_half_up_round [OF assms] flip: m_def)
  qed
qed

definition unit_coef :: "decimal \<Rightarrow> int" where
  "unit_coef d =
     (if 0 \<le> expo d then coef d * 10 ^ nat (expo d)
      else sgn (coef d) * int (div_half_up (nat \<bar>coef d\<bar>) (10 ^ nat (- expo d))))"

lemma unit_coef_round: "unit_coef d = round_half_away (dec_val d)"
proof (cases "0 \<le> expo d")
  case True
  then show ?thesis
    by (simp add: unit_coef_def dec_val_def del: of_int_mult of_int_power)
next
  case False
  have "0 < (10 :: nat) ^ nat (- expo d)" by simp
  from div_half_up_signed [OF this, of "coef d"] False show ?thesis
    by (simp add: unit_coef_def dec_val_def)
qed

lemma quantize_unit_alt:
  "quantize_unit d = (let c = round_half_away (dec_val d) in
     if \<bar>c\<bar> < 10 ^ PREC then Some (Dec c 0) else None)"
proof -
  have "ndigits (nat \<bar>c\<bar>) \<le> PREC \<longleftrightarrow> \<bar>c\<bar> < 10 ^ PREC" for c
    using ndigits_le_iff [of PREC "nat \<bar>c\<bar>"] by (simp add: PREC_def nat_less_iff)
  then show ?thesis
    by (simp add: quantize_unit_def Let_def flip: unit_coef_round unit_coef_def)
qed

lemma quantize_unit_val:
  "quantize_unit d = Some r \<Longrightarrow> r = Dec (round_half_away (dec_val d)) 0"
  by (auto simp: quantize_unit_alt Let_def split: if_splits)

end
