(* ===== verification/Models.thy ===== *)
theory Models
  imports Decimal
begin

text \<open>
  The data of the wallet service: the enums and rows of \<open>app/models.py\<close> and of the SQL
  schema, the database as a record of tables, and the messages the service answers with.
  Money columns (NUMERIC(15,2)) hold hundredths of a franc as integers; UUIDs and timestamps
  are numbers, drawn by the database and passed to the operations as arguments; the text of a
  message is a constructor named after it, with the values the code puts into it.
  \<open>wf_db\<close> collects the constraints of the schema (keys, uniqueness, CHECKs, foreign keys).
\<close>

section \<open>Enums\<close>

datatype user_role = USER | ADMIN

datatype transaction_type = PAY_IN | PAY_OUT | INTERNAL_TRANSFER

datatype transaction_status = PENDING | SUCCESS | FAILED | CANCELLED | REVERSED

datatype payment_provider =
  WAVE | ORANGE | MTN | MOOV | INTERNAL | ADMIN_MANUAL | ORANGE_MONEY

datatype kyc_state = KYC_PENDING | KYC_APPROVED | KYC_REJECTED

text \<open>Reading an enum from its label: \<open>TransactionType(s)\<close> and the like, \<open>None\<close> for a ValueError.\<close>

definition provider_labels :: "(string \<times> payment_provider) list" where
  "provider_labels =
     [(''WAVE'', WAVE), (''ORANGE'', ORANGE), (''MTN'', MTN), (''MOOV'', MOOV),
      (''INTERNAL'', INTERNAL), (''ADMIN_MANUAL'', ADMIN_MANUAL), (''ORANGE_MONEY'', ORANGE_MONEY)]"

definition type_labels :: "(string \<times> transaction_type) list" where
  "type_labels =
     [(''PAY_IN'', PAY_IN), (''PAY_OUT'', PAY_OUT), (''INTERNAL_TRANSFER'', INTERNAL_TRANSFER)]"

definition status_labels :: "(string \<times> transaction_status) list" where
  "status_labels =
     [(''PENDING'', PENDING), (''SUCCESS'', SUCCESS), (''FAILED'', FAILED),
      (''CANCELLED'', CANCELLED), (''REVERSED'', REVERSED)]"

definition provider_of :: "string \<Rightarrow> payment_provider option" where
  "provider_of s = map_of provider_labels s"

definition type_of :: "string \<Rightarrow> transaction_type option" where
  "type_of s = map_of type_labels s"

definition status_of :: "string \<Rightarrow> transaction_status option" where
  "status_of s = map_of status_labels s"

text \<open>The label of a member of the enums (\<open>.value\<close>).\<close>

fun type_value :: "transaction_type \<Rightarrow> string" where
  "type_value PAY_IN = ''PAY_IN''"
| "type_value PAY_OUT = ''PAY_OUT''"
| "type_value INTERNAL_TRANSFER = ''INTERNAL_TRANSFER''"

fun status_value :: "transaction_status \<Rightarrow> string" where
  "status_value PENDING = ''PENDING''"
| "status_value SUCCESS = ''SUCCESS''"
| "status_value FAILED = ''FAILED''"
| "status_value CANCELLED = ''CANCELLED''"
| "status_value REVERSED = ''REVERSED''"

lemma type_of_value [simp]: "type_of (type_value t) = Some t"
  by (cases t) (simp_all add: type_of_def type_labels_def)

lemma status_of_value [simp]: "status_of (status_value t) = Some t"
  by (cases t) (simp_all add: status_of_def status_labels_def)

section \<open>Rows\<close>

type_synonym uuid = nat
type_synonym timestamp = nat

record user_row =
  u_id :: uuid
  u_phone_number :: string
  u_full_name :: string
  u_pin_code_hash :: string
  u_role :: user_role
  u_is_active :: bool
  u_created_at :: timestamp
  u_updated_at :: timestamp

record wallet_row =
  w_id :: uuid
  w_user_id :: uuid
  w_balance :: int
  w_currency :: string
  w_updated_at :: timestamp

record ledger_row =
  t_id :: uuid
  t_reference :: string
  t_user_id :: uuid
  t_type :: transaction_type
  t_provider :: payment_provider
  t_amount :: int
  t_fee :: int
  t_status :: transaction_status
  t_phone_number :: "string option"
  t_proof_ref :: "string option"
  t_metadata :: "(string \<times> json) list"
  t_created_at :: timestamp
  t_updated_at :: timestamp

record kyc_row =
  k_id :: uuid
  k_user_id :: uuid
  k_id_document :: string
  k_selfie :: "string option"
  k_status :: kyc_state
  k_reviewed_by :: "uuid option"
  k_review_note :: "string option"
  k_created_at :: timestamp
  k_updated_at :: timestamp

record device_row =
  d_id :: uuid
  d_user_id :: uuid
  d_token :: string
  d_platform :: string
  d_created_at :: timestamp

record audit_row =
  a_id :: uuid
  a_admin_id :: uuid
  a_action :: string
  a_target_id :: "uuid option"
  a_details :: "(string \<times> json) list"
  a_ip_address :: "string option"
  a_created_at :: timestamp

record setting_row =
  s_key :: string
  s_value :: string
  s_updated_at :: timestamp

record db =
  db_users :: "user_row list"
  db_wallets :: "wallet_row list"
  db_ledger :: "ledger_row list"
  db_kyc :: "kyc_row list"
  db_devices :: "device_row list"
  db_audit :: "audit_row list"
  db_settings :: "setting_row list"

definition empty_db :: db where
  "empty_db = \<lparr>db_users = [], db_wallets = [], db_ledger = [], db_kyc = [], db_devices = [],
     db_audit = [], db_settings = []\<rparr>"

section \<open>Refusals of the database and messages of the service\<close>

datatype sql_error =
    NumericValueOutOfRange
  | CheckViolation string
  | UniqueViolation string
  | ForeignKeyViolation string
  | StringDataRightTruncation string
  | InvalidEnumLabel
  | NotNullViolation string

datatype message =
    Transaction_introuvable
  | Deja_creditee
  | Statut_non_creditable
  | Preuve_deja_utilisee
  | Montant_confirme_different int rat
  | Pay_in_credite
  | Portefeuille_inexistant
  | Solde_virtuel_insuffisant
  | Solde_insuffisant_requis int
  | Retrait_reserve
  | Deja_traitee transaction_status
  | Pay_out_valide
  | Pay_out_rejete
  | Action_inconnue
  | Montant_invalide
  | Destinataire_introuvable
  | Transfert_a_soi_meme
  | Portefeuille_expediteur_introuvable
  | Portefeuille_destinataire_introuvable
  | Transfert_effectue
  | Doublon_detecte
  | Declaration_enregistree
  | Montant_non_positif
  | Portefeuille_introuvable
  | Compte_recharge

section \<open>Constraints of the schema\<close>

definition user_exists :: "uuid \<Rightarrow> db \<Rightarrow> bool" where
  "user_exists uid s \<longleftrightarrow> find (\<lambda>u. u_id u = uid) (db_users s) \<noteq> None"

definition wallet_of :: "uuid \<Rightarrow> db \<Rightarrow> wallet_row option" where
  "wallet_of uid s = find (\<lambda>w. w_user_id w = uid) (db_wallets s)"

definition tx_by_id :: "uuid \<Rightarrow> db \<Rightarrow> ledger_row option" where
  "tx_by_id i s = find (\<lambda>t. t_id t = i) (db_ledger s)"

definition tx_by_reference :: "string \<Rightarrow> db \<Rightarrow> ledger_row option" where
  "tx_by_reference r s = find (\<lambda>t. t_reference t = r) (db_ledger s)"

text \<open>The partial unique index \<open>uq_provider_proof_partial\<close> of migration 010.\<close>

definition proof_keys :: "ledger_row list \<Rightarrow> (payment_provider \<times> string) list" where
  "proof_keys ts =
     map (\<lambda>t. (t_provider t, the (t_proof_ref t))) (filter (\<lambda>t. t_proof_ref t \<noteq> None) ts)"

definition length_ok :: "nat \<Rightarrow> string option \<Rightarrow> bool" where
  "length_ok n s = (case s of None \<Rightarrow> True | Some x \<Rightarrow> length x \<le> n)"

definition ledger_row_ok :: "ledger_row \<Rightarrow> bool" where
  "ledger_row_ok t \<longleftrightarrow> 0 < t_amount t \<and> \<bar>t_amount t\<bar> < 10 ^ 15 \<and> \<bar>t_fee t\<bar> < 10 ^ 15 \<and>
     length (t_reference t) \<le> 50 \<and> length_ok 20 (t_phone_number t) \<and> length_ok 100 (t_proof_ref t)"

definition wf_ledger :: "ledger_row list \<Rightarrow> bool" where
  "wf_ledger ts \<longleftrightarrow> distinct (map t_id ts) \<and> distinct (map t_reference ts) \<and>
     distinct (proof_keys ts) \<and> list_all ledger_row_ok ts"

definition wf_wallets :: "wallet_row list \<Rightarrow> bool" where
  "wf_wallets ws \<longleftrightarrow> distinct (map w_id ws) \<and> distinct (map w_user_id ws) \<and>
     list_all (\<lambda>w. 0 \<le> w_balance w \<and> w_balance w < 10 ^ 15) ws"

definition wf_users :: "user_row list \<Rightarrow> bool" where
  "wf_users us \<longleftrightarrow> distinct (map u_id us) \<and> distinct (map u_phone_number us)"

text \<open>The partial unique index \<open>uq_kyc_active_per_user\<close> of migration 002.\<close>

definition kyc_active :: "kyc_row \<Rightarrow> bool" where
  "kyc_active k \<longleftrightarrow> k_status k = KYC_PENDING \<or> k_status k = KYC_APPROVED"

definition wf_kyc :: "kyc_row list \<Rightarrow> bool" where
  "wf_kyc ks \<longleftrightarrow> distinct (map k_id ks) \<and> distinct (map k_user_id (filter kyc_active ks))"

definition wf_devices :: "device_row list \<Rightarrow> bool" where
  "wf_devices ds \<longleftrightarrow> distinct (map d_id ds) \<and> distinct (map d_token ds)"

definition wf_db :: "db \<Rightarrow> bool" where
  "wf_db s \<longleftrightarrow> wf_users (db_users s) \<and> wf_wallets (db_wallets s) \<and> wf_ledger (db_ledger s) \<and>
     wf_kyc (db_kyc s) \<and> wf_devices (db_devices s) \<and>
     distinct (map s_key (db_settings s)) \<and>
     list_all (\<lambda>w. user_exists (w_user_id w) s) (db_wallets s) \<and>
     list_all (\<lambda>t. user_exists (t_user_id t) s) (db_ledger s)"

lemma wf_empty_db: "wf_db empty_db"
  by (simp add: wf_db_def empty_db_def wf_users_def wf_wallets_def wf_ledger_def wf_kyc_def
      wf_devices_def proof_keys_def)

lemma user_exists_iff: "user_exists uid s \<longleftrightarrow> uid \<in> u_id ` set (db_users s)"
  by (auto simp: user_exists_def find_None_iff)

lemma user_exists_frame [simp]:
  "user_exists uid (s\<lparr>db_wallets := ws\<rparr>) = user_exists uid s"
  "user_exists uid (s\<lparr>db_ledger := ts\<rparr>) = user_exists uid s"
  "user_exists uid (s\<lparr>db_kyc := ks\<rparr>) = user_exists uid s"
  "user_exists uid (s\<lparr>db_devices := ds\<rparr>) = user_exists uid s"
  "user_exists uid (s\<lparr>db_audit := al\<rparr>) = user_exists uid s"
  "user_exists uid (s\<lparr>db_settings := ss\<rparr>) = user_exists uid s"
  by (simp_all add: user_exists_def)

lemma wallet_of_frame [simp]:
  "wallet_of uid (s\<lparr>db_ledger := ts\<rparr>) = wallet_of uid s"
  "wallet_of uid (s\<lparr>db_audit := al\<rparr>) = wallet_of uid s"
  by (simp_all add: wallet_of_def)

lemma wallet_of_SomeD:
  "wallet_of uid s = Some w \<Longrightarrow> w \<in> set (db_wallets s) \<and> w_user_id w = uid"
  by (auto simp: wallet_of_def dest: find_SomeD)

lemma tx_by_id_SomeD: "tx_by_id i s = Some t \<Longrightarrow> t \<in> set (db_ledger s) \<and> t_id t = i"
  by (auto simp: tx_by_id_def dest: find_SomeD)

lemma tx_by_reference_SomeD:
  "tx_by_reference r s = Some t \<Longrightarrow> t \<in> set (db_ledger s) \<and> t_reference t = r"
  by (auto simp: tx_by_reference_def dest: find_SomeD)

lemma wf_wallet_bounds:
  "wf_db s \<Longrightarrow> wallet_of uid s = Some w \<Longrightarrow> 0 \<le> w_balance w \<and> w_balance w < 10 ^ 15"
  by (auto simp: wf_db_def wf_wallets_def list_all_iff dest!: wallet_of_SomeD)

lemma wf_ledger_bounds:
  "wf_db s \<Longrightarrow> t \<in> set (db_ledger s) \<Longrightarrow> 0 < t_amount t \<and> t_amount t < 10 ^ 15"
  by (auto simp: wf_db_def wf_ledger_def ledger_row_ok_def list_all_iff)

end
