(* ===== verification/Wallets.thy ===== *)
theory Wallets
  imports Models
begin

text \<open>
  The \<open>wallets\<close> table and the one statement that ever changes a balance,
  \<open>UPDATE wallets SET balance = balance + x WHERE user_id = u\<close>: the sum is rounded to
  NUMERIC(15,2), refused on overflow and by \<open>CHECK (balance >= 0)\<close>.
  The locale \<open>balance_store\<close> is what the ledger functions rely on; its client lemmas (credits,
  debits and moves of whole cents) are proved from the laws alone, and the table is one
  instance of it (\<open>wallets\<close>).
\<close>

locale balance_store =
  fixes inv :: "'w \<Rightarrow> bool"
    and bal :: "'w \<Rightarrow> uuid \<Rightarrow> int option"
    and total :: "'w \<Rightarrow> int"
    and add :: "uuid \<Rightarrow> rat \<Rightarrow> timestamp \<Rightarrow> 'w \<Rightarrow> sql_error + 'w"
  assumes inv_add: "inv w \<Longrightarrow> add u x n w = Inr w' \<Longrightarrow> inv w'"
    and bal_add: "inv w \<Longrightarrow> add u x n w = Inr w' \<Longrightarrow>
      bal w' v = (if v = u then map_option (\<lambda>b. round_half_away (of_int b + 100 * x)) (bal w u) else bal w v)"
    and total_add: "inv w \<Longrightarrow> add u x n w = Inr w' \<Longrightarrow>
      total w' = total w + (case bal w u of None \<Rightarrow> 0 | Some b \<Rightarrow> round_half_away (of_int b + 100 * x) - b)"
    and bal_nonneg: "inv w \<Longrightarrow> bal w u = Some b \<Longrightarrow> 0 \<le> b"
    and add_accepted: "inv w \<Longrightarrow>
      (\<And>b. bal w u = Some b \<Longrightarrow> 0 \<le> round_half_away (of_int b + 100 * x) \<and>
             round_half_away (of_int b + 100 * x) < 10 ^ 15) \<Longrightarrow>
      \<exists>w'. add u x n w = Inr w'"
begin

lemma bal_add_cents:
  assumes "inv w" "add u (cents c) n w = Inr w'"
  shows "bal w' v = (if v = u then map_option (\<lambda>b. b + c) (bal w u) else bal w v)"
proof -
  have "round_half_away (of_int b + of_int c) = b + c" for b
    by (metis of_int_add round_half_away_of_int)
  then show ?thesis using bal_add [OF assms, of v] by simp
qed

lemma total_add_cents:
  assumes "inv w" "add u (cents c) n w = Inr w'"
  shows "total w' = total w + (if bal w u = None then 0 else c)"
proof -
  have "round_half_away (of_int b + of_int c) = b + c" for b
    by (metis of_int_add round_half_away_of_int)
  then show ?thesis using total_add [OF assms] by (auto split: option.splits)
qed

lemma credit_accepted:
  assumes "inv w" "0 \<le> c" "\<And>b. bal w u = Some b \<Longrightarrow> b + c < 10 ^ 15"
  shows "\<exists>w'. add u (cents c) n w = Inr w'"
proof (rule add_accepted [OF assms(1)])
  fix b
  assume b: "bal w u = Some b"
  have "round_half_away (of_int b + 100 * cents c) = b + c"
    by (metis of_int_add hundred_cents round_half_away_of_int)
  with assms b bal_nonneg [OF assms(1) b]
  show "0 \<le> round_half_away (of_int b + 100 * cents c) \<and>
        round_half_away (of_int b + 100 * cents c) < 10 ^ 15"
    by simp
qed

lemma credit_nonneg:
  assumes "inv w" "add u x n w = Inr w'" "0 \<le> x" "bal w u = Some b"
  shows "bal w' u = Some (b + round_half_away (100 * x))"
  using assms bal_add [OF assms(1,2), of u] bal_nonneg [OF assms(1,4)]
  by (simp add: round_half_away_add_int)

text \<open>
  A debit that the balance covers. When the amount has a half cent, the rounding of the new
  balance goes up and the wallet loses one cent less than the rounded amount.
\<close>

lemma debit_covered:
  assumes "inv w" "add u (- x) n w = Inr w'" "0 \<le> x" "bal w u = Some b" "100 * x \<le> of_int b"
  shows "bal w' u = Some (b - round_half_away (100 * x) +
           (if 100 * x = of_int \<lfloor>100 * x\<rfloor> + 1/2 then 1 else 0))"
  using assms bal_add [OF assms(1,2), of u] round_half_away_diff_int [of "100 * x" b]
  by simp

text \<open>Money moved from one wallet to another: nothing is lost but what is not handed on.\<close>

lemma move_total:
  assumes "inv w" "add u (cents (- c)) n w = Inr w1" "add v x n w1 = Inr w2"
    and "u \<noteq> v" "bal w u = Some b" "bal w v = Some b'" "0 \<le> x"
  shows "total w2 = total w - c + round_half_away (100 * x)"
proof -
  have w1: "inv w1" and v: "bal w1 v = Some b'"
    using assms inv_add bal_add_cents by auto
  have "total w1 = total w - c" using total_add_cents [OF assms(1,2)] assms(5) by simp
  moreover have "total w2 = total w1 + round_half_away (100 * x)"
    using total_add [OF w1 assms(3)] v bal_nonneg [OF w1 v] assms(7)
    by (simp add: round_half_away_add_int)
  ultimately show ?thesis by simp
qed

end

section \<open>The table\<close>

definition add_to_row :: "rat \<Rightarrow> timestamp \<Rightarrow> wallet_row \<Rightarrow> sql_error + wallet_row" where
  "add_to_row x now w =
     (case num_15_2 (cents (w_balance w) + x) of
        None \<Rightarrow> Inl NumericValueOutOfRange
      | Some b \<Rightarrow> if b < 0 then Inl (CheckViolation ''wallets_balance_check'')
                  else Inr (w\<lparr>w_balance := b, w_updated_at := now\<rparr>))"

definition wallet_add :: "uuid \<Rightarrow> rat \<Rightarrow> timestamp \<Rightarrow> wallet_row list \<Rightarrow> sql_error + wallet_row list" where
  "wallet_add uid x now ws = try_update_where (\<lambda>w. w_user_id w = uid) (add_to_row x now) ws"

definition balance_in :: "wallet_row list \<Rightarrow> uuid \<Rightarrow> int option" where
  "balance_in ws uid = map_option w_balance (find (\<lambda>w. w_user_id w = uid) ws)"

definition total_balance :: "wallet_row list \<Rightarrow> int" where
  "total_balance ws = sum_list (map w_balance ws)"

lemma add_to_row_Inr:
  "add_to_row x now w = Inr w' \<longleftrightarrow>
   (let b = round_half_away (of_int (w_balance w) + 100 * x)
    in 0 \<le> b \<and> b < 10 ^ 15 \<and> w' = w\<lparr>w_balance := b, w_updated_at := now\<rparr>)"
  by (auto simp: add_to_row_def num_15_2_def Let_def distrib_left split: option.splits if_splits)

definition bumped :: "rat \<Rightarrow> timestamp \<Rightarrow> wallet_row \<Rightarrow> wallet_row" where
  "bumped x now w =
     w\<lparr>w_balance := round_half_away (of_int (w_balance w) + 100 * x), w_updated_at := now\<rparr>"

lemma wallet_add_Inr:
  "wallet_add uid x now ws = Inr ws' \<Longrightarrow>
   ws' = update_where (\<lambda>w. w_user_id w = uid) (bumped x now) ws \<and>
   (\<forall>w \<in> set ws. w_user_id w = uid \<longrightarrow>
      0 \<le> round_half_away (of_int (w_balance w) + 100 * x) \<and>
      round_half_away (of_int (w_balance w) + 100 * x) < 10 ^ 15)"
proof (induction ws arbitrary: ws')
  case (Cons w ws)
  from Cons.prems obtain r ws1 where
    r: "(if w_user_id w = uid then add_to_row x now w else Inr w) = Inr r"
    and ws1: "wallet_add uid x now ws = Inr ws1" and ws': "ws' = r # ws1"
    by (auto simp: wallet_add_def outcome_simps)
  with Cons.IH [OF ws1] show ?case
    by (auto simp: add_to_row_Inr bumped_def Let_def split: if_splits)
qed (simp add: wallet_add_def)

lemma wallet_add_defined:
  assumes "\<And>w. w \<in> set ws \<Longrightarrow> w_user_id w = uid \<Longrightarrow>
      0 \<le> round_half_away (of_int (w_balance w) + 100 * x) \<and>
      round_half_away (of_int (w_balance w) + 100 * x) < 10 ^ 15"
  shows "wallet_add uid x now ws = Inr (update_where (\<lambda>w. w_user_id w = uid) (bumped x now) ws)"
  unfolding wallet_add_def
  by (rule try_update_where_total) (use assms in \<open>simp add: add_to_row_Inr Let_def bumped_def\<close>)

interpretation wallet_keys: key_preserving_update w_user_id "\<lambda>(x, n). bumped x n"
  by unfold_locales (simp add: bumped_def split: prod.splits)

interpretation wallet_ids: key_preserving_update w_id "\<lambda>(x, n). bumped x n"
  by unfold_locales (simp add: bumped_def split: prod.splits)

lemma wf_wallets_keys: "wf_wallets ws \<Longrightarrow> distinct (map w_user_id ws)"
  by (simp add: wf_wallets_def)

lemma wf_wallets_add:
  assumes "wf_wallets ws" "wallet_add u x n ws = Inr ws'"
  shows "wf_wallets ws'"
  using assms wallet_add_Inr [OF assms(2)]
    wallet_keys.keys_update [of _ "(x, n)" ws] wallet_ids.keys_update [of _ "(x, n)" ws]
  by (auto simp: wf_wallets_def list_all_iff set_update_where bumped_def)

lemma balance_in_add:
  assumes "wallet_add u x n ws = Inr ws'"
  shows "balance_in ws' v =
    (if v = u then map_option (\<lambda>b. round_half_away (of_int b + 100 * x)) (balance_in ws u)
     else balance_in ws v)"
proof -
  have "ws' = update_where (\<lambda>w. w_user_id w = u) (bumped x n) ws"
    using wallet_add_Inr [OF assms] by simp
  with wallet_keys.find_key_update [of v u "(x, n)" ws] show ?thesis
    by (auto simp: balance_in_def option.map_comp comp_def bumped_def)
qed

lemma total_balance_add:
  assumes "wf_wallets ws" "wallet_add u x n ws = Inr ws'"
  shows "total_balance ws' = total_balance ws +
    (case balance_in ws u of None \<Rightarrow> 0 | Some b \<Rightarrow> round_half_away (of_int b + 100 * x) - b)"
proof -
  have ws': "ws' = update_where (\<lambda>w. w_user_id w = u) (bumped x n) ws"
    using wallet_add_Inr [OF assms(2)] by simp
  show ?thesis
  proof (cases "find (\<lambda>w. w_user_id w = u) ws")
    case None
    then have "ws' = ws" unfolding ws' by (auto simp: find_None_iff intro: update_where_id)
    with None show ?thesis by (simp add: balance_in_def)
  next
    case (Some w)
    from sum_list_update_where_key [OF wf_wallets_keys [OF assms(1)] Some, of w_balance "bumped x n"]
    show ?thesis using Some by (simp add: ws' total_balance_def balance_in_def bumped_def)
  qed
qed

interpretation wallets: balance_store wf_wallets balance_in total_balance wallet_add
proof (unfold_locales, goal_cases)
  case (1 w u x n w') then show ?case by (rule wf_wallets_add)
next
  case (2 w u x n w' v) then show ?case by (simp add: balance_in_add)
next
  case (3 w u x n w') then show ?case by (rule total_balance_add)
next
  case (4 w u b) then show ?case
    by (auto simp: wf_wallets_def balance_in_def list_all_iff dest: find_SomeD)
next
  case (5 w u x n)
  have "wallet_add u x n w = Inr (update_where (\<lambda>r. w_user_id r = u) (bumped x n) w)"
  proof (rule wallet_add_defined)
    fix r
    assume r: "r \<in> set w" "w_user_id r = u"
    then have "balance_in w u = Some (w_balance r)"
      using distinct_map_find [OF wf_wallets_keys [OF 5(1)], of r] by (simp add: balance_in_def)
    from 5(2) [OF this] show "0 \<le> round_half_away (of_int (w_balance r) + 100 * x) \<and>
        round_half_away (of_int (w_balance r) + 100 * x) < 10 ^ 15" .
  qed
  then show ?case ..
qed

lemma wallet_add_owners:
  "wallet_add u x n ws = Inr ws' \<Longrightarrow> map w_user_id ws' = map w_user_id ws"
  using wallet_add_Inr [of u x n ws ws'] wallet_keys.keys_update [of _ "(x, n)" ws] by auto

end
