(* ===== verification/LedgerSql.thy ===== *)
theory LedgerSql
  imports Wallets
begin

text \<open>
  The atomic functions of the SQL schema in their last version: \<open>process_payin_credit\<close>
  (migration 009), \<open>process_payout_deduction\<close> (migration 003/004), \<open>admin_process_payout\<close>
  (migration 004) and \<open>process_internal_transfer\<close> (migration 006), with the INSERT and UPDATE
  statements on \<open>ledger_transactions\<close> they are made of. A function is one SQL statement: it
  returns its JSONB reply and the new database, or it is refused by a constraint (\<open>Inl\<close>) and
  nothing of it remains. \<open>now\<close> is CURRENT_TIMESTAMP, the \<open>new_id\<close> arguments are the values
  \<open>uuid_generate_v4()\<close> draws. Row locks (FOR UPDATE) have no effect on a single call.
\<close>

section \<open>Statements on the ledger\<close>

definition ledger_check :: "ledger_row list \<Rightarrow> sql_error + ledger_row list" where
  "ledger_check ts =
     (if \<not> list_all (\<lambda>t. \<bar>t_amount t\<bar> < 10 ^ 15 \<and> \<bar>t_fee t\<bar> < 10 ^ 15) ts then Inl NumericValueOutOfRange
      else if \<not> list_all (\<lambda>t. length (t_reference t) \<le> 50 \<and> length_ok 20 (t_phone_number t) \<and>
                                length_ok 100 (t_proof_ref t)) ts
      then Inl (StringDataRightTruncation ''ledger_transactions'')
      else if \<not> list_all (\<lambda>t. 0 < t_amount t) ts then Inl (CheckViolation ''amount'')
      else if \<not> distinct (map t_id ts) then Inl (UniqueViolation ''id'')
      else if \<not> distinct (map t_reference ts) then Inl (UniqueViolation ''reference'')
      else if \<not> distinct (proof_keys ts) then Inl (UniqueViolation ''uq_provider_proof_partial'')
      else Inr ts)"

lemma ledger_check_Inr: "ledger_check ts = Inr ts' \<longleftrightarrow> ts' = ts \<and> wf_ledger ts"
  by (auto simp: ledger_check_def wf_ledger_def ledger_row_ok_def list_all_iff)

definition ledger_update ::
  "(ledger_row \<Rightarrow> bool) \<Rightarrow> (ledger_row \<Rightarrow> ledger_row) \<Rightarrow> db \<Rightarrow> sql_error + db" where
  "ledger_update P f s =
     bindE (ledger_check (update_where P f (db_ledger s))) (\<lambda>ts. Inr (s\<lparr>db_ledger := ts\<rparr>))"

definition ledger_insert :: "ledger_row \<Rightarrow> db \<Rightarrow> sql_error + db" where
  "ledger_insert t s =
     (if \<not> user_exists (t_user_id t) s then Inl (ForeignKeyViolation ''ledger_transactions.user_id'')
      else bindE (ledger_check (db_ledger s @ [t])) (\<lambda>ts. Inr (s\<lparr>db_ledger := ts\<rparr>)))"

definition wallets_update :: "uuid \<Rightarrow> rat \<Rightarrow> timestamp \<Rightarrow> db \<Rightarrow> sql_error + db" where
  "wallets_update uid x now s =
     bindE (wallet_add uid x now (db_wallets s)) (\<lambda>ws. Inr (s\<lparr>db_wallets := ws\<rparr>))"

definition audit_insert :: "audit_row \<Rightarrow> db \<Rightarrow> sql_error + db" where
  "audit_insert a s =
     (if \<not> user_exists (a_admin_id a) s then Inl (ForeignKeyViolation ''admin_audit_log.admin_id'')
      else if a_id a \<in> a_id ` set (db_audit s) then Inl (UniqueViolation ''id'')
      else Inr (s\<lparr>db_audit := db_audit s @ [a]\<rparr>))"

definition to_numeric :: "rat \<Rightarrow> sql_error + int" where
  "to_numeric x = (case num_15_2 x of None \<Rightarrow> Inl NumericValueOutOfRange | Some c \<Rightarrow> Inr c)"

lemma to_numeric_Inr:
  "to_numeric x = Inr c \<longleftrightarrow> c = round_half_away (100 * x) \<and> \<bar>c\<bar> < 10 ^ 15"
  by (auto simp: to_numeric_def num_15_2_def Let_def split: option.splits if_splits)

lemma wallets_update_Inr:
  "wallets_update u x n s = Inr s' \<longleftrightarrow>
   (\<exists>ws. wallet_add u x n (db_wallets s) = Inr ws \<and> s' = s\<lparr>db_wallets := ws\<rparr>)"
  by (auto simp: wallets_update_def outcome_simps)

lemma ledger_update_Inr:
  "ledger_update P f s = Inr s' \<longleftrightarrow>
   wf_ledger (update_where P f (db_ledger s)) \<and>
   s' = s\<lparr>db_ledger := update_where P f (db_ledger s)\<rparr>"
  by (auto simp: ledger_update_def outcome_simps ledger_check_Inr)

lemma ledger_insert_Inr:
  "ledger_insert t s = Inr s' \<longleftrightarrow>
   user_exists (t_user_id t) s \<and> wf_ledger (db_ledger s @ [t]) \<and>
   s' = s\<lparr>db_ledger := db_ledger s @ [t]\<rparr>"
  by (auto simp: ledger_insert_def outcome_simps ledger_check_Inr)

lemma audit_insert_Inr:
  "audit_insert a s = Inr s' \<longleftrightarrow>
   user_exists (a_admin_id a) s \<and> a_id a \<notin> a_id ` set (db_audit s) \<and>
   s' = s\<lparr>db_audit := db_audit s @ [a]\<rparr>"
  by (auto simp: audit_insert_def)

lemmas statement_Inr = wallets_update_Inr ledger_update_Inr ledger_insert_Inr audit_insert_Inr to_numeric_Inr

text \<open>Every statement keeps the constraints of the schema.\<close>

lemma wf_wallets_update:
  assumes "wf_db s" "wallets_update u x n s = Inr s'"
  shows "wf_db s'"
proof -
  obtain ws where ws: "wallet_add u x n (db_wallets s) = Inr ws" and s': "s' = s\<lparr>db_wallets := ws\<rparr>"
    using assms(2) by (auto simp: wallets_update_Inr)
  have "wf_wallets ws"
    using wf_wallets_add [OF _ ws] assms(1) by (simp add: wf_db_def)
  moreover have "list_all (\<lambda>v. user_exists v s) (map w_user_id ws)"
    using assms(1) wallet_add_owners [OF ws] by (simp add: wf_db_def list.pred_map comp_def)
  ultimately show ?thesis
    using assms(1) by (simp add: s' wf_db_def list.pred_map comp_def)
qed

lemma wf_ledger_insert: "wf_db s \<Longrightarrow> ledger_insert t s = Inr s' \<Longrightarrow> wf_db s'"
  by (auto simp: ledger_insert_Inr wf_db_def list_all_iff)

lemma wf_ledger_update:
  "wf_db s \<Longrightarrow> (\<And>t. t_user_id (f t) = t_user_id t) \<Longrightarrow> ledger_update P f s = Inr s' \<Longrightarrow> wf_db s'"
  by (auto simp: ledger_update_Inr wf_db_def list_all_iff set_update_where)

lemma wf_audit_insert: "wf_db s \<Longrightarrow> audit_insert a s = Inr s' \<Longrightarrow> wf_db s'"
  by (auto simp: audit_insert_Inr wf_db_def list_all_iff)

lemmas wf_statements = wf_wallets_update wf_ledger_insert wf_ledger_update wf_audit_insert

section \<open>process_payin_credit\<close>

datatype payin_reply =
    Payin_refused message
  | Payin_credited uuid int "int option"

definition proof_used_elsewhere :: "string option \<Rightarrow> ledger_row \<Rightarrow> ledger_row list \<Rightarrow> bool" where
  "proof_used_elsewhere p tx ts \<longleftrightarrow>
     p \<noteq> None \<and>
     list_ex (\<lambda>t. t_proof_ref t = p \<and> t_provider t = t_provider tx \<and> t_reference t \<noteq> t_reference tx) ts"

definition coalesce :: "'a option \<Rightarrow> 'a option \<Rightarrow> 'a option" where
  "coalesce a b = (case a of None \<Rightarrow> b | Some x \<Rightarrow> Some x)"

definition mark_credited :: "string option \<Rightarrow> timestamp \<Rightarrow> ledger_row \<Rightarrow> ledger_row" where
  "mark_credited p now t =
     t\<lparr>t_status := SUCCESS, t_proof_ref := coalesce (t_proof_ref t) p, t_updated_at := now\<rparr>"

definition process_payin_credit ::
  "timestamp \<Rightarrow> string \<Rightarrow> string option \<Rightarrow> rat option \<Rightarrow> db \<Rightarrow> sql_error + (payin_reply \<times> db)" where
  "process_payin_credit now ref proof confirmed s =
     (case tx_by_reference ref s of
        None \<Rightarrow> Inr (Payin_refused Transaction_introuvable, s)
      | Some tx \<Rightarrow>
          if t_status tx = SUCCESS then Inr (Payin_refused Deja_creditee, s)
          else if t_status tx \<noteq> PENDING \<and> t_status tx \<noteq> FAILED
          then Inr (Payin_refused Statut_non_creditable, s)
          else if proof_used_elsewhere proof tx (db_ledger s)
          then Inr (Payin_refused Preuve_deja_utilisee, s)
          else if confirmed \<noteq> None \<and> the confirmed \<noteq> cents (t_amount tx)
          then Inr (Payin_refused (Montant_confirme_different (t_amount tx) (the confirmed)), s)
          else
            bindE (wallets_update (t_user_id tx) (cents (t_amount tx)) now s) (\<lambda>s1.
            bindE (ledger_update (\<lambda>t. t_id t = t_id tx) (mark_credited proof now) s1) (\<lambda>s2.
            Inr (Payin_credited (t_id tx) (t_amount tx)
                   (map_option (\<lambda>w. w_balance w + t_amount tx) (wallet_of (t_user_id tx) s)), s2))))"

section \<open>process_payout_deduction\<close>

datatype payout_reply =
    Payout_refused message
  | Payout_reserved string uuid rat

definition process_payout_deduction ::
  "timestamp \<Rightarrow> uuid \<Rightarrow> uuid \<Rightarrow> rat \<Rightarrow> string \<Rightarrow> payment_provider \<Rightarrow> string \<Rightarrow> db
   \<Rightarrow> sql_error + (payout_reply \<times> db)" where
  "process_payout_deduction now new_id uid amount ref prov phone s =
     (case wallet_of uid s of
        None \<Rightarrow> Inr (Payout_refused Portefeuille_inexistant, s)
      | Some w \<Rightarrow>
          if cents (w_balance w) < amount then Inr (Payout_refused Solde_virtuel_insuffisant, s)
          else
            bindE (wallets_update uid (- amount) now s) (\<lambda>s1.
            bindE (to_numeric amount) (\<lambda>a.
            bindE (ledger_insert
                \<lparr>t_id = new_id, t_reference = ref, t_user_id = uid, t_type = PAY_OUT,
                 t_provider = prov, t_amount = a, t_fee = 0, t_status = PENDING,
                 t_phone_number = Some phone, t_proof_ref = None,
                 t_metadata = [(''requested_at'', JNum (of_nat now))],
                 t_created_at = now, t_updated_at = now\<rparr> s1) (\<lambda>s2.
            Inr (Payout_reserved ref new_id (cents (w_balance w) - amount), s2)))))"

section \<open>admin_process_payout\<close>

datatype review_reply =
    Review_refused message
  | Review_done message

definition mark_paid :: "string option \<Rightarrow> timestamp \<Rightarrow> ledger_row \<Rightarrow> ledger_row" where
  "mark_paid p now t =
     t\<lparr>t_status := SUCCESS, t_proof_ref := coalesce p (t_proof_ref t), t_updated_at := now\<rparr>"

definition mark_rejected :: "uuid \<Rightarrow> timestamp \<Rightarrow> ledger_row \<Rightarrow> ledger_row" where
  "mark_rejected admin now t =
     t\<lparr>t_status := CANCELLED, t_updated_at := now,
       t_metadata := jsonb_concat (t_metadata t) [(''rejected_by'', JNum (of_nat admin))]\<rparr>"

definition json_of_option :: "string option \<Rightarrow> json" where
  "json_of_option v = (case v of None \<Rightarrow> JNull | Some x \<Rightarrow> JStr x)"

definition sql_admin_process_payout ::
  "timestamp \<Rightarrow> uuid \<Rightarrow> uuid \<Rightarrow> string \<Rightarrow> string option \<Rightarrow> uuid \<Rightarrow> db
   \<Rightarrow> sql_error + (review_reply \<times> db)" where
  "sql_admin_process_payout now new_id tx_id action proof admin s =
     (case tx_by_id tx_id s of
        None \<Rightarrow> Inr (Review_refused Transaction_introuvable, s)
      | Some tx \<Rightarrow>
          if t_status tx \<noteq> PENDING then Inr (Review_refused (Deja_traitee (t_status tx)), s)
          else if action = ''APPROVE'' then
            bindE (ledger_update (\<lambda>t. t_id t = tx_id) (mark_paid proof now) s) (\<lambda>s1.
            bindE (audit_insert
                \<lparr>a_id = new_id, a_admin_id = admin, a_action = ''APPROVE_PAYOUT'',
                 a_target_id = Some tx_id,
                 a_details = [(''proof_ref'', json_of_option proof), (''amount'', JNum (cents (t_amount tx)))],
                 a_ip_address = None, a_created_at = now\<rparr> s1) (\<lambda>s2.
            Inr (Review_done Pay_out_valide, s2)))
          else if action = ''REJECT'' then
            bindE (wallets_update (t_user_id tx) (cents (t_amount tx)) now s) (\<lambda>s1.
            bindE (ledger_update (\<lambda>t. t_id t = tx_id) (mark_rejected admin now) s1) (\<lambda>s2.
            bindE (audit_insert
                \<lparr>a_id = new_id, a_admin_id = admin, a_action = ''REJECT_PAYOUT'',
                 a_target_id = Some tx_id,
                 a_details = [(''refunded_amount'', JNum (cents (t_amount tx)))],
                 a_ip_address = None, a_created_at = now\<rparr> s2) (\<lambda>s3.
            Inr (Review_done Pay_out_rejete, s3))))
          else Inr (Review_refused Action_inconnue, s))"

section \<open>process_internal_transfer\<close>

datatype transfer_reply =
    Transfer_refused message
  | Transfer_done string string rat int int int

definition transfer_out_row ::
  "timestamp \<Rightarrow> uuid \<Rightarrow> uuid \<Rightarrow> string \<Rightarrow> int \<Rightarrow> int \<Rightarrow> string \<Rightarrow> rat \<Rightarrow> ledger_row" where
  "transfer_out_row now new_id sender ref a fee phone fee_percent =
     \<lparr>t_id = new_id, t_reference = ref, t_user_id = sender,
      t_type = INTERNAL_TRANSFER, t_provider = INTERNAL, t_amount = a,
      t_fee = fee, t_status = SUCCESS, t_phone_number = Some phone, t_proof_ref = None,
      t_metadata = [(''role'', JStr ''sender''), (''fee_percent'', JNum fee_percent)],
      t_created_at = now, t_updated_at = now\<rparr>"

definition transfer_in_row ::
  "timestamp \<Rightarrow> uuid \<Rightarrow> uuid \<Rightarrow> string \<Rightarrow> int \<Rightarrow> string option \<Rightarrow> ledger_row" where
  "transfer_in_row now new_id recipient ref a sender_phone =
     \<lparr>t_id = new_id, t_reference = ref, t_user_id = recipient,
      t_type = INTERNAL_TRANSFER, t_provider = INTERNAL, t_amount = a,
      t_fee = 0, t_status = SUCCESS, t_phone_number = sender_phone, t_proof_ref = None,
      t_metadata = [(''role'', JStr ''recipient'')],
      t_created_at = now, t_updated_at = now\<rparr>"

definition process_internal_transfer ::
  "timestamp \<Rightarrow> uuid \<Rightarrow> uuid \<Rightarrow> uuid \<Rightarrow> rat \<Rightarrow> string \<Rightarrow> string \<Rightarrow> string \<Rightarrow> rat \<Rightarrow> db
   \<Rightarrow> sql_error + (transfer_reply \<times> db)" where
  "process_internal_transfer now id_out id_in sender amount phone sender_ref recipient_ref fee_percent s =
     (if amount \<le> 0 then Inr (Transfer_refused Montant_invalide, s)
      else
        bindE (to_numeric (amount * fee_percent / 100)) (\<lambda>fee.
        bindE (to_numeric (amount + cents fee)) (\<lambda>total.
        case find (\<lambda>u. u_phone_number u = phone) (db_users s) of
          None \<Rightarrow> Inr (Transfer_refused Destinataire_introuvable, s)
        | Some r \<Rightarrow>
            if u_id r = sender then Inr (Transfer_refused Transfert_a_soi_meme, s)
            else (case wallet_of sender s of
                None \<Rightarrow> Inr (Transfer_refused Portefeuille_expediteur_introuvable, s)
              | Some w \<Rightarrow>
                  if w_balance w < total then Inr (Transfer_refused (Solde_insuffisant_requis total), s)
                  else if wallet_of (u_id r) s = None
                  then Inr (Transfer_refused Portefeuille_destinataire_introuvable, s)
                  else
                    bindE (wallets_update sender (- cents total) now s) (\<lambda>s1.
                    bindE (wallets_update (u_id r) amount now s1) (\<lambda>s2.
                    bindE (to_numeric amount) (\<lambda>a.
                    bindE (ledger_insert (transfer_out_row now id_out sender sender_ref a fee phone fee_percent) s2) (\<lambda>s3.
                    bindE (ledger_insert (transfer_in_row now id_in (u_id r) recipient_ref a
                        (map_option u_phone_number (find (\<lambda>u. u_id u = sender) (db_users s)))) s3) (\<lambda>s4.
                    Inr (Transfer_done sender_ref recipient_ref amount fee total
                           (w_balance w - total), s4))))))))))"

end
