(* ===== verification/Session.thy ===== *)
theory Session
  imports LedgerSql
begin

text \<open>
  A request's dealings with the database: the SQLAlchemy session of \<open>app/database.py\<close>
  (\<open>get_db\<close>, \<open>get_sync_db\<close>). A session holds what is committed, what the open transaction
  sees, and whether a refused statement has aborted the transaction; a program is a function
  on sessions that ends in a value or in an exception. \<open>request\<close> opens a session for one
  program and closes it, which rolls back what was not committed.
  \<open>keeps I p\<close> says that the program preserves the invariant \<open>I\<close> of databases in whatever way
  it ends; it is proved by going through the program's text with the rules \<open>keeps_intros\<close>.
\<close>

named_theorems keeps_intros
named_theorems run_simps

section \<open>Sessions and exceptions\<close>

record session =
  committed :: db
  current :: db
  aborted :: bool

text \<open>The detail of an HTTPException, a constructor per text of the code.\<close>

datatype detail =
    Of_service message
  | Wallet_introuvable
  | Fournisseur_de_paiement_invalide
  | Conflit_enregistrement
  | Session_invalide
  | Nom_vide
  | Numero_deja_enregistre
  | Identifiants_invalides
  | Compte_desactive
  | Secret_de_bootstrap_invalide
  | Admin_existe_deja
  | Route_admin_non_configuree
  | Secret_invalide
  | Reserve_aux_administrateurs
  | Action_invalide
  | Type_de_transaction_invalide
  | Statut_invalide
  | Utilisateur_introuvable
  | Blocage_admin_impossible
  | Demande_introuvable
  | Deja_traitee_kyc kyc_state
  | Depot_introuvable_ou_deja_traite
  | Depot_introuvable
  | Reference_introuvable string
  | Image_trop_volumineuse
  | Dossier_kyc_deja kyc_state
  | Validation_error

datatype exn =
    Http nat detail
  | Sql sql_error
  | In_failed_sql_transaction
  | No_result_found
  | Multiple_results_found
  | Invalid_operation
  | Other_exception

type_synonym 'a prog = "session \<Rightarrow> (exn + 'a) \<times> session"

definition ret :: "'a \<Rightarrow> 'a prog" where
  "ret x \<sigma> = (Inr x, \<sigma>)"

definition throw :: "exn \<Rightarrow> 'a prog" where
  "throw e \<sigma> = (Inl e, \<sigma>)"

definition bindP :: "'a prog \<Rightarrow> ('a \<Rightarrow> 'b prog) \<Rightarrow> 'b prog" where
  "bindP m f \<sigma> = (case m \<sigma> of (Inl e, \<sigma>') \<Rightarrow> (Inl e, \<sigma>') | (Inr x, \<sigma>') \<Rightarrow> f x \<sigma>')"

definition attempt :: "'a prog \<Rightarrow> (exn \<Rightarrow> 'a prog) \<Rightarrow> 'a prog" where
  \<comment> \<open>\<open>try: m except Exception as e: h\<close>\<close>
  "attempt m h \<sigma> = (case m \<sigma> of (Inl e, \<sigma>') \<Rightarrow> h e \<sigma>' | (Inr x, \<sigma>') \<Rightarrow> (Inr x, \<sigma>'))"

definition http :: "nat \<Rightarrow> detail \<Rightarrow> 'a prog" where
  "http code d = throw (Http code d)"

definition guard :: "bool \<Rightarrow> exn \<Rightarrow> unit prog" where
  \<comment> \<open>\<open>if not b: raise e\<close>\<close>
  "guard b e = (if b then ret () else throw e)"

section \<open>Statements\<close>

definition statement :: "(db \<Rightarrow> sql_error + ('a \<times> db)) \<Rightarrow> 'a prog" where
  "statement f \<sigma> =
     (if aborted \<sigma> then (Inl In_failed_sql_transaction, \<sigma>)
      else case f (current \<sigma>) of
        Inl e \<Rightarrow> (Inl (Sql e), \<sigma>\<lparr>aborted := True\<rparr>)
      | Inr (x, s) \<Rightarrow> (Inr x, \<sigma>\<lparr>current := s\<rparr>))"

definition exec :: "(db \<Rightarrow> sql_error + db) \<Rightarrow> unit prog" where
  "exec f = statement (\<lambda>s. bindE (f s) (\<lambda>s'. Inr ((), s')))"

definition query :: "(db \<Rightarrow> 'a) \<Rightarrow> 'a prog" where
  "query f = statement (\<lambda>s. Inr (f s, s))"

definition commit :: "unit prog" where
  "commit \<sigma> =
     (if aborted \<sigma> then (Inr (), \<sigma>\<lparr>current := committed \<sigma>, aborted := False\<rparr>)
      else (Inr (), \<sigma>\<lparr>committed := current \<sigma>\<rparr>))"

definition rollback :: "unit prog" where
  "rollback \<sigma> = (Inr (), \<sigma>\<lparr>current := committed \<sigma>, aborted := False\<rparr>)"

text \<open>\<open>scalar_one_or_none()\<close> and \<open>scalar_one()\<close> on the rows of a SELECT.\<close>

definition one_or_none :: "'r list \<Rightarrow> 'r option prog" where
  "one_or_none rs = (case rs of [] \<Rightarrow> ret None | [r] \<Rightarrow> ret (Some r) | _ \<Rightarrow> throw Multiple_results_found)"

definition scalar_one :: "'r option \<Rightarrow> 'r prog" where
  "scalar_one r = (case r of None \<Rightarrow> throw No_result_found | Some x \<Rightarrow> ret x)"

definition opened :: "db \<Rightarrow> session" where
  "opened s = \<lparr>committed = s, current = s, aborted = False\<rparr>"

definition request :: "'a prog \<Rightarrow> db \<Rightarrow> (exn + 'a) \<times> db" where
  "request p s = (case p (opened s) of (r, \<sigma>) \<Rightarrow> (r, committed \<sigma>))"

section \<open>Running\<close>

lemma bindP_simps [run_simps]:
  "bindP (ret x) f = f x" "bindP (throw e) f = throw e" "bindP (bindP m f) g = bindP m (\<lambda>x. bindP (f x) g)"
  by (rule ext, simp add: bindP_def ret_def throw_def split: prod.splits sum.splits)+

lemma bindP_Inr: "bindP m f \<sigma> = (Inr y, \<sigma>'') \<longleftrightarrow> (\<exists>x \<sigma>'. m \<sigma> = (Inr x, \<sigma>') \<and> f x \<sigma>' = (Inr y, \<sigma>''))"
  by (auto simp: bindP_def split: prod.splits sum.splits)

lemma bindP_Inl:
  "bindP m f \<sigma> = (Inl e, \<sigma>'') \<longleftrightarrow>
   m \<sigma> = (Inl e, \<sigma>'') \<or> (\<exists>x \<sigma>'. m \<sigma> = (Inr x, \<sigma>') \<and> f x \<sigma>' = (Inl e, \<sigma>''))"
  by (auto simp: bindP_def split: prod.splits sum.splits)

lemma ret_run: "ret x \<sigma> = (r, \<sigma>') \<longleftrightarrow> r = Inr x \<and> \<sigma>' = \<sigma>"
  by (auto simp: ret_def)

lemma throw_run: "throw e \<sigma> = (r, \<sigma>') \<longleftrightarrow> r = Inl e \<and> \<sigma>' = \<sigma>"
  by (auto simp: throw_def)

lemma statement_Inr_run:
  "statement f \<sigma> = (Inr x, \<sigma>') \<longleftrightarrow>
   \<not> aborted \<sigma> \<and> (\<exists>s. f (current \<sigma>) = Inr (x, s) \<and> \<sigma>' = \<sigma>\<lparr>current := s\<rparr>)"
  by (auto simp: statement_def split: sum.splits)

lemma exec_Inr_run:
  "exec f \<sigma> = (Inr x, \<sigma>') \<longleftrightarrow> \<not> aborted \<sigma> \<and> (\<exists>s. f (current \<sigma>) = Inr s \<and> \<sigma>' = \<sigma>\<lparr>current := s\<rparr>)"
  by (auto simp: exec_def statement_Inr_run outcome_simps)

lemma query_Inr_run: "query f \<sigma> = (Inr x, \<sigma>') \<longleftrightarrow> \<not> aborted \<sigma> \<and> x = f (current \<sigma>) \<and> \<sigma>' = \<sigma>"
  by (auto simp: query_def statement_Inr_run)

lemma guard_Inr_run: "guard b e \<sigma> = (Inr x, \<sigma>') \<longleftrightarrow> b \<and> \<sigma>' = \<sigma>"
  by (auto simp: guard_def ret_def throw_def)

lemma commit_run:
  "\<not> aborted \<sigma> \<Longrightarrow> commit \<sigma> = (r, \<sigma>') \<longleftrightarrow> r = Inr () \<and> \<sigma>' = \<sigma>\<lparr>committed := current \<sigma>\<rparr>"
  by (auto simp: commit_def)

lemma one_or_none_run: "one_or_none rs \<sigma> = (Inr x, \<sigma>') \<longleftrightarrow> (rs = [] \<and> x = None \<or> (\<exists>r. rs = [r] \<and> x = Some r)) \<and> \<sigma>' = \<sigma>"
  by (auto simp: one_or_none_def ret_def throw_def split: list.splits)

lemma scalar_one_run: "scalar_one r \<sigma> = (Inr x, \<sigma>') \<longleftrightarrow> r = Some x \<and> \<sigma>' = \<sigma>"
  by (auto simp: scalar_one_def ret_def throw_def split: option.splits)

lemma http_run: "http c d \<sigma> = (r, \<sigma>') \<longleftrightarrow> r = Inl (Http c d) \<and> \<sigma>' = \<sigma>"
  by (auto simp: http_def throw_def)

lemmas runs = bindP_Inr ret_run throw_run statement_Inr_run exec_Inr_run query_Inr_run guard_Inr_run
  commit_run one_or_none_run scalar_one_run http_run

lemma opened_simps [simp]:
  "current (opened s) = s" "committed (opened s) = s" "aborted (opened s) = False"
  by (simp_all add: opened_def)

section \<open>Invariants of databases\<close>

definition holds :: "(db \<Rightarrow> bool) \<Rightarrow> session \<Rightarrow> bool" where
  "holds I \<sigma> \<longleftrightarrow> I (committed \<sigma>) \<and> I (current \<sigma>)"

definition keeps :: "(db \<Rightarrow> bool) \<Rightarrow> 'a prog \<Rightarrow> bool" where
  "keeps I p \<longleftrightarrow> (\<forall>\<sigma>. holds I \<sigma> \<longrightarrow> holds I (snd (p \<sigma>)))"

lemma keepsI: "(\<And>\<sigma>. holds I \<sigma> \<Longrightarrow> holds I (snd (p \<sigma>))) \<Longrightarrow> keeps I p"
  by (simp add: keeps_def)

lemma keepsD: "keeps I p \<Longrightarrow> p \<sigma> = (r, \<sigma>') \<Longrightarrow> holds I \<sigma> \<Longrightarrow> holds I \<sigma>'"
  by (auto simp: keeps_def dest: spec [of _ \<sigma>])

lemma keeps_snd: "keeps I p \<Longrightarrow> holds I \<sigma> \<Longrightarrow> holds I (snd (p \<sigma>))"
  by (simp add: keeps_def)

lemma keeps_bind [keeps_intros]: "keeps I m \<Longrightarrow> (\<And>x. keeps I (f x)) \<Longrightarrow> keeps I (bindP m f)"
  by (rule keepsI) (auto simp: bindP_def split: prod.splits sum.splits dest: keepsD intro: keeps_snd)

lemma keeps_attempt [keeps_intros]: "keeps I m \<Longrightarrow> (\<And>e. keeps I (h e)) \<Longrightarrow> keeps I (attempt m h)"
  by (rule keepsI) (auto simp: attempt_def split: prod.splits sum.splits dest: keepsD intro: keeps_snd)

lemma keeps_statement [keeps_intros]:
  "(\<And>s x s'. I s \<Longrightarrow> f s = Inr (x, s') \<Longrightarrow> I s') \<Longrightarrow> keeps I (statement f)"
  by (rule keepsI) (auto simp: statement_def holds_def split: sum.splits)

lemma keeps_exec [keeps_intros]: "(\<And>s s'. I s \<Longrightarrow> f s = Inr s' \<Longrightarrow> I s') \<Longrightarrow> keeps I (exec f)"
  by (auto simp: exec_def outcome_simps intro!: keeps_statement)

lemma keeps_reads [keeps_intros]:
  "keeps I (ret x)" "keeps I (throw e)" "keeps I (http c d)" "keeps I (guard b e)" "keeps I (query g)"
  "keeps I commit" "keeps I rollback" "keeps I (one_or_none rs)" "keeps I (scalar_one r)"
  by (auto simp: keeps_def ret_def throw_def http_def guard_def query_def statement_def commit_def
      rollback_def holds_def one_or_none_def scalar_one_def split: list.splits option.splits)

lemma keeps_cases [keeps_intros]:
  "(b \<Longrightarrow> keeps I p) \<Longrightarrow> (\<not> b \<Longrightarrow> keeps I q) \<Longrightarrow> keeps I (if b then p else q)"
  "(ov = None \<Longrightarrow> keeps I p) \<Longrightarrow> (\<And>x. ov = Some x \<Longrightarrow> keeps I (fo x)) \<Longrightarrow> keeps I (case ov of None \<Rightarrow> p | Some x \<Rightarrow> fo x)"
  "(\<And>a b. pv = (a, b) \<Longrightarrow> keeps I (fp a b)) \<Longrightarrow> keeps I (case pv of (a, b) \<Rightarrow> fp a b)"
  by (auto split: option.splits prod.splits)

lemma request_keeps: "keeps I p \<Longrightarrow> request p s = (r, s') \<Longrightarrow> I s \<Longrightarrow> I s'"
  by (auto simp: request_def holds_def split: prod.splits dest!: keepsD [where \<sigma> = "opened s"])

section \<open>All or nothing\<close>

text \<open>
  \<open>all_or_nothing p\<close>: a request that ends in an exception leaves the database as it was. It is
  proved by \<open>silent_intros\<close> when nothing is committed before the exception, and from the run of
  the program when a commit comes first.
\<close>

named_theorems silent_intros
named_theorems no_commit_intros
named_theorems infallible_intros

definition all_or_nothing :: "'a prog \<Rightarrow> bool" where
  "all_or_nothing p \<longleftrightarrow> (\<forall>s e s'. request p s = (Inl e, s') \<longrightarrow> s' = s)"

definition no_commit :: "'a prog \<Rightarrow> bool" where
  "no_commit p \<longleftrightarrow> (\<forall>\<sigma>. committed (snd (p \<sigma>)) = committed \<sigma> \<and> (\<not> aborted \<sigma> \<longrightarrow> isl (fst (p \<sigma>)) \<or> \<not> aborted (snd (p \<sigma>))))"

definition infallible :: "'a prog \<Rightarrow> bool" where
  "infallible p \<longleftrightarrow> (\<forall>\<sigma>. \<not> aborted \<sigma> \<longrightarrow> \<not> isl (fst (p \<sigma>)) \<and> \<not> aborted (snd (p \<sigma>)))"

definition silent :: "'a prog \<Rightarrow> bool" where
  "silent p \<longleftrightarrow> (\<forall>\<sigma>. \<not> aborted \<sigma> \<longrightarrow>
     (if isl (fst (p \<sigma>)) then committed (snd (p \<sigma>)) = committed \<sigma> else \<not> aborted (snd (p \<sigma>))))"

lemma no_commit_simple [no_commit_intros]:
  "no_commit (ret x)" "no_commit (throw e)" "no_commit (http c d)" "no_commit (guard b e)"
  "no_commit (query g)" "no_commit (statement f)" "no_commit (exec u)"
  "no_commit (one_or_none rs)" "no_commit (scalar_one r)"
  by (auto simp: no_commit_def ret_def throw_def http_def guard_def query_def exec_def statement_def
      one_or_none_def scalar_one_def split: list.splits option.splits sum.splits)

lemma bindP_parts:
  "committed (snd (bindP m f \<sigma>)) = (case m \<sigma> of (Inl e, \<sigma>') \<Rightarrow> committed \<sigma>' | (Inr x, \<sigma>') \<Rightarrow> committed (snd (f x \<sigma>')))"
  "aborted (snd (bindP m f \<sigma>)) = (case m \<sigma> of (Inl e, \<sigma>') \<Rightarrow> aborted \<sigma>' | (Inr x, \<sigma>') \<Rightarrow> aborted (snd (f x \<sigma>')))"
  "isl (fst (bindP m f \<sigma>)) = (case m \<sigma> of (Inl e, \<sigma>') \<Rightarrow> True | (Inr x, \<sigma>') \<Rightarrow> isl (fst (f x \<sigma>')))"
  by (simp_all add: bindP_def split: prod.splits sum.splits)

lemma no_commit_bind [no_commit_intros]:
  assumes "no_commit m" "\<And>x. no_commit (k x)"
  shows "no_commit (bindP m k)"
  unfolding no_commit_def
proof
  fix \<sigma>
  obtain r \<sigma>' where r: "m \<sigma> = (r, \<sigma>')" by fastforce
  from assms(1) r have "committed \<sigma>' = committed \<sigma>" "\<not> aborted \<sigma> \<longrightarrow> isl r \<or> \<not> aborted \<sigma>'"
    by (auto simp: no_commit_def dest!: spec [of _ \<sigma>])
  with assms(2) r show "committed (snd (bindP m k \<sigma>)) = committed \<sigma> \<and>
      (\<not> aborted \<sigma> \<longrightarrow> isl (fst (bindP m k \<sigma>)) \<or> \<not> aborted (snd (bindP m k \<sigma>)))"
    by (cases r) (auto simp: bindP_parts no_commit_def)
qed

lemma infallible_simple [infallible_intros]: "infallible (ret x)" "infallible commit" "infallible (query g)"
  by (auto simp: infallible_def ret_def commit_def query_def statement_def)

lemma infallible_bind [infallible_intros]:
  assumes "infallible m" "\<And>x. infallible (k x)"
  shows "infallible (bindP m k)"
  unfolding infallible_def
proof (intro allI impI)
  fix \<sigma> :: session assume "\<not> aborted \<sigma>"
  moreover obtain r \<sigma>' where r: "m \<sigma> = (r, \<sigma>')" by fastforce
  ultimately have "\<not> isl r" "\<not> aborted \<sigma>'" using assms(1) by (auto simp: infallible_def dest!: spec [of _ \<sigma>])
  with assms(2) r show "\<not> isl (fst (bindP m k \<sigma>)) \<and> \<not> aborted (snd (bindP m k \<sigma>))"
    by (cases r) (auto simp: bindP_parts infallible_def)
qed

lemma silent_base: "no_commit p \<Longrightarrow> silent p" "infallible p \<Longrightarrow> silent p"
  by (auto simp: no_commit_def infallible_def silent_def)

lemma silent_bind_before [silent_intros]:
  assumes "no_commit m" "\<And>x. silent (k x)"
  shows "silent (bindP m k)"
  unfolding silent_def
proof (intro allI impI)
  fix \<sigma> :: session assume a: "\<not> aborted \<sigma>"
  obtain r \<sigma>' where r: "m \<sigma> = (r, \<sigma>')" by fastforce
  with assms(1) a have "committed \<sigma>' = committed \<sigma>" "isl r \<or> \<not> aborted \<sigma>'"
    by (auto simp: no_commit_def dest!: spec [of _ \<sigma>])
  with assms(2) r show "if isl (fst (bindP m k \<sigma>)) then committed (snd (bindP m k \<sigma>)) = committed \<sigma>
      else \<not> aborted (snd (bindP m k \<sigma>))"
    by (cases r) (auto simp: bindP_parts silent_def)
qed

lemma silent_bind_after:
  assumes "silent m" "\<And>x. infallible (k x)"
  shows "silent (bindP m k)"
  unfolding silent_def
proof (intro allI impI)
  fix \<sigma> :: session assume a: "\<not> aborted \<sigma>"
  obtain r \<sigma>' where r: "m \<sigma> = (r, \<sigma>')" by fastforce
  with assms(1) a have "if isl r then committed \<sigma>' = committed \<sigma> else \<not> aborted \<sigma>'"
    by (auto simp: silent_def dest!: spec [of _ \<sigma>])
  with assms(2) r show "if isl (fst (bindP m k \<sigma>)) then committed (snd (bindP m k \<sigma>)) = committed \<sigma>
      else \<not> aborted (snd (bindP m k \<sigma>))"
    by (cases r) (auto simp: bindP_parts infallible_def)
qed

lemma silent_simple [silent_intros]:
  "silent (ret x)" "silent (throw e)" "silent (http c d)" "silent commit"
  "infallible (k ()) \<Longrightarrow> silent (bindP commit k)"
proof -
  assume "infallible (k ())"
  then have "infallible (bindP commit k)" by (intro infallible_bind infallible_simple) simp
  then show "silent (bindP commit k)" by (rule silent_base)
qed (auto intro: silent_base no_commit_intros infallible_intros)

lemma case_intros:
  "(b \<Longrightarrow> silent p) \<Longrightarrow> (\<not> b \<Longrightarrow> silent q) \<Longrightarrow> silent (if b then p else q)"
  "(ov = None \<Longrightarrow> silent p) \<Longrightarrow> (\<And>x. ov = Some x \<Longrightarrow> silent (fo x)) \<Longrightarrow> silent (case ov of None \<Rightarrow> p | Some x \<Rightarrow> fo x)"
  "(ov = None \<Longrightarrow> no_commit p) \<Longrightarrow> (\<And>x. ov = Some x \<Longrightarrow> no_commit (fo x)) \<Longrightarrow> no_commit (case ov of None \<Rightarrow> p | Some x \<Rightarrow> fo x)"
  "(b \<Longrightarrow> no_commit p) \<Longrightarrow> (\<not> b \<Longrightarrow> no_commit q) \<Longrightarrow> no_commit (if b then p else q)"
  by (auto split: option.splits)

lemmas case_silent [silent_intros] = case_intros(1,2)
lemmas case_no_commit [no_commit_intros] = case_intros(3,4)

lemma silent_all_or_nothing: "silent p \<Longrightarrow> all_or_nothing p"
  by (auto simp: silent_def all_or_nothing_def request_def split: prod.splits)
     (metis fst_conv isl_def opened_simps(2,3) snd_conv)

lemma request_no_commit: "no_commit p \<Longrightarrow> snd (request p s) = s"
  by (simp add: request_def no_commit_def split: prod.splits) (metis opened_simps(2) snd_conv)

end
