(* ===== verification/DecimalText.thy ===== *)
theory DecimalText
  imports Decimal
begin

text \<open>
  Decimals as text: \<open>str(Decimal)\<close> and \<open>Decimal(str)\<close>, which the fee percentage goes through on
  its way into and out of the settings table. \<open>dec_str\<close> is Python's to-scientific-string,
  \<open>dec_parse\<close> accepts an optional sign, digits with an optional point, and an optional exponent
  (the special values NaN and Infinity, surrounding blanks and underscores are not read:
  \<open>None\<close>). Reading back what was written gives the same decimal, exponent included.
\<close>

definition digit_char :: "nat \<Rightarrow> char" where
  "digit_char d = char_of (48 + d)"

definition char_digit :: "char \<Rightarrow> nat" where
  "char_digit c = of_char c - 48"

definition is_digit :: "char \<Rightarrow> bool" where
  "is_digit c \<longleftrightarrow> (let n = (of_char c :: nat) in 48 \<le> n \<and> n \<le> 57)"

fun nat_str :: "nat \<Rightarrow> string" where
  "nat_str n = (if n < 10 then [digit_char n] else nat_str (n div 10) @ [digit_char (n mod 10)])"

declare nat_str.simps [simp del]

definition digits_val :: "string \<Rightarrow> nat" where
  "digits_val s = foldl (\<lambda>a c. 10 * a + char_digit c) 0 s"

lemma digit_char_simps [simp]:
  "d < 10 \<Longrightarrow> char_digit (digit_char d) = d" "d < 10 \<Longrightarrow> is_digit (digit_char d)"
  by (simp_all add: char_digit_def digit_char_def is_digit_def Let_def)

lemma digits_val_snoc [simp]: "digits_val (s @ [c]) = 10 * digits_val s + char_digit c"
  by (simp add: digits_val_def)

lemma nat_str_val [simp]: "digits_val (nat_str n) = n"
proof (induction n rule: nat_str.induct)
  case (1 n)
  then show ?case
    by (cases "n < 10") (simp_all add: nat_str.simps [of n], simp add: digits_val_def)
qed

lemma nat_str_digits: "list_all is_digit (nat_str n)"
proof (induction n rule: nat_str.induct)
  case (1 n)
  then show ?case by (cases "n < 10") (simp_all add: nat_str.simps [of n])
qed

lemma nat_str_nonempty [simp]: "nat_str n \<noteq> []"
  by (subst nat_str.simps) simp

lemma length_nat_str: "length (nat_str n) = ndigits n"
proof (induction n rule: nat_str.induct)
  case (1 n)
  then show ?case by (cases "n < 10") (simp_all add: nat_str.simps [of n] ndigits.simps [of n])
qed

lemma digits_val_zeros [simp]: "digits_val (replicate k (CHR ''0'') @ s) = digits_val s"
proof (induction k)
  case (Suc k)
  then show ?case by (simp add: digits_val_def char_digit_def)
qed simp

section \<open>Writing\<close>

definition signed_str :: "int \<Rightarrow> string" where
  \<comment> \<open>the format \<open>%+d\<close>\<close>
  "signed_str n = (if n < 0 then CHR ''-'' else CHR ''+'') # nat_str (nat \<bar>n\<bar>)"

definition dec_str :: "decimal \<Rightarrow> string" where
  "dec_str d =
     (let ds = nat_str (nat \<bar>coef d\<bar>);
          left = expo d + int (length ds);
          dot = (if expo d \<le> 0 \<and> left > -6 then left else 1);
          body = (if dot \<le> 0 then ''0.'' @ replicate (nat (- dot)) (CHR ''0'') @ ds
                  else if int (length ds) \<le> dot then ds @ replicate (nat (dot - int (length ds))) (CHR ''0'')
                  else take (nat dot) ds @ ''.'' @ drop (nat dot) ds)
      in (if coef d < 0 then ''-'' else []) @ body @
         (if left = dot then [] else CHR ''E'' # signed_str (left - dot)))"

section \<open>Reading\<close>

definition split_sign :: "string \<Rightarrow> bool \<times> string" where
  "split_sign s = (case s of [] \<Rightarrow> (False, [])
     | c # cs \<Rightarrow> if c = CHR ''-'' then (True, cs) else if c = CHR ''+'' then (False, cs) else (False, s))"

definition parse_exponent :: "string \<Rightarrow> int option" where
  "parse_exponent s =
     (if s = [] then Some 0
      else if hd s = CHR ''E'' \<or> hd s = CHR ''e'' then
        (let (neg, ds) = split_sign (tl s) in
         if ds \<noteq> [] \<and> list_all is_digit ds
         then Some (if neg then - int (digits_val ds) else int (digits_val ds)) else None)
      else None)"

definition split_fraction :: "string \<Rightarrow> string \<times> string" where
  "split_fraction s = (case s of [] \<Rightarrow> ([], [])
     | c # cs \<Rightarrow> if c = CHR ''.'' then (takeWhile is_digit cs, dropWhile is_digit cs) else ([], s))"

definition dec_parse :: "string \<Rightarrow> decimal option" where
  "dec_parse s =
     (let (neg, s1) = split_sign s;
          ip = takeWhile is_digit s1;
          (fp, s3) = split_fraction (dropWhile is_digit s1)
      in if ip @ fp = [] then None
         else case parse_exponent s3 of None \<Rightarrow> None
            | Some e \<Rightarrow> let n = int (digits_val (ip @ fp)) in
                Some (Dec (if neg then - n else n) (e - int (length fp))))"

lemma list_all_digits_append:
  "list_all is_digit ds \<Longrightarrow> \<not> is_digit c \<Longrightarrow>
   takeWhile is_digit (ds @ c # s) = ds \<and> dropWhile is_digit (ds @ c # s) = c # s"
  by (induction ds) auto

lemma list_all_digits_only:
  "list_all is_digit ds \<Longrightarrow> takeWhile is_digit ds = ds \<and> dropWhile is_digit ds = []"
  by (induction ds) auto

lemma not_digits [simp]:
  "\<not> is_digit (CHR ''.'')" "\<not> is_digit (CHR ''E'')" "\<not> is_digit (CHR ''-'')" "\<not> is_digit (CHR ''+'')"
  "is_digit (CHR ''0'')"
  by (simp_all add: is_digit_def)

lemma parse_exponent_str: "parse_exponent (CHR ''E'' # signed_str n) = Some n"
  by (simp add: parse_exponent_def signed_str_def split_sign_def nat_str_digits)

lemma parse_exponent_Nil [simp]: "parse_exponent [] = Some 0"
  by (simp add: parse_exponent_def)

text \<open>Reading an unsigned number: digits, or digits, a point and digits, then the exponent.\<close>

lemma split_sign_digits: "list_all is_digit ds \<Longrightarrow> ds \<noteq> [] \<Longrightarrow> split_sign (ds @ s) = (False, ds @ s)"
  by (cases ds) (auto simp: split_sign_def)

lemma dec_parse_body:
  assumes "list_all is_digit ip" "ip \<noteq> []" "list_all is_digit fp" "parse_exponent x = Some e"
    "x = [] \<or> hd x = CHR ''E''" "sg = [] \<or> sg = ''-''"
    "pt = (if fp = [] then [] else ''.'')"
  shows "dec_parse (sg @ ip @ pt @ fp @ x) =
     Some (Dec ((if sg = [] then 1 else - 1) * int (digits_val (ip @ fp))) (e - int (length fp)))"
proof -
  have sp: "split_sign (sg @ ip @ pt @ fp @ x) = (sg \<noteq> [], ip @ pt @ fp @ x)"
  proof (cases "sg = []")
    case True
    then show ?thesis by (simp add: split_sign_digits [OF assms(1,2)])
  next
    case False
    with assms(6) show ?thesis by (simp add: split_sign_def)
  qed
  have x: "takeWhile is_digit (ds @ x) = ds \<and> dropWhile is_digit (ds @ x) = x"
    if "list_all is_digit ds" for ds
    using assms(5) that list_all_digits_append [OF that, of "CHR ''E''" "tl x"] list_all_digits_only [OF that]
    by (cases x) auto
  show ?thesis
  proof (cases "fp = []")
    case True
    have "split_fraction x = ([], x)"
      using assms(5) by (cases x) (auto simp: split_fraction_def)
    with True sp x [OF assms(1)] assms(2,4,7) show ?thesis by (simp add: dec_parse_def Let_def)
  next
    case False
    with sp x [OF assms(3)] list_all_digits_append [OF assms(1), of "CHR ''.''" "fp @ x"] assms(2,4,7)
    show ?thesis by (simp add: dec_parse_def Let_def split_fraction_def)
  qed
qed

text \<open>What \<open>str\<close> writes \<open>Decimal\<close> reads back unchanged, coefficient and exponent, for every
  finite decimal: the percentage an administrator stores is the one the service uses.\<close>

lemma dec_parse_str: "dec_parse (dec_str d) = Some d"
proof -
  define n ds e where "n = nat \<bar>coef d\<bar>" and "ds = nat_str n" and "e = expo d"
  define sg where "sg = (if coef d < 0 then ''-'' else [])"
  define l where "l = int (length ds)"
  note defs = n_def [symmetric] ds_def [symmetric] e_def [symmetric] sg_def [symmetric] l_def [symmetric]
  have ds: "list_all is_digit ds" "ds \<noteq> []" "digits_val ds = n" and l: "1 \<le> l"
    using nat_str_nonempty [of n] by (simp_all add: ds_def l_def nat_str_digits Suc_le_eq)
  have tk: "list_all is_digit (take k ds)" "list_all is_digit (drop k ds)" for k
    using ds(1) by (metis append_take_drop_id list_all_append)+
  have sg: "sg = [] \<or> sg = ''-''" and c: "(if sg = [] then 1 else - 1) * int n = coef d"
    by (simp_all add: sg_def n_def)
  note body = dec_parse_body [where sg = sg, OF _ _ _ _ _ sg]
  show ?thesis
  proof (cases "e \<le> 0 \<and> e + l > -6")
    case True
    consider (small) "e + l \<le> 0" | (whole) "0 < e + l" "l \<le> e + l" | (mid) "0 < e + l" "e + l < l" by linarith
    then show ?thesis
    proof cases
      case small
      let ?fp = "replicate (nat (- (e + l))) (CHR ''0'') @ ds"
      have "dec_parse (sg @ ''0'' @ ''.'' @ ?fp @ []) = Some (Dec ((if sg = [] then 1 else - 1) *
          int (digits_val (''0'' @ ?fp))) (0 - int (length ?fp)))"
        by (rule body) (use ds in \<open>auto simp: list_all_iff\<close>)
      moreover have "digits_val (''0'' @ ?fp) = n"
        using digits_val_zeros [of "Suc (nat (- (e + l)))" ds] ds(3) by simp
      moreover have "int (length ?fp) = - e" using small by (simp add: l_def)
      moreover have "dec_str d = sg @ ''0'' @ ''.'' @ ?fp @ []"
        using True small by (simp add: dec_str_def Let_def defs)
      ultimately have "dec_parse (dec_str d) =
          Some (Dec ((if sg = [] then 1 else - 1) * int n) (0 - (- e)))" by (simp only:)
      then show ?thesis by (simp add: c e_def)
    next
      case whole
      with True have e0: "e = 0" by simp
      have "dec_parse (sg @ ds @ [] @ [] @ []) = Some (Dec ((if sg = [] then 1 else - 1) *
          int (digits_val (ds @ []))) (0 - int (length ([] :: string))))"
        by (rule body) (use ds in simp_all)
      moreover have "dec_str d = sg @ ds"
        using True whole e0 l ds(2) by (simp add: dec_str_def Let_def defs)
      ultimately show ?thesis using c ds e0 by (cases d) (simp add: e_def)
    next
      case mid
      let ?k = "nat (e + l)"
      have k: "?k < length ds" "0 < ?k" using mid by (simp_all add: l_def)
      have "dec_parse (sg @ take ?k ds @ ''.'' @ drop ?k ds @ []) = Some (Dec ((if sg = [] then 1 else - 1) *
          int (digits_val (take ?k ds @ drop ?k ds))) (0 - int (length (drop ?k ds))))"
        by (rule body) (use k tk ds in simp_all)
      moreover have "dec_str d = sg @ take ?k ds @ ''.'' @ drop ?k ds @ []"
        using True mid by (simp add: dec_str_def Let_def defs)
      moreover have "int (length (drop ?k ds)) = - e" using mid by (simp add: l_def)
      ultimately show ?thesis using c ds by (simp add: e_def)
    qed
  next
    case False
    have ne: "e + l \<noteq> 1" using False l by linarith
    have ex: "parse_exponent (CHR ''E'' # signed_str (e + l - 1)) = Some (e + l - 1)"
      by (rule parse_exponent_str)
    show ?thesis
    proof (cases "l \<le> 1")
      case True
      with l have l1: "l = 1" by simp
      have "dec_parse (sg @ ds @ [] @ [] @ CHR ''E'' # signed_str (e + l - 1)) =
          Some (Dec ((if sg = [] then 1 else - 1) * int (digits_val (ds @ []))) (e + l - 1 - int (length ([] :: string))))"
        by (rule body [OF _ _ _ ex]) (use ds in simp_all)
      moreover have "dec_str d = sg @ ds @ CHR ''E'' # signed_str (e + l - 1)"
        using False True ne l1 by (simp add: dec_str_def Let_def defs)
      ultimately show ?thesis using c ds l1 by (simp add: e_def)
    next
      case l2: False
      then have k: "Suc 0 < length ds" by (simp add: l_def)
      have "dec_parse (sg @ take 1 ds @ ''.'' @ drop 1 ds @ CHR ''E'' # signed_str (e + l - 1)) =
          Some (Dec ((if sg = [] then 1 else - 1) * int (digits_val (take 1 ds @ drop 1 ds)))
            (e + l - 1 - int (length (drop 1 ds))))"
        by (rule body [OF _ _ _ ex]) (use k ds tk in simp_all)
      moreover have "dec_str d = sg @ take 1 ds @ ''.'' @ drop 1 ds @ CHR ''E'' # signed_str (e + l - 1)"
      proof -
        have nf: "(e \<le> 0 \<and> -6 < e + l) = False" "(l \<le> 1) = False" "(e + l = 1) = False"
          using False l2 ne by simp_all
        show ?thesis by (simp only: dec_str_def Let_def defs nf if_False) simp
      qed
      moreover have "int (length (drop 1 ds)) = l - 1" using k by (simp add: l_def)
      moreover have "e + l - 1 - (l - 1) = e" by simp
      ultimately have "dec_parse (dec_str d) = Some (Dec ((if sg = [] then 1 else - 1) * int n) e)"
        by (simp only: append_take_drop_id ds(3))
      then show ?thesis by (simp add: c e_def)
    qed
  qed
qed

end
