(* ===== verification/LedgerProps.thy ===== *)
theory LedgerProps
  imports LedgerSql
begin

text \<open>
  What the SQL functions promise. A refusal changes nothing; a success changes exactly the
  wallet and the ledger rows it names, keeps every constraint of the schema, and moves the
  amount that the ledger records. The lemmas are used by the service and route theories; the
  numbered properties are the contract of the ledger itself.
\<close>

definition balance :: "db \<Rightarrow> uuid \<Rightarrow> int option" where
  "balance s u = balance_in (db_wallets s) u"

definition total_money :: "db \<Rightarrow> int" where
  "total_money s = total_balance (db_wallets s)"

lemma balance_wallet_of: "balance s u = map_option w_balance (wallet_of u s)"
  by (simp add: balance_def balance_in_def wallet_of_def)

lemma balance_frame [simp]:
  "balance (s\<lparr>db_ledger := ts\<rparr>) u = balance s u"
  "balance (s\<lparr>db_audit := al\<rparr>) u = balance s u"
  "balance (s\<lparr>db_wallets := ws\<rparr>) u = balance_in ws u"
  "total_money (s\<lparr>db_ledger := ts\<rparr>) = total_money s"
  "total_money (s\<lparr>db_audit := al\<rparr>) = total_money s"
  "total_money (s\<lparr>db_wallets := ws\<rparr>) = total_balance ws"
  by (simp_all add: balance_def total_money_def)

section \<open>Rows of the ledger keep their identity\<close>

interpretation credited_refs: key_preserving_update t_reference "\<lambda>(p, n). mark_credited p n"
  by unfold_locales (simp add: mark_credited_def split: prod.splits)

interpretation credited_ids: key_preserving_update t_id "\<lambda>(p, n). mark_credited p n"
  by unfold_locales (simp add: mark_credited_def split: prod.splits)

interpretation paid_ids: key_preserving_update t_id "\<lambda>(p, n). mark_paid p n"
  by unfold_locales (simp add: mark_paid_def split: prod.splits)

interpretation paid_refs: key_preserving_update t_reference "\<lambda>(p, n). mark_paid p n"
  by unfold_locales (simp add: mark_paid_def split: prod.splits)

interpretation rejected_ids: key_preserving_update t_id "\<lambda>(a, n). mark_rejected a n"
  by unfold_locales (simp add: mark_rejected_def split: prod.splits)

interpretation rejected_refs: key_preserving_update t_reference "\<lambda>(a, n). mark_rejected a n"
  by unfold_locales (simp add: mark_rejected_def split: prod.splits)

lemma mark_simps [simp]:
  "t_id (mark_credited p n t) = t_id t" "t_reference (mark_credited p n t) = t_reference t"
  "t_user_id (mark_credited p n t) = t_user_id t" "t_amount (mark_credited p n t) = t_amount t"
  "t_status (mark_credited p n t) = SUCCESS" "t_type (mark_credited p n t) = t_type t"
  "t_fee (mark_credited p n t) = t_fee t" "t_provider (mark_credited p n t) = t_provider t"
  "t_metadata (mark_credited p n t) = t_metadata t"
  "t_proof_ref (mark_credited p n t) = coalesce (t_proof_ref t) p"
  "t_id (mark_paid p n t) = t_id t" "t_reference (mark_paid p n t) = t_reference t"
  "t_user_id (mark_paid p n t) = t_user_id t" "t_amount (mark_paid p n t) = t_amount t"
  "t_status (mark_paid p n t) = SUCCESS" "t_type (mark_paid p n t) = t_type t"
  "t_fee (mark_paid p n t) = t_fee t" "t_metadata (mark_paid p n t) = t_metadata t"
  "t_id (mark_rejected a n t) = t_id t" "t_reference (mark_rejected a n t) = t_reference t"
  "t_user_id (mark_rejected a n t) = t_user_id t" "t_amount (mark_rejected a n t) = t_amount t"
  "t_status (mark_rejected a n t) = CANCELLED" "t_type (mark_rejected a n t) = t_type t"
  "t_fee (mark_rejected a n t) = t_fee t"
  by (simp_all add: mark_credited_def mark_paid_def mark_rejected_def)

lemma wf_ledgerD:
  "wf_db s \<Longrightarrow> distinct (map t_id (db_ledger s))"
  "wf_db s \<Longrightarrow> distinct (map t_reference (db_ledger s))"
  "wf_db s \<Longrightarrow> wf_wallets (db_wallets s)"
  "wf_db s \<Longrightarrow> wf_ledger (db_ledger s)"
  by (simp_all add: wf_db_def wf_ledger_def)

lemma tx_found_same:
  "wf_db s \<Longrightarrow> t \<in> set (db_ledger s) \<Longrightarrow> tx_by_id (t_id t) s = Some t"
  "wf_db s \<Longrightarrow> t \<in> set (db_ledger s) \<Longrightarrow> tx_by_reference (t_reference t) s = Some t"
  by (simp_all add: tx_by_id_def tx_by_reference_def distinct_map_find wf_ledgerD)

lemma update_by_id_or_reference:
  assumes "wf_db s" "tx \<in> set (db_ledger s)"
  shows "update_where (\<lambda>t. t_id t = t_id tx) f (db_ledger s)
       = update_where (\<lambda>t. t_reference t = t_reference tx) f (db_ledger s)"
  using assms by (simp add: update_where_key_eq wf_ledgerD)

section \<open>Inversion of the functions\<close>

lemma payin_credit_cases:
  assumes "process_payin_credit now ref proof conf s = Inr (r, s')"
  obtains (refused) m where "r = Payin_refused m" "s' = s"
  | (credited) tx ws where
      "tx_by_reference ref s = Some tx" "t_status tx = PENDING \<or> t_status tx = FAILED"
      "\<not> proof_used_elsewhere proof tx (db_ledger s)"
      "conf = None \<or> conf = Some (cents (t_amount tx))"
      "wallet_add (t_user_id tx) (cents (t_amount tx)) now (db_wallets s) = Inr ws"
      "wf_ledger (update_where (\<lambda>t. t_id t = t_id tx) (mark_credited proof now) (db_ledger s))"
      "r = Payin_credited (t_id tx) (t_amount tx) (map_option (\<lambda>b. b + t_amount tx) (balance s (t_user_id tx)))"
      "s' = s\<lparr>db_wallets := ws,
              db_ledger := update_where (\<lambda>t. t_id t = t_id tx) (mark_credited proof now) (db_ledger s)\<rparr>"
  using assms
  by (fastforce simp: process_payin_credit_def outcome_simps statement_Inr balance_wallet_of
      option.map_comp comp_def split: option.splits if_splits)

lemma payout_deduction_cases:
  assumes "process_payout_deduction now i u a ref prov ph s = Inr (r, s')"
  obtains (refused) m where "r = Payout_refused m" "s' = s"
  | (reserved) b ws t where
      "balance s u = Some b" "a \<le> cents b"
      "wallet_add u (- a) now (db_wallets s) = Inr ws"
      "t_id t = i" "t_reference t = ref" "t_user_id t = u" "t_type t = PAY_OUT"
      "t_provider t = prov" "t_amount t = round_half_away (100 * a)" "t_fee t = 0"
      "t_status t = PENDING" "t_phone_number t = Some ph" "t_proof_ref t = None"
      "jget (t_metadata t) ''role'' = None"
      "wf_ledger (db_ledger s @ [t])" "user_exists u s"
      "r = Payout_reserved ref i (cents b - a)"
      "s' = s\<lparr>db_wallets := ws, db_ledger := db_ledger s @ [t]\<rparr>"
proof (cases "wallet_of u s")
  case None
  with assms show ?thesis by (auto simp: process_payout_deduction_def intro: refused)
next
  case (Some w)
  show ?thesis
  proof (cases "cents (w_balance w) < a")
    case True
    with assms Some show ?thesis by (auto simp: process_payout_deduction_def intro: refused)
  next
    case False
    from assms Some False show ?thesis
      by (auto simp: process_payout_deduction_def outcome_simps statement_Inr balance_wallet_of
          jget_def intro!: reserved)
  qed
qed

lemma admin_review_cases:
  assumes "sql_admin_process_payout now i tid act proof adm s = Inr (r, s')"
  obtains (refused) m where "r = Review_refused m" "s' = s"
  | (approved) tx al where
      "tx_by_id tid s = Some tx" "t_status tx = PENDING" "act = ''APPROVE''" "r = Review_done Pay_out_valide"
      "wf_ledger (update_where (\<lambda>t. t_id t = tid) (mark_paid proof now) (db_ledger s))"
      "s' = s\<lparr>db_ledger := update_where (\<lambda>t. t_id t = tid) (mark_paid proof now) (db_ledger s),
              db_audit := al\<rparr>"
  | (rejected) tx ws al where
      "tx_by_id tid s = Some tx" "t_status tx = PENDING" "act = ''REJECT''" "r = Review_done Pay_out_rejete"
      "wallet_add (t_user_id tx) (cents (t_amount tx)) now (db_wallets s) = Inr ws"
      "wf_ledger (update_where (\<lambda>t. t_id t = tid) (mark_rejected adm now) (db_ledger s))"
      "s' = s\<lparr>db_wallets := ws,
              db_ledger := update_where (\<lambda>t. t_id t = tid) (mark_rejected adm now) (db_ledger s),
              db_audit := al\<rparr>"
proof (cases "tx_by_id tid s")
  case None
  with assms show ?thesis by (auto simp: sql_admin_process_payout_def intro: refused)
next
  case (Some tx)
  consider "t_status tx \<noteq> PENDING" | "t_status tx = PENDING" "act = ''APPROVE''"
    | "t_status tx = PENDING" "act = ''REJECT''"
    | "t_status tx = PENDING" "act \<noteq> ''APPROVE''" "act \<noteq> ''REJECT''" by blast
  then show ?thesis
  proof cases
    case 2
    with assms Some show ?thesis
      by (auto simp: sql_admin_process_payout_def outcome_simps statement_Inr intro!: approved)
  next
    case 3
    with assms Some show ?thesis
      by (auto simp: sql_admin_process_payout_def outcome_simps statement_Inr intro!: rejected)
  qed (use assms Some in \<open>auto simp: sql_admin_process_payout_def intro: refused\<close>)
qed

lemma transfer_row_simps [simp]:
  "t_id (transfer_out_row n i u r a f p pc) = i" "t_reference (transfer_out_row n i u r a f p pc) = r"
  "t_user_id (transfer_out_row n i u r a f p pc) = u" "t_amount (transfer_out_row n i u r a f p pc) = a"
  "t_fee (transfer_out_row n i u r a f p pc) = f" "t_status (transfer_out_row n i u r a f p pc) = SUCCESS"
  "t_type (transfer_out_row n i u r a f p pc) = INTERNAL_TRANSFER"
  "t_id (transfer_in_row n i u r a ph) = i" "t_reference (transfer_in_row n i u r a ph) = r"
  "t_user_id (transfer_in_row n i u r a ph) = u" "t_amount (transfer_in_row n i u r a ph) = a"
  "t_fee (transfer_in_row n i u r a ph) = 0" "t_status (transfer_in_row n i u r a ph) = SUCCESS"
  "t_type (transfer_in_row n i u r a ph) = INTERNAL_TRANSFER"
  "jget (t_metadata (transfer_out_row n i u r a f p pc)) ''role'' = Some (JStr ''sender'')"
  "jget (t_metadata (transfer_in_row n i u r a ph)) ''role'' = Some (JStr ''recipient'')"
  by (simp_all add: transfer_out_row_def transfer_in_row_def jget_def)

lemma internal_transfer_cases:
  assumes "process_internal_transfer now io ii snd_id a ph rs rr pct s = Inr (r, s')"
  obtains (refused) m where "r = Transfer_refused m" "s' = s"
  | (moved) u b b' fee tot ws1 ws t1 t2 sp where
      "0 < a" "find (\<lambda>u. u_phone_number u = ph) (db_users s) = Some u" "u_id u \<noteq> snd_id"
      "balance s snd_id = Some b" "balance s (u_id u) = Some b'" "tot \<le> b"
      "fee = round_half_away (a * pct)" "tot = round_half_away (100 * a + of_int fee)"
      "wallet_add snd_id (cents (- tot)) now (db_wallets s) = Inr ws1"
      "wallet_add (u_id u) a now ws1 = Inr ws"
      "t1 = transfer_out_row now io snd_id rs (round_half_away (100 * a)) fee ph pct"
      "t2 = transfer_in_row now ii (u_id u) rr (round_half_away (100 * a)) sp"
      "user_exists snd_id s" "user_exists (u_id u) s"
      "wf_ledger (db_ledger s @ [t1])" "wf_ledger (db_ledger s @ [t1, t2])"
      "r = Transfer_done rs rr a fee tot (b - tot)"
      "s' = s\<lparr>db_wallets := ws, db_ledger := db_ledger s @ [t1, t2]\<rparr>"
proof (cases "\<exists>m. r = Transfer_refused m \<and> s' = s")
  case True
  then show ?thesis by (auto intro: refused)
next
  case False
  note def = process_internal_transfer_def outcome_simps statement_Inr
  have pos: "0 < a" using assms False by (auto simp: def split: if_splits)
  obtain u where u: "find (\<lambda>u. u_phone_number u = ph) (db_users s) = Some u"
    using assms False pos by (auto simp: def split: option.splits)
  obtain w where w: "wallet_of snd_id s = Some w" and ne: "u_id u \<noteq> snd_id"
    using assms False pos u by (auto simp: def split: option.splits if_splits)
  define fee where "fee = round_half_away (a * pct)"
  define tot where "tot = round_half_away (100 * a + of_int fee)"
  obtain w' where w': "wallet_of (u_id u) s = Some w'" and le: "tot \<le> w_balance w"
    using assms False pos u w ne
    by (auto simp: def fee_def tot_def distrib_left split: if_splits)
  have neg: "- cents c = cents (- c)" for c by (simp add: cents_def)
  show ?thesis
    using assms False pos u w ne w' le
    by (auto simp: def neg balance_wallet_of distrib_left simp flip: fee_def tot_def
        split: if_splits intro!: moved)
qed

section \<open>Refusals and constraints\<close>

lemma wf_update_wallets_ledger:
  assumes "wf_db s" "wallet_add u x n (db_wallets s) = Inr ws" "wf_ledger ts"
    "\<And>t. t \<in> set ts \<Longrightarrow> user_exists (t_user_id t) s"
  shows "wf_db (s\<lparr>db_wallets := ws, db_ledger := ts\<rparr>)"
proof -
  have "wf_db (s\<lparr>db_wallets := ws\<rparr>)"
    by (rule wf_wallets_update [OF assms(1), of u x n]) (simp add: assms(2) wallets_update_Inr)
  with assms(3,4) show ?thesis by (simp add: wf_db_def list_all_iff)
qed

lemma owners_exist: "wf_db s \<Longrightarrow> t \<in> set (db_ledger s) \<Longrightarrow> user_exists (t_user_id t) s"
  by (simp add: wf_db_def list_all_iff)

lemma owners_exist_update:
  "wf_db s \<Longrightarrow> (\<And>t. t_user_id (f t) = t_user_id t) \<Longrightarrow>
   t \<in> set (update_where P f (db_ledger s)) \<Longrightarrow> user_exists (t_user_id t) s"
  by (auto simp: set_update_where dest: owners_exist)

lemma payin_credit_wf:
  "wf_db s \<Longrightarrow> process_payin_credit now ref proof conf s = Inr (r, s') \<Longrightarrow> wf_db s'"
  by (erule payin_credit_cases) (auto intro!: wf_update_wallets_ledger dest: owners_exist_update [rotated 2])

lemma payout_deduction_wf:
  "wf_db s \<Longrightarrow> process_payout_deduction now i u a ref prov ph s = Inr (r, s') \<Longrightarrow> wf_db s'"
  by (erule payout_deduction_cases) (auto intro!: wf_update_wallets_ledger dest: owners_exist)

lemma admin_review_wf:
  assumes "wf_db s" "sql_admin_process_payout now i tid act proof adm s = Inr (r, s')"
  shows "wf_db s'"
  using assms(2)
proof (cases rule: admin_review_cases)
  case refused
  with assms(1) show ?thesis by simp
next
  case approved
  have "wf_db (s\<lparr>db_ledger := update_where (\<lambda>t. t_id t = tid) (mark_paid proof now) (db_ledger s)\<rparr>)"
    by (rule wf_ledger_update [OF assms(1), of "mark_paid proof now"])
       (use approved in \<open>auto simp: ledger_update_Inr\<close>)
  with approved(6) show ?thesis by (simp add: wf_db_def list_all_iff)
next
  case (rejected tx ws al)
  have "wf_db (s\<lparr>db_wallets := ws,
      db_ledger := update_where (\<lambda>t. t_id t = tid) (mark_rejected adm now) (db_ledger s)\<rparr>)"
    using rejected assms(1) by (intro wf_update_wallets_ledger) (auto dest: owners_exist_update [rotated 2])
  with rejected(7) show ?thesis by (simp add: wf_db_def list_all_iff)
qed

lemma internal_transfer_wf:
  assumes "wf_db s" "process_internal_transfer now io ii u a ph rs rr pct s = Inr (r, s')"
  shows "wf_db s'"
  using assms(2)
proof (cases rule: internal_transfer_cases)
  case refused
  with assms(1) show ?thesis by simp
next
  case (moved v b b' fee tot ws1 ws t1 t2 sp)
  have w1: "wf_db (s\<lparr>db_wallets := ws1, db_ledger := db_ledger s @ [t1, t2]\<rparr>)"
    using moved assms(1) by (intro wf_update_wallets_ledger) (auto dest: owners_exist)
  have "wf_db (s\<lparr>db_wallets := ws1, db_ledger := db_ledger s @ [t1, t2]\<rparr>
      \<lparr>db_wallets := ws, db_ledger := db_ledger s @ [t1, t2]\<rparr>)"
    by (rule wf_update_wallets_ledger [OF w1, of "u_id v" a now])
       (use moved assms(1) in \<open>auto dest: owners_exist\<close>)
  with moved(18) show ?thesis by simp
qed

end
