(* ===== verification/WalletService.thy ===== *)
theory WalletService
  imports Session DecimalText LedgerProps "HOL-Library.Word"
begin

text \<open>
  \<open>app/wallet_service.py\<close>: the functions between the routes and the SQL functions, each a
  program on the request's session with its statements and commits in the order of the code.
  A random UUID is a 128-bit word given as an argument (\<open>uuid.uuid4()\<close>), \<open>now\<close> is
  CURRENT_TIMESTAMP, \<open>i\<close> an id the database draws. The dict a function returns is a record or a
  datatype; \<open>success\<close> is the field of that name.
\<close>

unbundle bit_operations_syntax

section \<open>References\<close>

definition hex_digit :: "nat \<Rightarrow> char" where
  "hex_digit n = (if n < 10 then char_of (48 + n) else char_of (87 + n))"

definition uuid_hex :: "128 word \<Rightarrow> string" where
  \<comment> \<open>\<open>u.hex\<close>, the most significant digit first\<close>
  "uuid_hex u = map (\<lambda>k. hex_digit (unat (drop_bit (4 * k) u AND 15))) (rev [0..<32])"

definition generate_reference :: "string \<Rightarrow> 128 word \<Rightarrow> string" where
  "generate_reference prefix u = prefix @ ''-'' @ upper (take 8 (uuid_hex u))"

section \<open>Deposits\<close>

record declared =
  dp_success :: bool
  dp_message :: message
  dp_reference :: "string option"
  dp_transaction_id :: "uuid option"

definition same_proof :: "payment_provider \<Rightarrow> string option \<Rightarrow> ledger_row \<Rightarrow> bool" where
  "same_proof prov proof t \<longleftrightarrow> proof \<noteq> None \<and> t_proof_ref t = proof \<and> t_provider t = prov"

text \<open>
  \<open>INSERT ... ON CONFLICT (provider, proof_ref) WHERE proof_ref IS NOT NULL DO NOTHING\<close>: the
  checks of the row come first, then the arbiter index decides whether anything is inserted.
\<close>

definition ledger_insert_unless_proof :: "ledger_row \<Rightarrow> db \<Rightarrow> sql_error + db" where
  "ledger_insert_unless_proof t s =
     bindE (ledger_check [t]) (\<lambda>_.
     if list_ex (same_proof (t_provider t) (t_proof_ref t)) (db_ledger s) then Inr s
     else ledger_insert t s)"

definition cast_provider :: "string \<Rightarrow> sql_error + payment_provider" where
  "cast_provider s = (case provider_of s of None \<Rightarrow> Inl InvalidEnumLabel | Some p \<Rightarrow> Inr p)"

definition pending_payin_row ::
  "timestamp \<Rightarrow> uuid \<Rightarrow> string \<Rightarrow> uuid \<Rightarrow> payment_provider \<Rightarrow> int \<Rightarrow> string \<Rightarrow> string option
   \<Rightarrow> (string \<times> json) list \<Rightarrow> ledger_row" where
  "pending_payin_row now i ref uid prov a phone proof meta =
     \<lparr>t_id = i, t_reference = ref, t_user_id = uid, t_type = PAY_IN, t_provider = prov,
      t_amount = a, t_fee = 0, t_status = PENDING, t_phone_number = Some phone,
      t_proof_ref = proof, t_metadata = meta, t_created_at = now, t_updated_at = now\<rparr>"

definition declare_payin_pending ::
  "timestamp \<Rightarrow> uuid \<Rightarrow> 128 word \<Rightarrow> uuid \<Rightarrow> rat \<Rightarrow> string \<Rightarrow> string \<Rightarrow> string option \<Rightarrow> string
   \<Rightarrow> declared prog" where
  "declare_payin_pending now i u uid amount provider phone proof via =
     (let reference = generate_reference ''PI'' u; provider_enum = upper provider in
      bindP (exec (\<lambda>s.
        bindE (cast_provider provider_enum) (\<lambda>prov.
        bindE (to_numeric amount) (\<lambda>a.
        ledger_insert_unless_proof
          (pending_payin_row now i reference uid prov a phone proof [(''declared_via'', JStr via)]) s)))) (\<lambda>_.
      bindP (query (tx_by_reference reference)) (\<lambda>row.
      bindP commit (\<lambda>_.
      case row of
        None \<Rightarrow>
          bindP (statement (\<lambda>s. bindE (cast_provider provider_enum) (\<lambda>prov.
            Inr (find (same_proof prov proof) (db_ledger s), s)))) (\<lambda>existing.
          ret \<lparr>dp_success = False, dp_message = Doublon_detecte,
               dp_reference = map_option t_reference existing,
               dp_transaction_id = map_option t_id existing\<rparr>)
      | Some r \<Rightarrow>
          ret \<lparr>dp_success = True, dp_message = Declaration_enregistree,
               dp_reference = Some (t_reference r), dp_transaction_id = Some (t_id r)\<rparr>))))"

definition finalize_payin :: "timestamp \<Rightarrow> string \<Rightarrow> string option \<Rightarrow> rat option \<Rightarrow> payin_reply prog" where
  "finalize_payin now ref proof confirmed =
     bindP (statement (process_payin_credit now ref proof confirmed)) (\<lambda>r.
     bindP commit (\<lambda>_. ret r))"

section \<open>Withdrawals\<close>

definition request_payout ::
  "timestamp \<Rightarrow> uuid \<Rightarrow> 128 word \<Rightarrow> uuid \<Rightarrow> rat \<Rightarrow> string \<Rightarrow> string \<Rightarrow> payout_reply prog" where
  "request_payout now i u uid amount provider phone =
     (let reference = generate_reference ''PO'' u in
      bindP (statement (\<lambda>s. bindE (cast_provider (upper provider)) (\<lambda>prov.
        process_payout_deduction now i uid amount reference prov phone s))) (\<lambda>r.
      bindP commit (\<lambda>_. ret r)))"

definition audit_matches :: "uuid \<Rightarrow> uuid \<Rightarrow> audit_row \<Rightarrow> bool" where
  "audit_matches admin tid a \<longleftrightarrow> a_admin_id a = admin \<and> a_target_id a = Some tid"

definition audit_latest :: "uuid \<Rightarrow> uuid \<Rightarrow> audit_row list \<Rightarrow> timestamp" where
  "audit_latest admin tid al = foldr max (map a_created_at (filter (audit_matches admin tid) al)) 0"

definition audit_set_ip :: "uuid \<Rightarrow> uuid \<Rightarrow> string \<Rightarrow> db \<Rightarrow> sql_error + db" where
  "audit_set_ip admin tid ip s =
     (let m = audit_latest admin tid (db_audit s);
          hit = (\<lambda>a. audit_matches admin tid a \<and> a_created_at a = m)
      in if 64 < length ip \<and> list_ex hit (db_audit s) then Inl (StringDataRightTruncation ''ip_address'')
         else Inr (s\<lparr>db_audit := update_where hit (\<lambda>a. a\<lparr>a_ip_address := Some ip\<rparr>) (db_audit s)\<rparr>))"

definition admin_process_payout ::
  "timestamp \<Rightarrow> uuid \<Rightarrow> uuid \<Rightarrow> string \<Rightarrow> string option \<Rightarrow> uuid \<Rightarrow> string option \<Rightarrow> review_reply prog" where
  "admin_process_payout now i tid action proof admin ip =
     bindP (statement (sql_admin_process_payout now i tid action proof admin)) (\<lambda>payload.
     bindP commit (\<lambda>_.
     if ip \<noteq> None \<and> ip \<noteq> Some []
     then bindP (exec (audit_set_ip admin tid (the ip))) (\<lambda>_. bindP commit (\<lambda>_. ret payload))
     else ret payload))"

section \<open>Settings\<close>

definition setting :: "string \<Rightarrow> db \<Rightarrow> string option" where
  "setting k s = map_option s_value (find (\<lambda>r. s_key r = k) (db_settings s))"

definition settings_upsert :: "timestamp \<Rightarrow> string \<Rightarrow> string \<Rightarrow> db \<Rightarrow> sql_error + db" where
  "settings_upsert now k v s =
     (if list_ex (\<lambda>r. s_key r = k) (db_settings s)
      then Inr (s\<lparr>db_settings := update_where (\<lambda>r. s_key r = k)
             (\<lambda>r. r\<lparr>s_value := v, s_updated_at := now\<rparr>) (db_settings s)\<rparr>)
      else Inr (s\<lparr>db_settings := db_settings s @ [\<lparr>s_key = k, s_value = v, s_updated_at = now\<rparr>]\<rparr>))"

definition get_fee_percent :: "decimal prog" where
  "get_fee_percent =
     bindP (query (setting ''fee_percent'')) (\<lambda>row.
     case row of
       None \<Rightarrow> ret (Dec 8 0)
     | Some v \<Rightarrow> (case dec_parse v of None \<Rightarrow> throw Invalid_operation | Some d \<Rightarrow> ret d))"

definition set_fee_percent :: "timestamp \<Rightarrow> decimal \<Rightarrow> unit prog" where
  "set_fee_percent now percent =
     bindP (exec (settings_upsert now ''fee_percent'' (dec_str percent))) (\<lambda>_. commit)"

definition PAYMENT_LINK_KEYS :: "(string \<times> string) list" where
  "PAYMENT_LINK_KEYS =
     [(''wave'', ''payment_link_wave''), (''orange'', ''payment_link_orange''),
      (''mtn'', ''payment_link_mtn''), (''moov'', ''payment_link_moov'')]"

definition get_payment_links :: "(string \<times> string option) list prog" where
  "get_payment_links =
     query (\<lambda>s. map (\<lambda>(name, k). (name, case setting k s of
       None \<Rightarrow> None | Some v \<Rightarrow> if v = [] then None else Some v)) PAYMENT_LINK_KEYS)"

fun set_payment_links_loop :: "timestamp \<Rightarrow> (string \<times> string option) list \<Rightarrow> unit prog" where
  "set_payment_links_loop now [] = ret ()"
| "set_payment_links_loop now ((name, value) # links) =
     (case (map_of PAYMENT_LINK_KEYS name, value) of
        (Some k, Some v) \<Rightarrow> bindP (exec (settings_upsert now k v)) (\<lambda>_. set_payment_links_loop now links)
      | _ \<Rightarrow> set_payment_links_loop now links)"

definition set_payment_links :: "timestamp \<Rightarrow> (string \<times> string option) list \<Rightarrow> unit prog" where
  "set_payment_links now links = bindP (set_payment_links_loop now links) (\<lambda>_. commit)"

section \<open>Transfers and manual credits\<close>

definition transfer_internal ::
  "timestamp \<Rightarrow> uuid \<Rightarrow> uuid \<Rightarrow> 128 word \<Rightarrow> 128 word \<Rightarrow> uuid \<Rightarrow> rat \<Rightarrow> string \<Rightarrow> transfer_reply prog" where
  "transfer_internal now i1 i2 u1 u2 sender amount phone =
     (let sender_reference = generate_reference ''IT'' u1;
          recipient_reference = generate_reference ''IT'' u2 in
      bindP get_fee_percent (\<lambda>fee_percent.
      bindP (statement (process_internal_transfer now i1 i2 sender amount phone
               sender_reference recipient_reference (dec_val fee_percent))) (\<lambda>r.
      bindP commit (\<lambda>_. ret r))))"

datatype credit_reply =
    Credit_refused message
  | Credit_done message string int

definition manual_credit_row ::
  "timestamp \<Rightarrow> uuid \<Rightarrow> string \<Rightarrow> uuid \<Rightarrow> int \<Rightarrow> string \<Rightarrow> uuid \<Rightarrow> ledger_row" where
  "manual_credit_row now i ref uid a reason admin =
     \<lparr>t_id = i, t_reference = ref, t_user_id = uid, t_type = PAY_IN, t_provider = ADMIN_MANUAL,
      t_amount = a, t_fee = 0, t_status = SUCCESS, t_phone_number = None, t_proof_ref = None,
      t_metadata = [(''reason'', JStr reason), (''credited_by_admin'', JNum (of_nat admin))],
      t_created_at = now, t_updated_at = now\<rparr>"

definition admin_manual_credit ::
  "timestamp \<Rightarrow> uuid \<Rightarrow> 128 word \<Rightarrow> uuid \<Rightarrow> rat \<Rightarrow> string \<Rightarrow> uuid \<Rightarrow> credit_reply prog" where
  "admin_manual_credit now i u uid amount reason admin =
     (if amount \<le> 0 then ret (Credit_refused Montant_non_positif)
      else
        let reference = generate_reference ''MC'' u in
        bindP (statement (\<lambda>s. bindE (wallets_update uid amount now s) (\<lambda>s'. Inr (wallet_of uid s', s')))) (\<lambda>row.
        case row of
          None \<Rightarrow> ret (Credit_refused Portefeuille_introuvable)
        | Some w \<Rightarrow>
            bindP (exec (\<lambda>s. bindE (to_numeric amount) (\<lambda>a.
              ledger_insert (manual_credit_row now i reference uid a reason admin) s))) (\<lambda>_.
            bindP commit (\<lambda>_.
            ret (Credit_done Compte_recharge reference (w_balance w))))))"

end
