(* ===== verification/Push.thy ===== *)
theory Push
  imports Session
begin

text \<open>
  \<open>app/push_service.py\<close>: FCM notifications to every device of a user. Google's credentials
  library and the FCM server are the record \<open>fcm\<close> of functions the operations take: parsing the
  service account, refreshing the OAuth token, and what a POST answers. A notification is
  best-effort: it ends without an exception whatever they do, never touches money, and removes
  exactly the tokens FCM declares dead.
\<close>

section \<open>Messages and the outside world\<close>

datatype push_text =
    Transfert_recu
  | Credite_par rat string
  | Retrait_envoye
  | Envoye_vers int payment_provider
  | Retrait_annule
  | Rembourse int
  | Solde_recharge
  | Ajoute rat
  | Wallet_recharge

datatype data_value = DStr string | DId uuid

record notice =
  n_title :: push_text
  n_body :: push_text
  n_data :: "(string \<times> data_value) list"

record fcm_message =
  m_url :: string
  m_bearer :: string
  m_token :: string
  m_notice :: notice

datatype post_result =
    Network_error
  | Unexpected_error
  | Response nat string "json option"

record 'c fcm =
  project_id :: string
  service_account_json :: string
  parse_credentials :: "string \<Rightarrow> 'c option"
  access_token :: "'c \<Rightarrow> string option"
  post :: "fcm_message \<Rightarrow> post_result"

definition FCM_ENDPOINT :: "string \<Rightarrow> string" where
  "FCM_ENDPOINT p = ''https://fcm.googleapis.com/v1/projects/'' @ p @ ''/messages:send''"

definition INVALID_TOKEN_FCM_CODES :: "string list" where
  "INVALID_TOKEN_FCM_CODES = [''UNREGISTERED'', ''INVALID_ARGUMENT'']"

definition get_credentials :: "'c fcm \<Rightarrow> 'c option" where
  "get_credentials f =
     (if project_id f = [] \<or> service_account_json f = [] then None
      else parse_credentials f (service_account_json f))"

section \<open>One device\<close>

text \<open>\<open>error_body.get("error", {}).get("status", "")\<close>: \<open>None\<close> when a value on the way is not a dict.\<close>

fun json_get :: "json \<Rightarrow> string \<Rightarrow> json \<Rightarrow> json option" where
  "json_get (JObj kvs) k d = Some (case jget kvs k of None \<Rightarrow> d | Some v \<Rightarrow> v)"
| "json_get _ k d = None"

definition fcm_error_code :: "json \<Rightarrow> json option" where
  "fcm_error_code e =
     (case json_get e ''error'' (JObj []) of None \<Rightarrow> None | Some x \<Rightarrow> json_get x ''status'' (JStr []))"

text \<open>\<open>Inl\<close> is an exception of the call; \<open>False\<close> means that the token is to be deleted.\<close>

definition send_to_token :: "'c fcm \<Rightarrow> string \<Rightarrow> string \<Rightarrow> notice \<Rightarrow> exn + bool" where
  "send_to_token f bearer token n =
     (case post f \<lparr>m_url = FCM_ENDPOINT (project_id f), m_bearer = bearer, m_token = token, m_notice = n\<rparr> of
        Network_error \<Rightarrow> Inr True
      | Unexpected_error \<Rightarrow> Inl Other_exception
      | Response code content_type answer \<Rightarrow>
          if code < 400 then Inr True
          else
            case (if starts_with ''application/json'' content_type then answer else Some (JObj [])) of
              None \<Rightarrow> Inl Other_exception
            | Some error_body \<Rightarrow>
                (case fcm_error_code error_body of
                   None \<Rightarrow> Inl Other_exception
                 | Some (JStr c) \<Rightarrow> Inr (c \<notin> set INVALID_TOKEN_FCM_CODES)
                 | Some (JArr xs) \<Rightarrow> Inl Other_exception
                 | Some (JObj kvs) \<Rightarrow> Inl Other_exception
                 | Some _ \<Rightarrow> Inr True))"

section \<open>All devices of a user\<close>

definition device_delete :: "uuid \<Rightarrow> db \<Rightarrow> sql_error + db" where
  "device_delete i s = Inr (s\<lparr>db_devices := filter (\<lambda>d. d_id d \<noteq> i) (db_devices s)\<rparr>)"

text \<open>The loop over the tokens; the result is \<open>any_change\<close>.\<close>

fun notify_devices :: "'c fcm \<Rightarrow> string \<Rightarrow> notice \<Rightarrow> device_row list \<Rightarrow> bool \<Rightarrow> bool prog" where
  "notify_devices f bearer n [] any_change = ret any_change"
| "notify_devices f bearer n (d # ds) any_change =
     (case send_to_token f bearer (d_token d) n of
        Inr False \<Rightarrow> bindP (exec (device_delete (d_id d))) (\<lambda>_. notify_devices f bearer n ds True)
      | _ \<Rightarrow> notify_devices f bearer n ds any_change)"

definition notify_user :: "'c fcm \<Rightarrow> uuid \<Rightarrow> notice \<Rightarrow> unit prog" where
  "notify_user f uid n =
     attempt
       (case get_credentials f of
          None \<Rightarrow> ret ()
        | Some creds \<Rightarrow>
            (case access_token f creds of
               None \<Rightarrow> ret ()
             | Some bearer \<Rightarrow>
                 bindP (query (\<lambda>s. filter (\<lambda>d. d_user_id d = uid) (db_devices s))) (\<lambda>tokens.
                 if tokens = [] then ret ()
                 else bindP (notify_devices f bearer n tokens False) (\<lambda>any_change.
                   if any_change then commit else ret ()))))
       (\<lambda>e. ret ())"

definition notify_user_background :: "'c fcm \<Rightarrow> uuid \<Rightarrow> notice \<Rightarrow> db \<Rightarrow> db" where
  \<comment> \<open>a session of its own, after the response\<close>
  "notify_user_background f uid n s = snd (request (notify_user f uid n) s)"

section \<open>Best effort\<close>

definition dead_token :: "'c fcm \<Rightarrow> string \<Rightarrow> notice \<Rightarrow> device_row \<Rightarrow> bool" where
  "dead_token f bearer n d \<longleftrightarrow> send_to_token f bearer (d_token d) n = Inr False"

lemma notify_devices_run:
  "\<not> aborted \<sigma> \<Longrightarrow>
   notify_devices f bearer n ds ch \<sigma> =
   (Inr (ch \<or> list_ex (dead_token f bearer n) ds),
    \<sigma>\<lparr>current := (current \<sigma>)\<lparr>db_devices :=
        filter (\<lambda>d. d_id d \<notin> d_id ` {x \<in> set ds. dead_token f bearer n x}) (db_devices (current \<sigma>))\<rparr>\<rparr>)"
proof (induction ds arbitrary: \<sigma> ch)
  case Nil
  show ?case by (simp add: ret_def)
next
  case (Cons d ds)
  show ?case
  proof (cases "dead_token f bearer n d")
    case True
    let ?\<sigma> = "\<sigma>\<lparr>current := (current \<sigma>)\<lparr>db_devices := filter (\<lambda>x. d_id x \<noteq> d_id d) (db_devices (current \<sigma>))\<rparr>\<rparr>"
    have "exec (device_delete (d_id d)) \<sigma> = (Inr (), ?\<sigma>)"
      using Cons.prems by (simp add: exec_def statement_def device_delete_def)
    with True Cons.IH [of ?\<sigma> True] Cons.prems show ?thesis
      by (auto simp: dead_token_def bindP_def intro!: arg_cong [of _ _ "\<lambda>t. \<sigma>\<lparr>current := (current \<sigma>)\<lparr>db_devices := t\<rparr>\<rparr>"] filter_cong)
  next
    case False
    then have "notify_devices f bearer n (d # ds) ch = notify_devices f bearer n ds ch"
      by (auto simp: dead_token_def split: sum.splits bool.splits)
    with False Cons.IH [OF Cons.prems, of ch] show ?thesis
      by (auto intro!: arg_cong [of _ _ "\<lambda>t. \<sigma>\<lparr>current := (current \<sigma>)\<lparr>db_devices := t\<rparr>\<rparr>"] filter_cong)
  qed
qed

definition dead_devices :: "'c fcm \<Rightarrow> uuid \<Rightarrow> notice \<Rightarrow> db \<Rightarrow> device_row set" where
  "dead_devices f uid n s = {d \<in> set (db_devices s). d_user_id d = uid \<and>
     (\<exists>creds bearer. get_credentials f = Some creds \<and> access_token f creds = Some bearer \<and>
        dead_token f bearer n d)}"

definition without_devices :: "device_row set \<Rightarrow> db \<Rightarrow> db" where
  "without_devices gone s = s\<lparr>db_devices := filter (\<lambda>d. d_id d \<notin> d_id ` gone) (db_devices s)\<rparr>"

lemma without_no_devices [simp]: "without_devices {} s = s"
  by (simp add: without_devices_def)

lemma without_devices_frame [simp]:
  "db_users (without_devices g s) = db_users s" "db_wallets (without_devices g s) = db_wallets s"
  "db_ledger (without_devices g s) = db_ledger s" "db_kyc (without_devices g s) = db_kyc s"
  "db_audit (without_devices g s) = db_audit s" "db_settings (without_devices g s) = db_settings s"
  by (simp_all add: without_devices_def)

lemma notify_user_opened:
  "notify_user f uid n (opened s) = (Inr (), opened (without_devices (dead_devices f uid n s) s))"
proof (cases "\<exists>creds bearer. get_credentials f = Some creds \<and> access_token f creds = Some bearer")
  case False
  then have "get_credentials f = None \<or> (\<exists>c. get_credentials f = Some c \<and> access_token f c = None)"
    by (metis not_Some_eq)
  moreover have "dead_devices f uid n s = {}" using False by (auto simp: dead_devices_def)
  ultimately show ?thesis by (auto simp: notify_user_def attempt_def ret_def)
next
  case True
  then obtain creds bearer where cb: "get_credentials f = Some creds" "access_token f creds = Some bearer" by blast
  let ?ds = "filter (\<lambda>d. d_user_id d = uid) (db_devices s)"
  have q: "query (\<lambda>s. filter (\<lambda>d. d_user_id d = uid) (db_devices s)) (opened s) = (Inr ?ds, opened s)"
    by (simp add: query_def statement_def opened_def)
  have dead: "dead_devices f uid n s = {x \<in> set ?ds. dead_token f bearer n x}"
    using cb by (auto simp: dead_devices_def)
  note run = q notify_devices_run [of "opened s" f bearer n ?ds False]
  show ?thesis
  proof (cases "list_ex (dead_token f bearer n) ?ds")
    case True
    then have "?ds \<noteq> []" by auto
    with True run show ?thesis
      unfolding dead
      by (simp add: notify_user_def attempt_def cb bindP_def commit_def without_devices_def)
  next
    case False
    then have none: "{x \<in> set ?ds. dead_token f bearer n x} = {}" by (auto simp: list_ex_iff)
    with False run show ?thesis
      unfolding dead none by (simp add: notify_user_def attempt_def cb bindP_def ret_def opened_def)
  qed
qed


lemma keeps_notify_devices:
  "(\<And>s P. I s \<Longrightarrow> I (s\<lparr>db_devices := filter P (db_devices s)\<rparr>)) \<Longrightarrow>
   keeps I (notify_devices f bearer n ds ch)"
  by (induction ds arbitrary: ch)
     (auto simp: device_delete_def split: sum.splits bool.splits intro!: keeps_intros)

lemma keeps_notify_user:
  "(\<And>s P. I s \<Longrightarrow> I (s\<lparr>db_devices := filter P (db_devices s)\<rparr>)) \<Longrightarrow> keeps I (notify_user f uid n)"
  unfolding notify_user_def by (intro keeps_intros keeps_notify_devices) (auto split: option.splits intro!: keeps_intros keeps_notify_devices)

end
