(* ===== verification/WalletApi.thy ===== *)
theory WalletApi
  imports WalletService Push
begin

text \<open>
  \<open>app/api_wallet.py\<close>: the routes of the client's application, each a program on the session of
  its request. \<open>user\<close> is the row \<open>get_current_user\<close> returned; the fields of the request body are
  arguments, already accepted by the schema (\<open>valid_amount\<close>, \<open>valid_phone\<close>).
\<close>

definition MOBILE_PROVIDERS :: "string list" where
  "MOBILE_PROVIDERS = [''WAVE'', ''ORANGE'', ''MTN'', ''MOOV'']"

section \<open>Request bodies\<close>

definition valid_amount :: "rat \<Rightarrow> bool" where
  \<comment> \<open>\<open>Field(..., gt=0)\<close>\<close>
  "valid_amount x \<longleftrightarrow> 0 < x"

definition valid_recipient :: "string \<Rightarrow> bool" where
  "valid_recipient p \<longleftrightarrow> 6 \<le> length p"

record payin_body =
  pb_amount :: rat
  pb_provider :: string
  pb_phone_number :: string
  pb_proof_ref :: "string option"
  pb_declared_via :: string

record payout_body =
  ob_amount :: rat
  ob_provider :: string
  ob_phone_number :: string

section \<open>Deposits\<close>

record payin_result =
  pr_message :: message
  pr_reference :: "string option"
  pr_transaction_id :: "uuid option"

definition declare_payin ::
  "timestamp \<Rightarrow> uuid \<Rightarrow> 128 word \<Rightarrow> user_row \<Rightarrow> payin_body \<Rightarrow> payin_result prog" where
  "declare_payin now i u user payload =
     (if upper (pb_provider payload) \<notin> set MOBILE_PROVIDERS
      then http 400 Fournisseur_de_paiement_invalide
      else
        bindP (declare_payin_pending now i u (u_id user) (pb_amount payload) (upper (pb_provider payload))
                 (pb_phone_number payload) (pb_proof_ref payload) (pb_declared_via payload)) (\<lambda>result.
        if \<not> dp_success result then http 409 (Of_service (dp_message result))
        else ret \<lparr>pr_message = dp_message result, pr_reference = dp_reference result,
                  pr_transaction_id = dp_transaction_id result\<rparr>))"

definition declare_payin_async ::
  "timestamp \<Rightarrow> uuid \<Rightarrow> 128 word \<Rightarrow> user_row \<Rightarrow> payin_body \<Rightarrow> (string \<times> uuid) prog" where
  "declare_payin_async now i u user payload =
     (if upper (pb_provider payload) \<notin> set MOBILE_PROVIDERS
      then http 400 Fournisseur_de_paiement_invalide
      else
        let reference = generate_reference ''PI'' u in
        case provider_of (upper (pb_provider payload)) of
          None \<Rightarrow> throw Other_exception
        | Some prov \<Rightarrow>
            bindP (attempt
              (bindP (exec (\<lambda>s. bindE (to_numeric (pb_amount payload)) (\<lambda>a.
                 ledger_insert (pending_payin_row now i reference (u_id user) prov a
                   (pb_phone_number payload) (pb_proof_ref payload)
                   [(''declared_via'', JStr (pb_declared_via payload)), (''declared_at'', JNum (of_nat now))]) s)))
               (\<lambda>_. commit))
              (\<lambda>e. bindP rollback (\<lambda>_. http 409 Conflit_enregistrement)))
            (\<lambda>_. ret (reference, i)))"

section \<open>Withdrawals and transfers\<close>

definition payout_request ::
  "timestamp \<Rightarrow> uuid \<Rightarrow> 128 word \<Rightarrow> user_row \<Rightarrow> payout_body \<Rightarrow> payout_reply prog" where
  "payout_request now i u user payload =
     (if upper (ob_provider payload) \<notin> set MOBILE_PROVIDERS
      then http 400 Fournisseur_de_paiement_invalide
      else
        bindP (request_payout now i u (u_id user) (ob_amount payload) (upper (ob_provider payload))
                 (ob_phone_number payload)) (\<lambda>result.
        case result of
          Payout_refused m \<Rightarrow> http 400 (Of_service m)
        | Payout_reserved r t b \<Rightarrow> ret result))"

definition transfer_internal_endpoint ::
  "timestamp \<Rightarrow> uuid \<Rightarrow> uuid \<Rightarrow> 128 word \<Rightarrow> 128 word \<Rightarrow> 'c fcm \<Rightarrow> user_row \<Rightarrow> rat \<Rightarrow> string
   \<Rightarrow> transfer_reply prog" where
  "transfer_internal_endpoint now i1 i2 u1 u2 f user amount recipient_phone =
     bindP (transfer_internal now i1 i2 u1 u2 (u_id user) amount recipient_phone) (\<lambda>result.
     case result of
       Transfer_refused m \<Rightarrow> http 400 (Of_service m)
     | Transfer_done sref rref net fee tot new_balance \<Rightarrow>
         bindP (query (\<lambda>s. find (\<lambda>u. u_phone_number u = recipient_phone) (db_users s))) (\<lambda>recipient.
         bindP (case recipient of
             None \<Rightarrow> ret ()
           | Some r \<Rightarrow> notify_user f (u_id r)
               \<lparr>n_title = Transfert_recu, n_body = Credite_par net (u_phone_number user),
                n_data = [(''type'', DStr ''wallet_credited''), (''reference'', DStr rref)]\<rparr>) (\<lambda>_.
         ret result)))"

section \<open>Reading\<close>

record wallet_out =
  wo_user_phone :: string
  wo_balance :: int
  wo_currency :: string
  wo_updated_at :: timestamp

definition get_my_wallet :: "user_row \<Rightarrow> wallet_out prog" where
  "get_my_wallet user =
     bindP (query (\<lambda>s. filter (\<lambda>w. w_user_id w = u_id user) (db_wallets s))) (\<lambda>ws.
     bindP (one_or_none ws) (\<lambda>wallet.
     case wallet of
       None \<Rightarrow> http 404 Wallet_introuvable
     | Some w \<Rightarrow> ret \<lparr>wo_user_phone = u_phone_number user, wo_balance = w_balance w,
                      wo_currency = w_currency w, wo_updated_at = w_updated_at w\<rparr>))"

definition get_current_fee_percent :: "user_row \<Rightarrow> decimal prog" where
  "get_current_fee_percent user = get_fee_percent"

definition get_current_payment_links :: "user_row \<Rightarrow> (string \<times> string option) list prog" where
  "get_current_payment_links user = get_payment_links"

text \<open>A negative LIMIT is refused by the database.\<close>

record transaction_out =
  to_id :: uuid
  to_reference :: string
  to_type :: string
  to_provider :: payment_provider
  to_amount :: int
  to_fee :: int
  to_status :: string
  to_phone_number :: "string option"
  to_proof_ref :: "string option"
  to_created_at :: timestamp
  to_updated_at :: timestamp

definition transaction_out_of :: "ledger_row \<Rightarrow> transaction_out" where
  "transaction_out_of t =
     \<lparr>to_id = t_id t, to_reference = t_reference t, to_type = type_value (t_type t),
      to_provider = t_provider t, to_amount = t_amount t, to_fee = t_fee t,
      to_status = status_value (t_status t), to_phone_number = t_phone_number t,
      to_proof_ref = t_proof_ref t, to_created_at = t_created_at t, to_updated_at = t_updated_at t\<rparr>"

definition list_my_transactions :: "user_row \<Rightarrow> int \<Rightarrow> transaction_out list prog" where
  "list_my_transactions user limit =
     bindP (guard (0 \<le> limit) Other_exception) (\<lambda>_.
     query (\<lambda>s. map transaction_out_of (take (nat limit)
       (newest_first t_created_at (filter (\<lambda>t. t_user_id t = u_id user) (db_ledger s))))))"

end
