(* ===== verification/Auth.thy ===== *)
theory Auth
  imports Session
begin

text \<open>
  \<open>app/auth.py\<close> and \<open>app/api_auth.py\<close>: sessions by bearer token, registration, login, the profile
  route and the creation of the first administrator. bcrypt (passlib) and JWT (python-jose) are
  the functions of the record \<open>security\<close>; what the code relies on of them is \<open>pins_verify\<close>
  (a PIN verifies against its own hash and against no other PIN's) and \<open>tokens_decode\<close> (a token
  decodes to its claims until it expires). A hash is salted: \<open>salt\<close> is the randomness of a call.
\<close>

section \<open>The security libraries\<close>

record claims =
  c_sub :: "uuid option"
  c_role :: string
  c_exp :: timestamp

record security =
  pwd_hash :: "nat \<Rightarrow> string \<Rightarrow> string"
  pwd_verify :: "string \<Rightarrow> string \<Rightarrow> bool"
  jwt_encode :: "claims \<Rightarrow> string"
  jwt_decode :: "timestamp \<Rightarrow> string \<Rightarrow> claims option"
  expire_minutes :: nat
  bootstrap_secret :: string

definition pins_verify :: "security \<Rightarrow> bool" where
  "pins_verify e \<longleftrightarrow> (\<forall>n p q. pwd_verify e q (pwd_hash e n p) = (q = p))"

definition tokens_decode :: "security \<Rightarrow> bool" where
  "tokens_decode e \<longleftrightarrow> (\<forall>now c. now \<le> c_exp c \<longrightarrow> jwt_decode e now (jwt_encode e c) = Some c)"

section \<open>auth.py\<close>

definition hash_pin :: "security \<Rightarrow> nat \<Rightarrow> string \<Rightarrow> string" where
  "hash_pin e salt pin = pwd_hash e salt pin"

definition verify_pin :: "security \<Rightarrow> string \<Rightarrow> string \<Rightarrow> bool" where
  "verify_pin e pin h = pwd_verify e pin h"

definition role_value :: "user_role \<Rightarrow> string" where
  "role_value r = (case r of USER \<Rightarrow> ''USER'' | ADMIN \<Rightarrow> ''ADMIN'')"

definition create_access_token :: "security \<Rightarrow> timestamp \<Rightarrow> uuid \<Rightarrow> string \<Rightarrow> string" where
  "create_access_token e now uid role =
     jwt_encode e \<lparr>c_sub = Some uid, c_role = role, c_exp = now + 60 * expire_minutes e\<rparr>"

definition get_current_user :: "security \<Rightarrow> timestamp \<Rightarrow> string \<Rightarrow> user_row prog" where
  "get_current_user e now token =
     (case jwt_decode e now token of
        None \<Rightarrow> http 401 Session_invalide
      | Some payload \<Rightarrow>
          (case c_sub payload of
             None \<Rightarrow> http 401 Session_invalide
           | Some uid \<Rightarrow>
               bindP (query (\<lambda>s. filter (\<lambda>u. u_id u = uid) (db_users s))) (\<lambda>rows.
               bindP (one_or_none rows) (\<lambda>user.
               case user of None \<Rightarrow> http 401 Session_invalide | Some u \<Rightarrow> ret u))))"

section \<open>Statements on users and wallets\<close>

definition users_insert :: "user_row \<Rightarrow> db \<Rightarrow> sql_error + db" where
  "users_insert u s =
     (if 20 < length (u_phone_number u) \<or> 120 < length (u_full_name u) \<or> 255 < length (u_pin_code_hash u)
      then Inl (StringDataRightTruncation ''users'')
      else if u_id u \<in> u_id ` set (db_users s) then Inl (UniqueViolation ''id'')
      else if u_phone_number u \<in> u_phone_number ` set (db_users s) then Inl (UniqueViolation ''phone_number'')
      else Inr (s\<lparr>db_users := db_users s @ [u]\<rparr>))"

definition wallets_insert :: "wallet_row \<Rightarrow> db \<Rightarrow> sql_error + db" where
  "wallets_insert w s =
     (if w_balance w < 0 then Inl (CheckViolation ''wallets_balance_check'')
      else if w_id w \<in> w_id ` set (db_wallets s) then Inl (UniqueViolation ''id'')
      else if w_user_id w \<in> w_user_id ` set (db_wallets s) then Inl (UniqueViolation ''user_id'')
      else if \<not> user_exists (w_user_id w) s then Inl (ForeignKeyViolation ''wallets.user_id'')
      else Inr (s\<lparr>db_wallets := db_wallets s @ [w]\<rparr>))"

definition users_update :: "uuid \<Rightarrow> (user_row \<Rightarrow> user_row) \<Rightarrow> db \<Rightarrow> sql_error + db" where
  "users_update uid f s =
     (let us = update_where (\<lambda>u. u_id u = uid) f (db_users s)
      in if list_ex (\<lambda>u. 120 < length (u_full_name u)) us then Inl (StringDataRightTruncation ''users.full_name'')
         else Inr (s\<lparr>db_users := us\<rparr>))"

definition new_wallet :: "timestamp \<Rightarrow> uuid \<Rightarrow> uuid \<Rightarrow> wallet_row" where
  "new_wallet now i uid =
     \<lparr>w_id = i, w_user_id = uid, w_balance = 0, w_currency = ''XOF'', w_updated_at = now\<rparr>"

definition new_user :: "timestamp \<Rightarrow> uuid \<Rightarrow> string \<Rightarrow> string \<Rightarrow> string \<Rightarrow> user_role \<Rightarrow> user_row" where
  "new_user now i phone name h role =
     \<lparr>u_id = i, u_phone_number = phone, u_full_name = name, u_pin_code_hash = h, u_role = role,
      u_is_active = True, u_created_at = now, u_updated_at = now\<rparr>"

section \<open>api_auth.py\<close>

record token_response =
  access_token_of :: string
  token_role :: string

record register_body =
  rb_phone_number :: string
  rb_full_name :: "string option"
  rb_pin_code :: string

text \<open>\<open>RegisterRequest\<close>: the lengths are checked first, then the validator rewrites the number.\<close>

definition register_request :: "register_body \<Rightarrow> register_body option" where
  "register_request b =
     (if 6 \<le> length (rb_phone_number b) \<and> length (rb_phone_number b) \<le> 20 \<and>
         length_ok 120 (rb_full_name b) \<and> 4 \<le> length (rb_pin_code b) \<and> length (rb_pin_code b) \<le> 8
      then Some (b\<lparr>rb_phone_number := remove_blanks (strip (rb_phone_number b))\<rparr>)
      else None)"

record me_response =
  me_id :: uuid
  me_phone_number :: string
  me_full_name :: string
  me_role :: string
  me_created_at :: timestamp

definition get_me :: "user_row \<Rightarrow> me_response" where
  "get_me u = \<lparr>me_id = u_id u, me_phone_number = u_phone_number u, me_full_name = u_full_name u,
     me_role = role_value (u_role u), me_created_at = u_created_at u\<rparr>"

text \<open>\<open>db.refresh(user)\<close> reads the row again after the commit.\<close>

definition refreshed :: "uuid \<Rightarrow> user_row prog" where
  "refreshed uid =
     bindP (query (\<lambda>s. find (\<lambda>u. u_id u = uid) (db_users s))) (\<lambda>row.
     case row of None \<Rightarrow> throw Other_exception | Some u \<Rightarrow> ret u)"

definition update_me :: "timestamp \<Rightarrow> user_row \<Rightarrow> string option \<Rightarrow> me_response prog" where
  "update_me now user full_name =
     bindP (case full_name of
         None \<Rightarrow> ret ()
       | Some name \<Rightarrow>
           let cleaned = strip name in
           if cleaned = [] then http 400 Nom_vide
           else if cleaned = u_full_name user then ret ()
           else exec (users_update (u_id user) (\<lambda>r. r\<lparr>u_full_name := cleaned, u_updated_at := now\<rparr>))) (\<lambda>_.
     bindP commit (\<lambda>_.
     bindP (refreshed (u_id user)) (\<lambda>u. ret (get_me u))))"

definition register :: "security \<Rightarrow> timestamp \<Rightarrow> nat \<Rightarrow> uuid \<Rightarrow> uuid \<Rightarrow> register_body \<Rightarrow> token_response prog" where
  "register e now salt i j body =
     (case register_request body of
        None \<Rightarrow> http 422 Validation_error
      | Some payload \<Rightarrow>
          bindP (query (\<lambda>s. filter (\<lambda>u. u_phone_number u = rb_phone_number payload) (db_users s))) (\<lambda>rows.
          bindP (one_or_none rows) (\<lambda>existing.
          if existing \<noteq> None then http 400 Numero_deja_enregistre
          else
            let user = new_user now i (rb_phone_number payload)
                  (case rb_full_name payload of None \<Rightarrow> ''Utilisateur'' | Some n \<Rightarrow> if n = [] then ''Utilisateur'' else n)
                  (hash_pin e salt (rb_pin_code payload)) USER in
            bindP (exec (users_insert user)) (\<lambda>_.
            bindP (exec (wallets_insert (new_wallet now j (u_id user)))) (\<lambda>_.
            bindP commit (\<lambda>_.
            ret \<lparr>access_token_of = create_access_token e now (u_id user) (role_value (u_role user)),
                 token_role = role_value (u_role user)\<rparr>))))))"

definition login :: "security \<Rightarrow> timestamp \<Rightarrow> string \<Rightarrow> string \<Rightarrow> token_response prog" where
  "login e now phone pin =
     bindP (query (\<lambda>s. filter (\<lambda>u. u_phone_number u = phone) (db_users s))) (\<lambda>rows.
     bindP (one_or_none rows) (\<lambda>found.
     case found of
       None \<Rightarrow> http 401 Identifiants_invalides
     | Some user \<Rightarrow>
         if \<not> verify_pin e pin (u_pin_code_hash user) then http 401 Identifiants_invalides
         else if \<not> u_is_active user then http 403 Compte_desactive
         else ret \<lparr>access_token_of = create_access_token e now (u_id user) (role_value (u_role user)),
                   token_role = role_value (u_role user)\<rparr>))"

definition bootstrap_admin ::
  "security \<Rightarrow> timestamp \<Rightarrow> nat \<Rightarrow> uuid \<Rightarrow> uuid \<Rightarrow> string \<Rightarrow> string \<Rightarrow> string \<Rightarrow> token_response prog" where
  "bootstrap_admin e now salt i j admin_phone admin_pin secret =
     (if secret \<noteq> bootstrap_secret e then http 403 Secret_de_bootstrap_invalide
      else
        bindP (query (\<lambda>s. filter (\<lambda>u. u_role u = ADMIN) (db_users s))) (\<lambda>rows.
        bindP (one_or_none rows) (\<lambda>existing_admin.
        if existing_admin \<noteq> None then http 409 Admin_existe_deja
        else
          let admin = new_user now i admin_phone ''Administrateur'' (hash_pin e salt admin_pin) ADMIN in
          bindP (exec (users_insert admin)) (\<lambda>_.
          bindP (exec (wallets_insert (new_wallet now j (u_id admin)))) (\<lambda>_.
          bindP commit (\<lambda>_.
          ret \<lparr>access_token_of = create_access_token e now (u_id admin) (role_value ADMIN),
               token_role = role_value ADMIN\<rparr>))))))"

section \<open>Constraints and invariants\<close>

text \<open>Every account has a wallet; at most one account is an administrator.\<close>

definition provisioned :: "db \<Rightarrow> bool" where
  "provisioned s \<longleftrightarrow> (\<forall>u \<in> set (db_users s). u_id u \<in> w_user_id ` set (db_wallets s))"

definition admins :: "db \<Rightarrow> user_row list" where
  "admins s = filter (\<lambda>u. u_role u = ADMIN) (db_users s)"

definition one_admin :: "db \<Rightarrow> bool" where
  "one_admin s \<longleftrightarrow> length (admins s) \<le> 1"

lemma new_user_simps [simp]:
  "u_id (new_user n i ph nm h ro) = i" "u_phone_number (new_user n i ph nm h ro) = ph"
  "u_full_name (new_user n i ph nm h ro) = nm" "u_pin_code_hash (new_user n i ph nm h ro) = h"
  "u_role (new_user n i ph nm h ro) = ro" "u_is_active (new_user n i ph nm h ro)"
  by (simp_all add: new_user_def)

lemma new_wallet_simps [simp]:
  "w_id (new_wallet n i u) = i" "w_user_id (new_wallet n i u) = u" "w_balance (new_wallet n i u) = 0"
  by (simp_all add: new_wallet_def)

lemma users_insert_Inr:
  "users_insert u s = Inr s' \<longleftrightarrow>
   length (u_phone_number u) \<le> 20 \<and> length (u_full_name u) \<le> 120 \<and> length (u_pin_code_hash u) \<le> 255 \<and>
   u_id u \<notin> u_id ` set (db_users s) \<and> u_phone_number u \<notin> u_phone_number ` set (db_users s) \<and>
   s' = s\<lparr>db_users := db_users s @ [u]\<rparr>"
  by (auto simp: users_insert_def)

lemma wallets_insert_Inr:
  "wallets_insert w s = Inr s' \<longleftrightarrow>
   0 \<le> w_balance w \<and> w_id w \<notin> w_id ` set (db_wallets s) \<and> w_user_id w \<notin> w_user_id ` set (db_wallets s) \<and>
   user_exists (w_user_id w) s \<and> s' = s\<lparr>db_wallets := db_wallets s @ [w]\<rparr>"
  by (auto simp: wallets_insert_def)

lemma users_update_Inr:
  "users_update uid f s = Inr s' \<Longrightarrow> s' = s\<lparr>db_users := update_where (\<lambda>u. u_id u = uid) f (db_users s)\<rparr>"
  by (auto simp: users_update_def Let_def split: if_splits)

lemma wf_users_insert: "wf_db s \<Longrightarrow> users_insert u s = Inr s' \<Longrightarrow> wf_db s'"
  by (auto simp: users_insert_Inr wf_db_def wf_users_def list_all_iff user_exists_iff)

lemma wf_wallets_insert: "wf_db s \<Longrightarrow> wallets_insert w s = Inr s' \<Longrightarrow> w_balance w < 10 ^ 15 \<Longrightarrow> wf_db s'"
  by (auto simp: wallets_insert_Inr wf_db_def wf_wallets_def list_all_iff)

lemma keeps_auth_reads [keeps_intros]:
  "keeps I (get_current_user e now token)" "keeps I (login e now phone pin)"
  unfolding get_current_user_def login_def by (auto split: option.splits intro!: keeps_intros)

lemma keeps_accounts [keeps_intros]:
  "keeps wf_db (register e now salt i j b)" "keeps wf_db (bootstrap_admin e now salt i j ph pin sec)"
  unfolding register_def bootstrap_admin_def Let_def
  by (auto split: option.splits intro!: keeps_intros intro: wf_users_insert wf_wallets_insert)

lemma accounts_aon:
  "all_or_nothing (register e now salt i j b)" "all_or_nothing (bootstrap_admin e now salt i j ph pin sec)"
  "all_or_nothing (get_current_user e now token)" "all_or_nothing (login e now phone pin)"
  unfolding register_def bootstrap_admin_def get_current_user_def login_def Let_def
  by (auto split: option.splits
      intro!: silent_all_or_nothing silent_intros no_commit_intros infallible_intros)

lemma no_commit_auth [no_commit_intros]:
  "no_commit (get_current_user e now token)" "no_commit (login e now phone pin)" "no_commit (refreshed uid)"
  unfolding get_current_user_def login_def refreshed_def by (auto split: option.splits intro!: no_commit_intros)

text \<open>When the row is gone at the refresh, the update before it had nothing to change.\<close>

lemma update_me_aon: "all_or_nothing (update_me now user full_name)"
  unfolding all_or_nothing_def
proof (intro allI impI)
  fix s e s'
  assume run: "request (update_me now user full_name) s = (Inl e, s')"
  have gone: "update_where (\<lambda>u. u_id u = u_id user) f (db_users s) = db_users s"
    if "find (\<lambda>u. u_id u = u_id user) (update_where (\<lambda>u. u_id u = u_id user) f (db_users s)) = None"
      "\<And>u. u_id (f u) = u_id u" for f
    using that by (intro update_where_id) (auto simp: find_None_iff set_update_where)
  note run' = run [unfolded request_def update_me_def refreshed_def Let_def]
  show "s' = s"
  proof (cases full_name)
    case None
    with run' show ?thesis
      by (auto simp: bindP_def ret_def commit_def query_def statement_def throw_def split: option.splits)
  next
    case (Some name)
    let ?f = "\<lambda>r. r\<lparr>u_full_name := strip name, u_updated_at := now\<rparr>"
    show ?thesis
    proof (cases "strip name = [] \<or> strip name = u_full_name user")
      case True
      with run' Some show ?thesis
        by (auto simp: bindP_def ret_def http_def commit_def query_def statement_def throw_def
            split: option.splits if_splits)
    next
      case False
      show ?thesis
      proof (cases "users_update (u_id user) ?f s")
        case (Inl x)
        with run' Some False show ?thesis by (auto simp: bindP_def exec_def statement_def)
      next
        case (Inr s1)
        then have s1: "s1 = s\<lparr>db_users := update_where (\<lambda>u. u_id u = u_id user) ?f (db_users s)\<rparr>"
          by (auto simp: users_update_def Let_def split: if_splits)
        with run' Some False Inr gone [of ?f] show ?thesis
          by (auto simp: bindP_def exec_def statement_def commit_def query_def ret_def throw_def
              split: option.splits)
      qed
    qed
  qed
qed

end
