(* ===== verification/Samples.thy ===== *)
theory Samples
  imports LedgerProps
begin

text \<open>
  A small database on which the theorems are exercised: two clients with their wallets, an
  administrator, a deposit and a withdrawal waiting for review. \<open>reply_of\<close> and \<open>state_after\<close>
  take a fallible operation apart, so that a concrete run is named by what it starts from.
\<close>

definition reply_of :: "'e + ('r \<times> 's) \<Rightarrow> 'r option" where
  "reply_of m = (case m of Inl e \<Rightarrow> None | Inr (r, s) \<Rightarrow> Some r)"

definition state_after :: "'s \<Rightarrow> 'e + ('r \<times> 's) \<Rightarrow> 's" where
  "state_after d m = (case m of Inl e \<Rightarrow> d | Inr (r, s) \<Rightarrow> s)"

lemma run_split: "reply_of m = Some r \<Longrightarrow> m = Inr (r, state_after d m)"
  by (auto simp: reply_of_def state_after_def split: sum.splits prod.splits)

definition sample_user :: "uuid \<Rightarrow> string \<Rightarrow> user_role \<Rightarrow> user_row" where
  "sample_user i ph ro =
     \<lparr>u_id = i, u_phone_number = ph, u_full_name = ''Awa'', u_pin_code_hash = ''h'', u_role = ro,
      u_is_active = True, u_created_at = 1, u_updated_at = 1\<rparr>"

definition sample_wallet :: "uuid \<Rightarrow> int \<Rightarrow> wallet_row" where
  "sample_wallet u b =
     \<lparr>w_id = u + 50, w_user_id = u, w_balance = b, w_currency = ''XOF'', w_updated_at = 1\<rparr>"

definition sample_tx ::
  "uuid \<Rightarrow> string \<Rightarrow> uuid \<Rightarrow> transaction_type \<Rightarrow> payment_provider \<Rightarrow> int \<Rightarrow> string option \<Rightarrow> ledger_row" where
  "sample_tx i r u ty pr a proof =
     \<lparr>t_id = i, t_reference = r, t_user_id = u, t_type = ty, t_provider = pr, t_amount = a,
      t_fee = 0, t_status = PENDING, t_phone_number = Some ''0701'', t_proof_ref = proof,
      t_metadata = [], t_created_at = 1, t_updated_at = 1\<rparr>"

definition sample_db :: db where
  "sample_db =
     \<lparr>db_users = [sample_user 1 ''0701'' USER, sample_user 2 ''0702'' USER, sample_user 9 ''0709'' ADMIN],
      db_wallets = [sample_wallet 1 10000, sample_wallet 2 2000],
      db_ledger = [sample_tx 100 ''PI-1'' 1 PAY_IN ORANGE 5000 None,
                   sample_tx 101 ''PO-1'' 2 PAY_OUT WAVE 3000 None],
      db_kyc = [], db_devices = [], db_audit = [], db_settings = []\<rparr>"

lemma wf_sample_db: "wf_db sample_db"
  by code_simp

end
