(* ===== verification/Kyc.thy ===== *)
theory Kyc
  imports Session Samples
begin

text \<open>
  \<open>app/api_kyc.py\<close> and \<open>app/api_devices.py\<close>: submission and status of identity documents, and the
  registration of a device's push token. Statements on \<open>kyc_submissions\<close> check the partial unique
  index (one PENDING or APPROVED submission per user).
\<close>

section \<open>Statements\<close>

definition kyc_check :: "kyc_row list \<Rightarrow> sql_error + kyc_row list" where
  "kyc_check ks =
     (if \<not> distinct (map k_id ks) then Inl (UniqueViolation ''id'')
      else if \<not> distinct (map k_user_id (filter kyc_active ks)) then Inl (UniqueViolation ''uq_kyc_active_per_user'')
      else Inr ks)"

definition kyc_insert :: "kyc_row \<Rightarrow> db \<Rightarrow> sql_error + db" where
  "kyc_insert k s =
     (if \<not> user_exists (k_user_id k) s then Inl (ForeignKeyViolation ''kyc_submissions.user_id'')
      else bindE (kyc_check (db_kyc s @ [k])) (\<lambda>ks. Inr (s\<lparr>db_kyc := ks\<rparr>)))"

definition kyc_update :: "uuid \<Rightarrow> (kyc_row \<Rightarrow> kyc_row) \<Rightarrow> db \<Rightarrow> sql_error + db" where
  "kyc_update i f s =
     bindE (kyc_check (update_where (\<lambda>k. k_id k = i) f (db_kyc s))) (\<lambda>ks. Inr (s\<lparr>db_kyc := ks\<rparr>))"

lemma kyc_check_Inr: "kyc_check ks = Inr ks' \<longleftrightarrow> ks' = ks \<and> wf_kyc ks"
  by (auto simp: kyc_check_def wf_kyc_def)

lemma kyc_insert_Inr:
  "kyc_insert k s = Inr s' \<longleftrightarrow>
   user_exists (k_user_id k) s \<and> wf_kyc (db_kyc s @ [k]) \<and> s' = s\<lparr>db_kyc := db_kyc s @ [k]\<rparr>"
  by (auto simp: kyc_insert_def outcome_simps kyc_check_Inr)

lemma kyc_update_Inr:
  "kyc_update i f s = Inr s' \<longleftrightarrow>
   wf_kyc (update_where (\<lambda>k. k_id k = i) f (db_kyc s)) \<and>
   s' = s\<lparr>db_kyc := update_where (\<lambda>k. k_id k = i) f (db_kyc s)\<rparr>"
  by (auto simp: kyc_update_def outcome_simps kyc_check_Inr)

lemma wf_kyc_statements:
  "wf_db s \<Longrightarrow> kyc_insert k s = Inr s' \<Longrightarrow> wf_db s'"
  "wf_db s \<Longrightarrow> kyc_update i f s = Inr s' \<Longrightarrow> wf_db s'"
  by (auto simp: kyc_insert_Inr kyc_update_Inr wf_db_def list_all_iff)

section \<open>Submission\<close>

definition new_submission :: "timestamp \<Rightarrow> uuid \<Rightarrow> uuid \<Rightarrow> string \<Rightarrow> string option \<Rightarrow> kyc_row" where
  "new_submission now i uid doc selfie =
     \<lparr>k_id = i, k_user_id = uid, k_id_document = doc, k_selfie = selfie, k_status = KYC_PENDING,
      k_reviewed_by = None, k_review_note = None, k_created_at = now, k_updated_at = now\<rparr>"

definition submit_kyc ::
  "nat \<Rightarrow> timestamp \<Rightarrow> uuid \<Rightarrow> user_row \<Rightarrow> string \<Rightarrow> string option \<Rightarrow> unit prog" where
  "submit_kyc max_chars now i user doc selfie =
     (if length doc < 10 then http 422 Validation_error
      else if max_chars < length doc \<or> (\<exists>x \<in> set_option selfie. max_chars < length x)
      then http 413 Image_trop_volumineuse
      else
        bindP (query (\<lambda>s. filter (\<lambda>k. k_user_id k = u_id user \<and> k_status k \<in> {KYC_PENDING, KYC_APPROVED}) (db_kyc s))) (\<lambda>rows.
        bindP (one_or_none rows) (\<lambda>existing.
        case existing of
          Some k \<Rightarrow> http 409 (Dossier_kyc_deja (k_status k))
        | None \<Rightarrow>
            bindP (exec (kyc_insert (new_submission now i (u_id user) doc selfie))) (\<lambda>_.
            commit))))"

datatype kyc_answer =
    Not_submitted
  | Kyc_status kyc_state "string option" timestamp timestamp

definition kyc_status :: "user_row \<Rightarrow> kyc_answer prog" where
  "kyc_status user =
     bindP (query (\<lambda>s. newest_first k_created_at (filter (\<lambda>k. k_user_id k = u_id user) (db_kyc s)))) (\<lambda>rows.
     ret (case rows of
       [] \<Rightarrow> Not_submitted
     | k # ks \<Rightarrow> Kyc_status (k_status k) (k_review_note k) (k_created_at k) (k_updated_at k)))"

section \<open>Devices\<close>

definition devices_insert :: "device_row \<Rightarrow> db \<Rightarrow> sql_error + db" where
  "devices_insert d s =
     (if 255 < length (d_token d) \<or> 20 < length (d_platform d) then Inl (StringDataRightTruncation ''device_tokens'')
      else if d_id d \<in> d_id ` set (db_devices s) then Inl (UniqueViolation ''id'')
      else if d_token d \<in> d_token ` set (db_devices s) then Inl (UniqueViolation ''token'')
      else if \<not> user_exists (d_user_id d) s then Inl (ForeignKeyViolation ''device_tokens.user_id'')
      else Inr (s\<lparr>db_devices := db_devices s @ [d]\<rparr>))"

definition devices_assign :: "uuid \<Rightarrow> uuid \<Rightarrow> string \<Rightarrow> db \<Rightarrow> sql_error + db" where
  "devices_assign i uid platform s =
     (if 20 < length platform then Inl (StringDataRightTruncation ''device_tokens'')
      else if \<not> user_exists uid s then Inl (ForeignKeyViolation ''device_tokens.user_id'')
      else Inr (s\<lparr>db_devices := update_where (\<lambda>d. d_id d = i)
             (\<lambda>d. d\<lparr>d_user_id := uid, d_platform := platform\<rparr>) (db_devices s)\<rparr>))"

definition register_device :: "timestamp \<Rightarrow> uuid \<Rightarrow> user_row \<Rightarrow> string \<Rightarrow> string \<Rightarrow> unit prog" where
  "register_device now i user fcm_token platform =
     (if length fcm_token < 10 then http 422 Validation_error
      else
        bindP (query (\<lambda>s. filter (\<lambda>d. d_token d = fcm_token) (db_devices s))) (\<lambda>rows.
        bindP (one_or_none rows) (\<lambda>existing.
        bindP (case existing of
            Some d \<Rightarrow> exec (devices_assign (d_id d) (u_id user) platform)
          | None \<Rightarrow> exec (devices_insert \<lparr>d_id = i, d_user_id = u_id user, d_token = fcm_token,
                      d_platform = platform, d_created_at = now\<rparr>)) (\<lambda>_.
        commit))))"

interpretation device_ids: key_preserving_update d_id "\<lambda>(u, p) d. d\<lparr>d_user_id := u, d_platform := p\<rparr>"
  by unfold_locales (simp split: prod.splits)

interpretation device_tokens: key_preserving_update d_token "\<lambda>(u, p) d. d\<lparr>d_user_id := u, d_platform := p\<rparr>"
  by unfold_locales (simp split: prod.splits)

lemma wf_devices_insert: "wf_db s \<Longrightarrow> devices_insert d s = Inr s' \<Longrightarrow> wf_db s'"
  by (auto simp: devices_insert_def wf_db_def wf_devices_def list_all_iff split: if_splits)

lemma wf_devices_assign: "wf_db s \<Longrightarrow> devices_assign i uid p s = Inr s' \<Longrightarrow> wf_db s'"
  using device_ids.distinct_keys_update [of _ "(uid, p)" "db_devices s"]
    device_tokens.distinct_keys_update [of _ "(uid, p)" "db_devices s"]
  by (auto simp: devices_assign_def wf_db_def wf_devices_def list_all_iff split: if_splits)

lemma keeps_kyc_routes [keeps_intros]:
  "keeps wf_db (submit_kyc mx now i user doc selfie)" "keeps I (kyc_status user)"
  "keeps wf_db (register_device now i user tok p)"
  unfolding submit_kyc_def kyc_status_def register_device_def
  by (auto split: option.splits intro!: keeps_intros intro: wf_kyc_statements wf_devices_insert wf_devices_assign)

lemma kyc_routes_aon:
  "all_or_nothing (submit_kyc mx now i user doc selfie)" "all_or_nothing (kyc_status user)"
  "all_or_nothing (register_device now i user tok p)"
  unfolding submit_kyc_def kyc_status_def register_device_def
  by (auto split: option.splits intro!: silent_all_or_nothing silent_intros no_commit_intros infallible_intros)

section \<open>Contracts\<close>

text \<open>A client has at most one live identity file. A submission is recorded (as PENDING, with the
  documents sent) exactly when the documents fit the limits, the client has neither a PENDING
  nor an APPROVED one and the new id is unused; otherwise the route answers with an error and
  nothing changes.\<close>

theorem submit_kyc_one_live_file:
  assumes "wf_db s" "user_exists (u_id user) s" "i \<notin> k_id ` set (db_kyc s)"
  shows "request (submit_kyc mx now i user doc selfie) s =
    (if length doc < 10 then (Inl (Http 422 Validation_error), s)
     else if mx < length doc \<or> (\<exists>x. selfie = Some x \<and> mx < length x) then (Inl (Http 413 Image_trop_volumineuse), s)
     else (case find (\<lambda>k. k_user_id k = u_id user \<and> kyc_active k) (db_kyc s) of
         Some k \<Rightarrow> (Inl (Http 409 (Dossier_kyc_deja (k_status k))), s)
       | None \<Rightarrow> (Inr (), s\<lparr>db_kyc := db_kyc s @ [new_submission now i (u_id user) doc selfie]\<rparr>)))"
proof -
  let ?P = "\<lambda>k. k_user_id k = u_id user \<and> k_status k \<in> {KYC_PENDING, KYC_APPROVED}"
  have P: "?P = (\<lambda>k. k_user_id k = u_id user \<and> kyc_active k)" by (auto simp: kyc_active_def fun_eq_iff)
  have wfk: "wf_kyc (db_kyc s)" using assms(1) by (simp add: wf_db_def)
  have one: "filter ?P (db_kyc s) = (case find ?P (db_kyc s) of None \<Rightarrow> [] | Some k \<Rightarrow> [k])"
    unfolding P by (rule filter_unique_key) (use wfk in \<open>simp add: wf_kyc_def\<close>)
  have ins: "kyc_insert (new_submission now i (u_id user) doc selfie) s =
      Inr (s\<lparr>db_kyc := db_kyc s @ [new_submission now i (u_id user) doc selfie]\<rparr>)"
    if "find ?P (db_kyc s) = None"
  proof -
    have "u_id user \<notin> k_user_id ` set (filter kyc_active (db_kyc s))"
      using that unfolding P by (auto simp: find_None_iff)
    with wfk assms(2,3) show ?thesis
      by (auto simp: kyc_insert_def kyc_check_def wf_kyc_def new_submission_def)
  qed
  have sel: "(\<exists>x \<in> set_option selfie. mx < length x) = (\<exists>x. selfie = Some x \<and> mx < length x)"
    by (cases selfie) auto
  show ?thesis
    unfolding P [symmetric]
    using one ins sel
    by (auto simp: request_def submit_kyc_def http_def throw_def bindP_def query_def statement_def exec_def
        one_or_none_def ret_def commit_def split: option.splits)
qed

theorem submit_kyc_one_live_file_witness:
  "snd (request (submit_kyc 1000 7 5 (sample_user 1 ''0701'' USER) ''data:image/png'' None) sample_db)
   = sample_db\<lparr>db_kyc := [new_submission 7 5 1 ''data:image/png'' None]\<rparr>"
proof -
  have "user_exists (u_id (sample_user 1 ''0701'' USER)) sample_db" by code_simp
  moreover have "db_kyc sample_db = []" by (simp add: sample_db_def)
  moreover have "u_id (sample_user 1 ''0701'' USER) = 1" by (simp add: sample_user_def)
  ultimately show ?thesis
    using submit_kyc_one_live_file [OF wf_sample_db, of "sample_user 1 ''0701'' USER" 5 1000 7 "''data:image/png''" None]
    by simp
qed

end
