(* ===== verification/Like.thy ===== *)
theory Like
  imports Prelude
begin

text \<open>
  The operator \<open>ILIKE\<close> of the search filters: \<open>%\<close> stands for any text, \<open>_\<close> for any character, a
  backslash makes the next character literal, and case is ignored. The routes search for
  \<open>%s%\<close> with the text of the request inside; for a text without those three characters that is
  the search for a substring.
\<close>

definition same_char :: "char \<Rightarrow> char \<Rightarrow> bool" where
  "same_char a b \<longleftrightarrow> lower_char a = lower_char b"

fun like_match :: "string \<Rightarrow> string \<Rightarrow> bool" where
  "like_match [] s = (s = [])"
| "like_match (p # ps) s =
     (if p = CHR ''%'' then like_match ps s \<or> (case s of [] \<Rightarrow> False | c # cs \<Rightarrow> like_match (p # ps) cs)
      else if p = CHR ''_'' then (case s of [] \<Rightarrow> False | c # cs \<Rightarrow> like_match ps cs)
      else if p = CHR 0x5C then
        (case ps of [] \<Rightarrow> False
         | q # qs \<Rightarrow> (case s of [] \<Rightarrow> False | c # cs \<Rightarrow> same_char q c \<and> like_match qs cs))
      else (case s of [] \<Rightarrow> False | c # cs \<Rightarrow> same_char p c \<and> like_match ps cs))"

definition contains_pattern :: "string \<Rightarrow> string" where
  "contains_pattern s = ''%'' @ strip s @ ''%''"

definition ilike :: "string \<Rightarrow> string \<Rightarrow> bool" where
  "ilike s pattern = like_match pattern s"

definition plain_text :: "string \<Rightarrow> bool" where
  "plain_text s \<longleftrightarrow> list_all (\<lambda>c. c \<noteq> CHR ''%'' \<and> c \<noteq> CHR ''_'' \<and> c \<noteq> CHR 0x5C) s"

lemma like_percent: "like_match (CHR ''%'' # ps) s \<longleftrightarrow> (\<exists>a b. s = a @ b \<and> like_match ps b)"
proof (induction s)
  case Nil
  show ?case by simp
next
  case (Cons c cs)
  have "like_match (CHR ''%'' # ps) (c # cs) \<longleftrightarrow> like_match ps (c # cs) \<or> like_match (CHR ''%'' # ps) cs"
    by simp
  also have "\<dots> \<longleftrightarrow> (\<exists>a b. c # cs = a @ b \<and> like_match ps b)"
    unfolding Cons.IH by (metis Cons_eq_append_conv append_Cons append_Nil)
  finally show ?case .
qed

lemma like_plain_prefix:
  "plain_text p \<Longrightarrow> like_match (p @ ps) s \<longleftrightarrow> (\<exists>a b. s = a @ b \<and> lower a = lower p \<and> like_match ps b)"
proof (induction p arbitrary: s)
  case Nil
  show ?case by (auto simp: lower_def)
next
  case (Cons q p)
  from Cons.prems have q: "q \<noteq> CHR ''%''" "q \<noteq> CHR ''_''" "q \<noteq> CHR 0x5C" "plain_text p"
    by (auto simp: plain_text_def)
  show ?case
  proof (cases s)
    case Nil
    with q show ?thesis by (auto simp: lower_def)
  next
    case s: (Cons c cs)
    have "like_match ((q # p) @ ps) s \<longleftrightarrow> same_char q c \<and> (\<exists>a b. cs = a @ b \<and> lower a = lower p \<and> like_match ps b)"
      using q s Cons.IH [OF q(4), of cs] by simp
    also have "\<dots> \<longleftrightarrow> (\<exists>a b. s = a @ b \<and> lower a = lower (q # p) \<and> like_match ps b)"
    proof -
      have "lower a = lower (q # p) \<longleftrightarrow> (\<exists>a0 a'. a = a0 # a' \<and> same_char q a0 \<and> lower a' = lower p)" for a
        by (cases a) (auto simp: lower_def same_char_def)
      note low = this
      show ?thesis
      proof
        assume "same_char q c \<and> (\<exists>a b. cs = a @ b \<and> lower a = lower p \<and> like_match ps b)"
        then obtain a b where "cs = a @ b" "same_char q c" "lower a = lower p" "like_match ps b" by blast
        then have "s = (c # a) @ b \<and> lower (c # a) = lower (q # p) \<and> like_match ps b"
          unfolding low by (simp add: s)
        then show "\<exists>a b. s = a @ b \<and> lower a = lower (q # p) \<and> like_match ps b" by blast
      qed (auto simp: low s, blast)
    qed
    finally show ?thesis .
  qed
qed

text \<open>The search finds substrings. For a text without wildcards, a row matches the filter of
  \<open>list_transactions\<close>, \<open>list_users\<close> and the users page exactly when the column contains the
  stripped text somewhere, in any case.\<close>

theorem ilike_finds_substrings:
  assumes "plain_text (strip s)"
  shows "ilike col (contains_pattern s) \<longleftrightarrow> (\<exists>a m b. col = a @ m @ b \<and> lower m = lower (strip s))"
proof -
  have pct: "like_match ''%'' b" for b using like_percent [of "[]" b] by auto
  have "ilike col (contains_pattern s) \<longleftrightarrow> (\<exists>a r. col = a @ r \<and> like_match (strip s @ ''%'') r)"
    using like_percent [of "strip s @ ''%''" col] by (simp add: ilike_def contains_pattern_def)
  also have "\<dots> \<longleftrightarrow> (\<exists>a m b. col = a @ m @ b \<and> lower m = lower (strip s))"
    unfolding like_plain_prefix [OF assms] using pct by auto
  finally show ?thesis .
qed

theorem ilike_finds_substrings_witness:
  "\<exists>a m b. ''+22507AbC9'' = a @ m @ b \<and> lower m = lower (strip '' 7aBc '')"
proof -
  have "plain_text (strip '' 7aBc '')" "ilike ''+22507AbC9'' (contains_pattern '' 7aBc '')" by code_simp+
  with ilike_finds_substrings show ?thesis by blast
qed

end
