(* ===== verification/Admin.thy ===== *)
theory Admin
  imports WalletApi Auth Kyc Like
begin

text \<open>
  \<open>app/api_admin.py\<close>: the administrator's routes. The JWT routes take the account \<open>admin\<close> that
  \<open>require_admin\<close> let through, the browser routes the secret that \<open>check_secret\<close> compares. A route
  that notifies a client in the background returns its answer with the tasks to run after the
  response. Of the HTML pages this theory has the data; \<open>Pages\<close> puts it into the templates.
\<close>

type_synonym tasks = "(uuid \<times> notice) list"

section \<open>Access\<close>

definition check_secret :: "security \<Rightarrow> string \<Rightarrow> unit prog" where
  "check_secret e secret =
     (if bootstrap_secret e = [] then http 403 Route_admin_non_configuree
      else if secret \<noteq> bootstrap_secret e then http 403 Secret_invalide
      else ret ())"

definition require_admin :: "user_row \<Rightarrow> user_row prog" where
  "require_admin user = (if u_role user \<noteq> ADMIN then http 403 Reserve_aux_administrateurs else ret user)"

section \<open>Dashboard\<close>

record dashboard =
  ds_solde_global :: int
  ds_recu :: int
  ds_retire :: int
  ds_frais :: int
  ds_frais_total :: int
  ds_fee_percent :: decimal
  ds_nb_users :: nat
  ds_nb_pending_payouts :: nat

definition sum_amount :: "(ledger_row \<Rightarrow> bool) \<Rightarrow> db \<Rightarrow> int" where
  "sum_amount P s = sum_list (map t_amount (filter P (db_ledger s)))"

definition sum_fee :: "(ledger_row \<Rightarrow> bool) \<Rightarrow> db \<Rightarrow> int" where
  "sum_fee P s = sum_list (map t_fee (filter P (db_ledger s)))"

definition dashboard_stats :: "timestamp \<Rightarrow> dashboard prog" where
  "dashboard_stats today_start =
     bindP (query (\<lambda>s. sum_list (map w_balance (db_wallets s)))) (\<lambda>solde_global.
     bindP (query (sum_amount (\<lambda>t. t_type t = PAY_IN \<and> t_status t = SUCCESS \<and> today_start \<le> t_created_at t))) (\<lambda>recu_jour.
     bindP (query (sum_amount (\<lambda>t. t_type t = PAY_OUT \<and> t_status t = SUCCESS \<and> today_start \<le> t_created_at t))) (\<lambda>retire_jour.
     bindP (query (sum_fee (\<lambda>t. today_start \<le> t_created_at t))) (\<lambda>frais_jour.
     bindP (query (sum_fee (\<lambda>t. True))) (\<lambda>frais_total.
     bindP (query (\<lambda>s. length (db_users s))) (\<lambda>nb_users.
     bindP (query (\<lambda>s. length (filter (\<lambda>t. t_type t = PAY_OUT \<and> t_status t = PENDING) (db_ledger s)))) (\<lambda>nb_pending.
     bindP get_fee_percent (\<lambda>fee_percent.
     ret \<lparr>ds_solde_global = solde_global, ds_recu = recu_jour, ds_retire = retire_jour,
          ds_frais = frais_jour, ds_frais_total = frais_total, ds_fee_percent = fee_percent,
          ds_nb_users = nb_users, ds_nb_pending_payouts = nb_pending\<rparr>))))))))"

text \<open>Days are numbers; \<open>created_at::date\<close> is the day of the timestamp in the database's zone (UTC).\<close>

record day_point =
  dp_date :: int
  dp_recu :: int
  dp_retire :: int
  dp_frais :: int

definition day_of :: "timestamp \<Rightarrow> int" where
  "day_of ts = int (ts div 86400)"

definition daily_stats :: "timestamp \<Rightarrow> nat \<Rightarrow> day_point list prog" where
  "daily_stats now days =
     bindP (guard (1 \<le> days \<and> days \<le> 90) (Http 422 Validation_error)) (\<lambda>_.
     query (\<lambda>s. map (\<lambda>d.
       \<lparr>dp_date = d,
        dp_recu = sum_amount (\<lambda>t. day_of (t_created_at t) = d \<and> t_type t = PAY_IN \<and> t_status t = SUCCESS) s,
        dp_retire = sum_amount (\<lambda>t. day_of (t_created_at t) = d \<and> t_type t = PAY_OUT \<and> t_status t = SUCCESS) s,
        dp_frais = sum_fee (\<lambda>t. day_of (t_created_at t) = d) s\<rparr>)
       [day_of now - (int days - 1)..day_of now]))"

section \<open>Settings\<close>

definition get_fee_percent_route :: "user_row \<Rightarrow> decimal prog" where
  "get_fee_percent_route admin = get_fee_percent"

definition update_fee_percent_route :: "timestamp \<Rightarrow> user_row \<Rightarrow> decimal \<Rightarrow> decimal prog" where
  "update_fee_percent_route now admin percent =
     bindP (guard (0 \<le> dec_val percent \<and> dec_val percent \<le> 100) (Http 422 Validation_error)) (\<lambda>_.
     bindP (set_fee_percent now percent) (\<lambda>_. ret percent))"

definition get_payment_links_route :: "user_row \<Rightarrow> (string \<times> string option) list prog" where
  "get_payment_links_route admin = get_payment_links"

definition update_payment_links_route ::
  "timestamp \<Rightarrow> user_row \<Rightarrow> string option \<Rightarrow> string option \<Rightarrow> string option \<Rightarrow> string option
   \<Rightarrow> (string \<times> string option) list prog" where
  "update_payment_links_route now admin wave orange mtn moov =
     bindP (set_payment_links now [(''wave'', wave), (''orange'', orange), (''mtn'', mtn), (''moov'', moov)]) (\<lambda>_.
     get_payment_links)"

section \<open>Pending transactions\<close>

record pending_out =
  po_id :: uuid
  po_reference :: string
  po_provider :: payment_provider
  po_amount :: int
  po_phone_number :: "string option"
  po_user_phone :: string
  po_created_at :: timestamp

definition with_user :: "db \<Rightarrow> ledger_row list \<Rightarrow> (ledger_row \<times> string) list" where
  "with_user s ts = concat (map (\<lambda>t. map (\<lambda>u. (t, u_phone_number u))
     (filter (\<lambda>u. u_id u = t_user_id t) (db_users s))) ts)"

definition pending_of :: "transaction_type \<Rightarrow> db \<Rightarrow> pending_out list" where
  "pending_of ty s =
     map (\<lambda>(t, ph). \<lparr>po_id = t_id t, po_reference = t_reference t, po_provider = t_provider t,
            po_amount = t_amount t, po_phone_number = t_phone_number t, po_user_phone = ph,
            po_created_at = t_created_at t\<rparr>)
       (with_user s (oldest_first t_created_at
         (filter (\<lambda>t. t_type t = ty \<and> t_status t = PENDING) (db_ledger s))))"

definition pending_payouts :: "user_row \<Rightarrow> pending_out list prog" where
  "pending_payouts admin = query (pending_of PAY_OUT)"

definition pending_payins :: "user_row \<Rightarrow> pending_out list prog" where
  "pending_payins admin = query (pending_of PAY_IN)"

definition process_payout_route ::
  "timestamp \<Rightarrow> uuid \<Rightarrow> user_row \<Rightarrow> uuid \<Rightarrow> string \<Rightarrow> string option \<Rightarrow> (review_reply \<times> tasks) prog" where
  "process_payout_route now i admin tid action proof =
     (if upper action \<notin> {''APPROVE'', ''REJECT''} then http 400 Action_invalide
      else
        bindP (query (tx_by_id tid)) (\<lambda>tx_info.
        bindP (admin_process_payout now i tid (upper action) proof (u_id admin) None) (\<lambda>result.
        case result of
          Review_refused m \<Rightarrow> http 400 (Of_service m)
        | Review_done m \<Rightarrow>
            ret (result,
              case tx_info of
                None \<Rightarrow> []
              | Some t \<Rightarrow>
                  [(t_user_id t,
                    if upper action = ''APPROVE''
                    then \<lparr>n_title = Retrait_envoye, n_body = Envoye_vers (t_amount t) (t_provider t),
                          n_data = [(''type'', DStr ''payout_approve''), (''reference'', DId tid)]\<rparr>
                    else \<lparr>n_title = Retrait_annule, n_body = Rembourse (t_amount t),
                          n_data = [(''type'', DStr ''payout_reject''), (''reference'', DId tid)]\<rparr>)]))))"

definition mark_failed :: "timestamp \<Rightarrow> ledger_row \<Rightarrow> ledger_row" where
  "mark_failed now t = t\<lparr>t_status := FAILED, t_updated_at := now\<rparr>"

text \<open>The proof an approval records when the administrator gives none.\<close>

definition manual_proof :: "user_row \<Rightarrow> string" where
  "manual_proof admin = ''MANUEL-ADMIN-'' @ u_phone_number admin"

datatype payin_decision =
    Payin_rejected string
  | Payin_finalized payin_reply

definition process_payin_route ::
  "timestamp \<Rightarrow> user_row \<Rightarrow> uuid \<Rightarrow> string \<Rightarrow> string option \<Rightarrow> (payin_decision \<times> tasks) prog" where
  "process_payin_route now admin tid action proof =
     (if upper action \<notin> {''APPROVE'', ''REJECT''} then http 400 Action_invalide
      else if upper action = ''REJECT'' then
        (let hit = (\<lambda>t. t_id t = tid \<and> t_status t = PENDING \<and> t_type t = PAY_IN) in
         bindP (statement (\<lambda>s. bindE (ledger_update hit (mark_failed now) s) (\<lambda>s'. Inr (find hit (db_ledger s), s')))) (\<lambda>row.
         bindP commit (\<lambda>_.
         case row of
           None \<Rightarrow> http 404 Depot_introuvable_ou_deja_traite
         | Some t \<Rightarrow> ret (Payin_rejected (t_reference t), []))))
      else
        bindP (query (\<lambda>s. find (\<lambda>t. t_id t = tid \<and> t_type t = PAY_IN) (db_ledger s))) (\<lambda>tx_row.
        case tx_row of
          None \<Rightarrow> http 404 Depot_introuvable
        | Some t \<Rightarrow>
            bindP (finalize_payin now (t_reference t)
                (Some (case proof of None \<Rightarrow> manual_proof admin | Some p \<Rightarrow> if p = [] then manual_proof admin else p))
                (Some (cents (t_amount t)))) (\<lambda>result.
            case result of
              Payin_refused m \<Rightarrow> http 400 (Of_service m)
            | Payin_credited x a b \<Rightarrow>
                ret (Payin_finalized result,
                  [(t_user_id t, \<lparr>n_title = Wallet_recharge, n_body = Ajoute (cents (t_amount t)),
                     n_data = [(''type'', DStr ''wallet_credited''), (''reference'', DStr (t_reference t))]\<rparr>)]))))"

section \<open>Transactions and users\<close>

record tx_page =
  tp_total :: nat
  tp_items :: "(transaction_out \<times> string) list"

definition list_transactions ::
  "user_row \<Rightarrow> string option \<Rightarrow> string option \<Rightarrow> string option \<Rightarrow> int \<Rightarrow> int \<Rightarrow> tx_page prog" where
  "list_transactions admin ty status phone limit offset =
     (if 200 < limit \<or> offset < 0 then http 422 Validation_error
      else
        let by_type = (ty \<noteq> None \<and> ty \<noteq> Some []); by_status = (status \<noteq> None \<and> status \<noteq> Some []);
            by_phone = (phone \<noteq> None \<and> phone \<noteq> Some []) in
        bindP (guard (by_type \<longrightarrow> type_of (upper (the ty)) \<noteq> None) (Http 400 Type_de_transaction_invalide)) (\<lambda>_.
        bindP (guard (by_status \<longrightarrow> status_of (upper (the status)) \<noteq> None) (Http 400 Statut_invalide)) (\<lambda>_.
        let rows = (\<lambda>s. filter (\<lambda>(t, ph).
              (by_type \<longrightarrow> type_of (upper (the ty)) = Some (t_type t)) \<and>
              (by_status \<longrightarrow> status_of (upper (the status)) = Some (t_status t)) \<and>
              (by_phone \<longrightarrow> ilike ph (contains_pattern (the phone)) \<or>
                 (case t_phone_number t of None \<Rightarrow> False | Some p \<Rightarrow> ilike p (contains_pattern (the phone)))))
              (with_user s (db_ledger s))) in
        bindP (query (\<lambda>s. length (rows s))) (\<lambda>total_rows.
        bindP (guard (0 \<le> limit) Other_exception) (\<lambda>_.
        bindP (query (\<lambda>s. take (nat limit) (drop (nat offset)
                 (newest_first (\<lambda>(t, ph). t_created_at t) (rows s))))) (\<lambda>page.
        ret \<lparr>tp_total = total_rows, tp_items = map (\<lambda>(t, ph). (transaction_out_of t, ph)) page\<rparr>))))))"

record admin_user_out =
  au_id :: uuid
  au_phone_number :: string
  au_full_name :: string
  au_role :: string
  au_is_active :: bool
  au_kyc_status :: "kyc_state option"
  au_wallet_balance :: int
  au_created_at :: timestamp

text \<open>\<open>kyc_map.setdefault\<close> over the submissions, newest first: the latest status of each user.\<close>

definition kyc_map :: "uuid list \<Rightarrow> db \<Rightarrow> uuid \<Rightarrow> kyc_state option" where
  "kyc_map user_ids s uid =
     map_option k_status (find (\<lambda>k. k_user_id k = uid)
       (newest_first k_created_at (filter (\<lambda>k. k_user_id k \<in> set user_ids) (db_kyc s))))"

definition users_matching :: "string option \<Rightarrow> nat \<Rightarrow> nat \<Rightarrow> db \<Rightarrow> (user_row \<times> int option) list" where
  "users_matching search limit offset s =
     take limit (drop offset (newest_first (\<lambda>(u, b). u_created_at u)
       (concat (map (\<lambda>u. case filter (\<lambda>w. w_user_id w = u_id u) (db_wallets s) of
            [] \<Rightarrow> [(u, None)] | ws \<Rightarrow> map (\<lambda>w. (u, Some (w_balance w))) ws)
          (filter (\<lambda>u. case search of None \<Rightarrow> True
               | Some q \<Rightarrow> q = [] \<or> ilike (u_phone_number u) (contains_pattern q) \<or>
                           ilike (u_full_name u) (contains_pattern q)) (db_users s))))))"

definition admin_user_of :: "(uuid \<Rightarrow> kyc_state option) \<Rightarrow> user_row \<times> int option \<Rightarrow> admin_user_out" where
  "admin_user_of m ub =
     (let u = fst ub in
      \<lparr>au_id = u_id u, au_phone_number = u_phone_number u, au_full_name = u_full_name u,
       au_role = role_value (u_role u), au_is_active = u_is_active u, au_kyc_status = m (u_id u),
       au_wallet_balance = (case snd ub of None \<Rightarrow> 0 | Some b \<Rightarrow> b), au_created_at = u_created_at u\<rparr>)"

definition list_users :: "user_row \<Rightarrow> string option \<Rightarrow> int \<Rightarrow> int \<Rightarrow> admin_user_out list prog" where
  "list_users admin search limit offset =
     (if 200 < limit \<or> offset < 0 then http 422 Validation_error
      else
        bindP (guard (0 \<le> limit) Other_exception) (\<lambda>_.
        bindP (query (users_matching search (nat limit) (nat offset))) (\<lambda>rows.
        bindP (query (kyc_map (map (u_id \<circ> fst) rows))) (\<lambda>m.
        ret (map (admin_user_of m) rows)))))"

record user_detail_out =
  ud_user :: user_row
  ud_wallet_balance :: "int option"
  ud_history :: "transaction_out list"

definition user_detail :: "user_row \<Rightarrow> uuid \<Rightarrow> user_detail_out prog" where
  "user_detail admin uid =
     bindP (query (\<lambda>s. filter (\<lambda>u. u_id u = uid) (db_users s))) (\<lambda>us.
     bindP (one_or_none us) (\<lambda>user.
     case user of
       None \<Rightarrow> http 404 Utilisateur_introuvable
     | Some u \<Rightarrow>
         bindP (query (\<lambda>s. filter (\<lambda>w. w_user_id w = u_id u) (db_wallets s))) (\<lambda>ws.
         bindP (one_or_none ws) (\<lambda>wallet.
         bindP (query (\<lambda>s. take 100 (newest_first t_created_at
                  (filter (\<lambda>t. t_user_id t = u_id u) (db_ledger s))))) (\<lambda>history.
         ret \<lparr>ud_user = u, ud_wallet_balance = map_option w_balance wallet,
              ud_history = map transaction_out_of history\<rparr>)))))"

definition update_user_status :: "timestamp \<Rightarrow> user_row \<Rightarrow> uuid \<Rightarrow> bool \<Rightarrow> (uuid \<times> bool) prog" where
  "update_user_status now admin uid active =
     bindP (query (\<lambda>s. filter (\<lambda>u. u_id u = uid) (db_users s))) (\<lambda>us.
     bindP (one_or_none us) (\<lambda>user.
     case user of
       None \<Rightarrow> http 404 Utilisateur_introuvable
     | Some u \<Rightarrow>
         if u_role u = ADMIN then http 400 Blocage_admin_impossible
         else
           bindP (exec (users_update (u_id u) (\<lambda>r. r\<lparr>u_is_active := active, u_updated_at := now\<rparr>))) (\<lambda>_.
           bindP commit (\<lambda>_.
           ret (u_id u, active)))))"

definition credit_user_wallet ::
  "timestamp \<Rightarrow> uuid \<Rightarrow> 128 word \<Rightarrow> user_row \<Rightarrow> uuid \<Rightarrow> rat \<Rightarrow> string \<Rightarrow> (credit_reply \<times> tasks) prog" where
  "credit_user_wallet now i u admin uid amount reason =
     (if \<not> valid_amount amount \<or> length reason < 3 \<or> 200 < length reason then http 422 Validation_error
      else
        bindP (admin_manual_credit now i u uid amount reason (u_id admin)) (\<lambda>result.
        case result of
          Credit_refused m \<Rightarrow> http 400 (Of_service m)
        | Credit_done m ref nb \<Rightarrow>
            ret (result, [(uid, \<lparr>n_title = Solde_recharge, n_body = Ajoute amount,
                    n_data = [(''type'', DStr ''wallet_credited''), (''reference'', DStr ref)]\<rparr>)])))"

section \<open>Identity files\<close>

definition kyc_pending_list :: "user_row \<Rightarrow> (kyc_row \<times> user_row) list prog" where
  "kyc_pending_list admin =
     query (\<lambda>s. concat (map (\<lambda>k. map (\<lambda>u. (k, u)) (filter (\<lambda>u. u_id u = k_user_id k) (db_users s)))
       (oldest_first k_created_at (filter (\<lambda>k. k_status k = KYC_PENDING) (db_kyc s)))))"

definition decided :: "timestamp \<Rightarrow> bool \<Rightarrow> string option \<Rightarrow> kyc_row \<Rightarrow> kyc_row" where
  "decided now approve reason k =
     (if approve then k\<lparr>k_status := KYC_APPROVED, k_review_note := None, k_updated_at := now\<rparr>
      else k\<lparr>k_status := KYC_REJECTED,
             k_review_note := Some (case reason of None \<Rightarrow> ''Document non conforme''
                 | Some r \<Rightarrow> if r = [] then ''Document non conforme'' else r),
             k_updated_at := now\<rparr>)"

datatype kyc_outcome =
    Compte_verifie string
  | Demande_rejetee string
  | Deja kyc_state

definition kyc_apply :: "timestamp \<Rightarrow> kyc_row \<Rightarrow> bool \<Rightarrow> string option \<Rightarrow> kyc_outcome prog" where
  "kyc_apply now k approve reason =
     bindP (query (\<lambda>s. find (\<lambda>u. u_id u = k_user_id k) (db_users s))) (\<lambda>us.
     bindP (scalar_one us) (\<lambda>user.
     bindP (exec (kyc_update (k_id k) (decided now approve reason))) (\<lambda>_.
     bindP commit (\<lambda>_.
     ret (if approve then Compte_verifie (u_full_name user) else Demande_rejetee (u_full_name user))))))"

definition kyc_decide_jwt ::
  "timestamp \<Rightarrow> user_row \<Rightarrow> uuid \<Rightarrow> string \<Rightarrow> string option \<Rightarrow> kyc_outcome prog" where
  "kyc_decide_jwt now admin sid decision reason =
     (if decision \<notin> {''approve'', ''reject''} then http 422 Validation_error
      else
        bindP (query (\<lambda>s. filter (\<lambda>k. k_id k = sid) (db_kyc s))) (\<lambda>rows.
        bindP (one_or_none rows) (\<lambda>submission.
        case submission of
          None \<Rightarrow> http 404 Demande_introuvable
        | Some k \<Rightarrow>
            if k_status k \<noteq> KYC_PENDING then http 409 (Deja_traitee_kyc (k_status k))
            else kyc_apply now k (decision = ''approve'') reason)))"

definition kyc_decide ::
  "security \<Rightarrow> timestamp \<Rightarrow> string \<Rightarrow> uuid \<Rightarrow> string \<Rightarrow> string option \<Rightarrow> kyc_outcome prog" where
  "kyc_decide e now secret sid decision reason =
     (if decision \<notin> {''approve'', ''reject''} then http 422 Validation_error
      else
        bindP (check_secret e secret) (\<lambda>_.
        bindP (query (\<lambda>s. filter (\<lambda>k. k_id k = sid) (db_kyc s))) (\<lambda>rows.
        bindP (one_or_none rows) (\<lambda>submission.
        case submission of
          None \<Rightarrow> http 404 Demande_introuvable
        | Some k \<Rightarrow>
            if k_status k \<noteq> KYC_PENDING then ret (Deja (k_status k))
            else kyc_apply now k (decision = ''approve'') reason))))"

definition kyc_pending_page :: "security \<Rightarrow> string \<Rightarrow> (kyc_row \<times> user_row) list prog" where
  "kyc_pending_page e secret =
     bindP (check_secret e secret) (\<lambda>_.
     query (\<lambda>s. concat (map (\<lambda>k. map (\<lambda>u. (k, u)) (filter (\<lambda>u. u_id u = k_user_id k) (db_users s)))
       (oldest_first k_created_at (filter (\<lambda>k. k_status k = KYC_PENDING) (db_kyc s))))))"

section \<open>Browser routes\<close>

definition list_pending_transactions :: "security \<Rightarrow> string \<Rightarrow> transaction_out list prog" where
  "list_pending_transactions e secret =
     bindP (check_secret e secret) (\<lambda>_.
     query (\<lambda>s. map transaction_out_of (oldest_first t_created_at
       (filter (\<lambda>t. t_status t = PENDING) (db_ledger s)))))"

record history_out =
  ho_user_id :: uuid
  ho_user_phone :: "string option"
  ho_balance :: "int option"
  ho_count :: nat
  ho_history :: "transaction_out list"

definition user_transaction_history :: "security \<Rightarrow> string \<Rightarrow> string \<Rightarrow> history_out prog" where
  "user_transaction_history e secret reference =
     bindP (check_secret e secret) (\<lambda>_.
     bindP (query (\<lambda>s. filter (\<lambda>t. t_reference t = reference) (db_ledger s))) (\<lambda>ts.
     bindP (one_or_none ts) (\<lambda>anchor.
     case anchor of
       None \<Rightarrow> http 404 (Reference_introuvable reference)
     | Some a \<Rightarrow>
         bindP (query (\<lambda>s. filter (\<lambda>u. u_id u = t_user_id a) (db_users s))) (\<lambda>us.
         bindP (one_or_none us) (\<lambda>user.
         bindP (query (\<lambda>s. filter (\<lambda>w. w_user_id w = t_user_id a) (db_wallets s))) (\<lambda>ws.
         bindP (one_or_none ws) (\<lambda>wallet.
         bindP (query (\<lambda>s. oldest_first t_created_at (filter (\<lambda>t. t_user_id t = t_user_id a) (db_ledger s)))) (\<lambda>history.
         ret \<lparr>ho_user_id = t_user_id a, ho_user_phone = map_option u_phone_number user,
              ho_balance = map_option w_balance wallet, ho_count = length history,
              ho_history = map transaction_out_of history\<rparr>))))))))"

definition users_html_page :: "security \<Rightarrow> string \<Rightarrow> string option \<Rightarrow> admin_user_out list prog" where
  "users_html_page e secret search =
     bindP (check_secret e secret) (\<lambda>_.
     bindP (query (users_matching search 500 0)) (\<lambda>rows.
     bindP (query (kyc_map (map (u_id \<circ> fst) rows))) (\<lambda>m.
     ret (map (admin_user_of m) rows))))"

end
