(* ===== verification/Service.thy ===== *)
theory Service
  imports Admin
begin

text \<open>
  The application of \<open>app/main.py\<close>: all routes of the five routers behind one function. A call is
  public (no account), a client's (a bearer token) or an administrator's (a bearer token whose
  account must be ADMIN). \<open>serve\<close> is the program of a call, \<open>handle\<close> runs it in a session of its own
  and then the background tasks it left, each in another session. \<open>served\<close> is the step relation:
  any caller, any call, any randomness.
\<close>

record draws =
  dr_now :: timestamp
  dr_salt :: nat
  dr_id1 :: uuid
  dr_id2 :: uuid
  dr_uuid1 :: "128 word"
  dr_uuid2 :: "128 word"

record 'c env =
  security_of :: security
  fcm_of :: "'c fcm"
  max_chars :: nat
  today_start :: timestamp

datatype public_call =
    Register register_body
  | Login string string
  | Bootstrap string string string
  | Kyc_decide_link string uuid string "string option"
  | Kyc_page string
  | Pending_transactions string
  | User_history string string
  | Users_page string "string option"
  | Health

datatype client_call =
    Me
  | Update_me "string option"
  | My_wallet
  | Declare_payin payin_body
  | Declare_payin_async payin_body
  | Payout_request payout_body
  | Fee_percent
  | Payment_links
  | Transfer rat string
  | My_transactions int
  | Submit_kyc string "string option"
  | Kyc_state
  | Register_device string string

datatype admin_call =
    Dashboard
  | Get_fee
  | Set_fee decimal
  | Get_links
  | Set_links "string option" "string option" "string option" "string option"
  | Pending_payouts
  | Process_payout uuid string "string option"
  | List_transactions "string option" "string option" "string option" int int
  | Daily_stats nat
  | List_users "string option" int int
  | User_detail uuid
  | Set_user_status uuid bool
  | Credit_user uuid rat string
  | Kyc_list
  | Decide_kyc uuid string "string option"
  | Pending_payins
  | Process_payin uuid string "string option"

datatype call =
    Public public_call
  | Client string client_call
  | Administrator string admin_call

datatype answer =
    A_done
  | A_token token_response
  | A_me me_response
  | A_wallet wallet_out
  | A_payin payin_result
  | A_payin_async "string \<times> uuid"
  | A_payout payout_reply
  | A_transfer transfer_reply
  | A_decimal decimal
  | A_links "(string \<times> string option) list"
  | A_transactions "transaction_out list"
  | A_kyc_status kyc_answer
  | A_dashboard dashboard
  | A_pending "pending_out list"
  | A_review review_reply
  | A_page tx_page
  | A_days "day_point list"
  | A_users "admin_user_out list"
  | A_user user_detail_out
  | A_status "uuid \<times> bool"
  | A_credit credit_reply
  | A_kyc_files "(kyc_row \<times> user_row) list"
  | A_kyc_outcome kyc_outcome
  | A_payin_decision payin_decision
  | A_history history_out

definition answers :: "('a \<Rightarrow> answer) \<Rightarrow> 'a prog \<Rightarrow> (answer \<times> tasks) prog" where
  "answers f p = bindP p (\<lambda>x. ret (f x, []))"

definition answers_with_tasks :: "('a \<Rightarrow> answer) \<Rightarrow> ('a \<times> tasks) prog \<Rightarrow> (answer \<times> tasks) prog" where
  "answers_with_tasks f p = bindP p (\<lambda>(x, ts). ret (f x, ts))"

fun serve_public :: "'c env \<Rightarrow> draws \<Rightarrow> public_call \<Rightarrow> (answer \<times> tasks) prog" where
  "serve_public v d (Register b) =
     answers A_token (register (security_of v) (dr_now d) (dr_salt d) (dr_id1 d) (dr_id2 d) b)"
| "serve_public v d (Login ph pin) = answers A_token (login (security_of v) (dr_now d) ph pin)"
| "serve_public v d (Bootstrap ph pin sec) =
     answers A_token (bootstrap_admin (security_of v) (dr_now d) (dr_salt d) (dr_id1 d) (dr_id2 d) ph pin sec)"
| "serve_public v d (Kyc_decide_link sec i dec r) =
     answers A_kyc_outcome (kyc_decide (security_of v) (dr_now d) sec i dec r)"
| "serve_public v d (Kyc_page sec) = answers A_kyc_files (kyc_pending_page (security_of v) sec)"
| "serve_public v d (Pending_transactions sec) =
     answers A_transactions (list_pending_transactions (security_of v) sec)"
| "serve_public v d (User_history sec ref) = answers A_history (user_transaction_history (security_of v) sec ref)"
| "serve_public v d (Users_page sec q) = answers A_users (users_html_page (security_of v) sec q)"
| "serve_public v d Health = answers (\<lambda>_. A_done) (ret ())"

fun serve_client :: "'c env \<Rightarrow> draws \<Rightarrow> user_row \<Rightarrow> client_call \<Rightarrow> (answer \<times> tasks) prog" where
  "serve_client v d user Me = answers A_me (ret (get_me user))"
| "serve_client v d user (Update_me n) = answers A_me (update_me (dr_now d) user n)"
| "serve_client v d user My_wallet = answers A_wallet (get_my_wallet user)"
| "serve_client v d user (Declare_payin b) =
     answers A_payin (declare_payin (dr_now d) (dr_id1 d) (dr_uuid1 d) user b)"
| "serve_client v d user (Declare_payin_async b) =
     answers A_payin_async (declare_payin_async (dr_now d) (dr_id1 d) (dr_uuid1 d) user b)"
| "serve_client v d user (Payout_request b) =
     answers A_payout (payout_request (dr_now d) (dr_id1 d) (dr_uuid1 d) user b)"
| "serve_client v d user Fee_percent = answers A_decimal (get_current_fee_percent user)"
| "serve_client v d user Payment_links = answers A_links (get_current_payment_links user)"
| "serve_client v d user (Transfer a ph) =
     answers A_transfer (bindP (guard (valid_amount a \<and> valid_recipient ph) (Http 422 Validation_error))
       (\<lambda>_. transfer_internal_endpoint (dr_now d) (dr_id1 d) (dr_id2 d) (dr_uuid1 d) (dr_uuid2 d) (fcm_of v) user a ph))"
| "serve_client v d user (My_transactions n) = answers A_transactions (list_my_transactions user n)"
| "serve_client v d user (Submit_kyc doc selfie) =
     answers (\<lambda>_. A_done) (submit_kyc (max_chars v) (dr_now d) (dr_id1 d) user doc selfie)"
| "serve_client v d user Kyc_state = answers A_kyc_status (kyc_status user)"
| "serve_client v d user (Register_device t p) =
     answers (\<lambda>_. A_done) (register_device (dr_now d) (dr_id1 d) user t p)"

fun serve_admin :: "'c env \<Rightarrow> draws \<Rightarrow> user_row \<Rightarrow> admin_call \<Rightarrow> (answer \<times> tasks) prog" where
  "serve_admin v d admin Dashboard = answers A_dashboard (dashboard_stats (today_start v))"
| "serve_admin v d admin Get_fee = answers A_decimal (get_fee_percent_route admin)"
| "serve_admin v d admin (Set_fee p) = answers A_decimal (update_fee_percent_route (dr_now d) admin p)"
| "serve_admin v d admin Get_links = answers A_links (get_payment_links_route admin)"
| "serve_admin v d admin (Set_links w og mt mv) =
     answers A_links (update_payment_links_route (dr_now d) admin w og mt mv)"
| "serve_admin v d admin Pending_payouts = answers A_pending (pending_payouts admin)"
| "serve_admin v d admin (Process_payout t act pf) =
     answers_with_tasks A_review (process_payout_route (dr_now d) (dr_id1 d) admin t act pf)"
| "serve_admin v d admin (List_transactions ty st ph l ofs) =
     answers A_page (list_transactions admin ty st ph l ofs)"
| "serve_admin v d admin (Daily_stats n) = answers A_days (daily_stats (dr_now d) n)"
| "serve_admin v d admin (List_users q l ofs) = answers A_users (list_users admin q l ofs)"
| "serve_admin v d admin (User_detail i) = answers A_user (user_detail admin i)"
| "serve_admin v d admin (Set_user_status i b) = answers A_status (update_user_status (dr_now d) admin i b)"
| "serve_admin v d admin (Credit_user i a r) =
     answers_with_tasks A_credit (credit_user_wallet (dr_now d) (dr_id1 d) (dr_uuid1 d) admin i a r)"
| "serve_admin v d admin Kyc_list = answers A_kyc_files (kyc_pending_list admin)"
| "serve_admin v d admin (Decide_kyc i dec r) = answers A_kyc_outcome (kyc_decide_jwt (dr_now d) admin i dec r)"
| "serve_admin v d admin Pending_payins = answers A_pending (pending_payins admin)"
| "serve_admin v d admin (Process_payin t act pf) =
     answers_with_tasks A_payin_decision (process_payin_route (dr_now d) admin t act pf)"

text \<open>
  The schemas refuse an amount that is not positive before a declaration or a withdrawal is looked
  at; the dependency \<open>get_current_user\<close> runs first on every route that has it.
\<close>

fun body_ok :: "client_call \<Rightarrow> bool" where
  "body_ok (Declare_payin b) = valid_amount (pb_amount b)"
| "body_ok (Declare_payin_async b) = valid_amount (pb_amount b)"
| "body_ok (Payout_request b) = valid_amount (ob_amount b)"
| "body_ok _ = True"

fun serve :: "'c env \<Rightarrow> draws \<Rightarrow> call \<Rightarrow> (answer \<times> tasks) prog" where
  "serve v d (Public c) = serve_public v d c"
| "serve v d (Client token c) =
     bindP (get_current_user (security_of v) (dr_now d) token) (\<lambda>user.
     bindP (guard (body_ok c) (Http 422 Validation_error)) (\<lambda>_.
     serve_client v d user c))"
| "serve v d (Administrator token c) =
     bindP (get_current_user (security_of v) (dr_now d) token) (\<lambda>user.
     bindP (require_admin user) (\<lambda>admin.
     serve_admin v d admin c))"

definition run_tasks :: "'c env \<Rightarrow> tasks \<Rightarrow> db \<Rightarrow> db" where
  "run_tasks v ts s = fold (\<lambda>(u, n). notify_user_background (fcm_of v) u n) ts s"

definition handle :: "'c env \<Rightarrow> draws \<Rightarrow> call \<Rightarrow> db \<Rightarrow> (exn + answer) \<times> db" where
  "handle v d c s =
     (case request (serve v d c) s of
        (Inl e, s') \<Rightarrow> (Inl e, s')
      | (Inr (a, ts), s') \<Rightarrow> (Inr a, run_tasks v ts s'))"

inductive served :: "'c env \<Rightarrow> db \<Rightarrow> db \<Rightarrow> bool" for v where
  start: "served v s s"
| step: "served v s s' \<Longrightarrow> handle v d c s' = (r, s'') \<Longrightarrow> served v s s''"

inductive_cases served_elim: "served v s s'"

lemma handle_cases:
  assumes "handle v d c s = (r, s')"
  obtains (error) e where "request (serve v d c) s = (Inl e, s')" "r = Inl e"
  | (ok) a ts s1 where "request (serve v d c) s = (Inr (a, ts), s1)" "s' = run_tasks v ts s1" "r = Inr a"
  using assms by (auto simp: handle_def split: prod.splits sum.splits)

lemma run_tasks_frame [simp]:
  "db_users (run_tasks v ts s) = db_users s" "db_wallets (run_tasks v ts s) = db_wallets s"
  "db_ledger (run_tasks v ts s) = db_ledger s" "db_settings (run_tasks v ts s) = db_settings s"
  by (induction ts arbitrary: s)
     (auto simp: run_tasks_def notify_user_background_def request_def notify_user_opened split: prod.splits)

end
