(* ===== verification/Schemas.thy ===== *)
theory Schemas
  imports Service
begin

text \<open>
  \<open>app/schemas.py\<close>: from the JSON of a request to the arguments of a call, as pydantic 2 validates in
  its lax mode. A \<open>py_value\<close> is what Python's \<open>json.loads\<close> makes of a document (a float is the decimal
  that it prints as); a function \<open>x_of\<close> is the model class X, \<open>None\<close> when it refuses. Unknown
  fields are ignored. The constraints of a field that the model of a handler already checks
  (lengths, ranges, patterns) are left to it, they answer 422 too.
\<close>

datatype py_value =
    V_none
  | V_bool bool
  | V_int int
  | V_float decimal
  | V_str string
  | V_list "py_value list"
  | V_dict "(string \<times> py_value) list"

type_synonym fields = "(string \<times> py_value) list"

section \<open>Types of fields\<close>

text \<open>\<open>str\<close>: no other type is converted.\<close>

fun as_str :: "py_value \<Rightarrow> string option" where
  "as_str (V_str s) = Some s"
| "as_str _ = None"

text \<open>\<open>str | None\<close>.\<close>

fun as_opt_str :: "py_value \<Rightarrow> string option option" where
  "as_opt_str V_none = Some None"
| "as_opt_str (V_str s) = Some (Some s)"
| "as_opt_str _ = None"

text \<open>\<open>Decimal\<close>: of an integer, of a float through its text, of a text as \<open>Decimal(text)\<close> reads it;
  neither NaN nor Infinity is accepted.\<close>

fun as_decimal :: "py_value \<Rightarrow> decimal option" where
  "as_decimal (V_int n) = Some (Dec n 0)"
| "as_decimal (V_float d) = Some d"
| "as_decimal (V_str s) = dec_parse (filter (\<lambda>c. c \<noteq> CHR ''_'') (strip s))"
| "as_decimal _ = None"

text \<open>\<open>bool\<close>: also 0 and 1, and the usual words.\<close>

fun as_bool :: "py_value \<Rightarrow> bool option" where
  "as_bool (V_bool b) = Some b"
| "as_bool (V_int n) = (if n = 0 then Some False else if n = 1 then Some True else None)"
| "as_bool (V_float d) = (if dec_val d = 0 then Some False else if dec_val d = 1 then Some True else None)"
| "as_bool (V_str s) =
     (if lower s \<in> {''0'', ''off'', ''f'', ''false'', ''n'', ''no''} then Some False
      else if lower s \<in> {''1'', ''on'', ''t'', ''true'', ''y'', ''yes''} then Some True else None)"
| "as_bool _ = None"

definition need :: "(py_value \<Rightarrow> 'a option) \<Rightarrow> string \<Rightarrow> fields \<Rightarrow> 'a option" where
  \<comment> \<open>a field without default\<close>
  "need f k ob = (case map_of ob k of None \<Rightarrow> None | Some v \<Rightarrow> f v)"

definition default_to :: "'a \<Rightarrow> (py_value \<Rightarrow> 'a option) \<Rightarrow> string \<Rightarrow> fields \<Rightarrow> 'a option" where
  "default_to d f k ob = (case map_of ob k of None \<Rightarrow> Some d | Some v \<Rightarrow> f v)"

abbreviation need_str :: "string \<Rightarrow> fields \<Rightarrow> string option" where
  "need_str \<equiv> need as_str"

abbreviation opt_str :: "string \<Rightarrow> fields \<Rightarrow> string option option" where
  "opt_str \<equiv> default_to None as_opt_str"

definition and_then :: "'a option \<Rightarrow> ('a \<Rightarrow> 'b option) \<Rightarrow> 'b option" where
  "and_then m f = (case m of None \<Rightarrow> None | Some x \<Rightarrow> f x)"

definition of_dict :: "(fields \<Rightarrow> 'a option) \<Rightarrow> py_value \<Rightarrow> 'a option" where
  "of_dict f v = (case v of V_dict ob \<Rightarrow> f ob | _ \<Rightarrow> None)"

lemma and_then_Some: "and_then m f = Some y \<longleftrightarrow> (\<exists>x. m = Some x \<and> f x = Some y)"
  by (auto simp: and_then_def split: option.splits)

section \<open>Accounts\<close>

definition register_body_of :: "py_value \<Rightarrow> register_body option" where
  "register_body_of = of_dict (\<lambda>ob.
     and_then (need_str ''phone_number'' ob) (\<lambda>ph.
     and_then (opt_str ''full_name'' ob) (\<lambda>name.
     and_then (need_str ''pin_code'' ob) (\<lambda>pin.
     Some \<lparr>rb_phone_number = ph, rb_full_name = name, rb_pin_code = pin\<rparr>))))"

definition login_of :: "py_value \<Rightarrow> (string \<times> string) option" where
  "login_of = of_dict (\<lambda>ob.
     and_then (need_str ''phone_number'' ob) (\<lambda>ph.
     and_then (need_str ''pin_code'' ob) (\<lambda>pin.
     Some (ph, pin))))"

definition bootstrap_of :: "py_value \<Rightarrow> (string \<times> string \<times> string) option" where
  "bootstrap_of = of_dict (\<lambda>ob.
     and_then (need_str ''admin_phone'' ob) (\<lambda>ph.
     and_then (need_str ''admin_pin'' ob) (\<lambda>pin.
     and_then (need_str ''bootstrap_secret'' ob) (\<lambda>secret.
     Some (ph, pin, secret)))))"

definition me_update_of :: "py_value \<Rightarrow> string option option" where
  "me_update_of = of_dict (opt_str ''full_name'')"

section \<open>Money\<close>

definition payin_body_of :: "py_value \<Rightarrow> payin_body option" where
  "payin_body_of = of_dict (\<lambda>ob.
     and_then (need as_decimal ''amount'' ob) (\<lambda>a.
     and_then (need_str ''provider'' ob) (\<lambda>prov.
     and_then (need_str ''phone_number'' ob) (\<lambda>ph.
     and_then (opt_str ''proof_ref'' ob) (\<lambda>pf.
     and_then (default_to ''CLIENT_DECLARATION'' as_str ''declared_via'' ob) (\<lambda>via.
     Some \<lparr>pb_amount = dec_val a, pb_provider = prov, pb_phone_number = ph, pb_proof_ref = pf,
           pb_declared_via = via\<rparr>))))))"

definition payout_body_of :: "py_value \<Rightarrow> payout_body option" where
  "payout_body_of = of_dict (\<lambda>ob.
     and_then (need as_decimal ''amount'' ob) (\<lambda>a.
     and_then (need_str ''provider'' ob) (\<lambda>prov.
     and_then (need_str ''phone_number'' ob) (\<lambda>ph.
     Some \<lparr>ob_amount = dec_val a, ob_provider = prov, ob_phone_number = ph\<rparr>))))"

definition transfer_of :: "py_value \<Rightarrow> (rat \<times> string) option" where
  "transfer_of = of_dict (\<lambda>ob.
     and_then (need as_decimal ''amount'' ob) (\<lambda>a.
     and_then (need_str ''recipient_phone'' ob) (\<lambda>ph.
     Some (dec_val a, ph))))"

text \<open>The schemas of the operators' webhooks and of the SMS listener; no route uses them.\<close>

record payin_webhook =
  pw_reference :: "string option"
  pw_provider :: string
  pw_proof_ref :: string
  pw_amount :: rat
  pw_phone_number :: string
  pw_status :: string
  pw_signature :: "string option"

definition payin_webhook_of :: "py_value \<Rightarrow> payin_webhook option" where
  "payin_webhook_of = of_dict (\<lambda>ob.
     and_then (opt_str ''reference'' ob) (\<lambda>ref.
     and_then (need_str ''provider'' ob) (\<lambda>prov.
     and_then (need_str ''proof_ref'' ob) (\<lambda>pf.
     and_then (need as_decimal ''amount'' ob) (\<lambda>a.
     and_then (need_str ''phone_number'' ob) (\<lambda>ph.
     and_then (default_to ''SUCCESS'' as_str ''status'' ob) (\<lambda>st.
     and_then (opt_str ''signature'' ob) (\<lambda>sg.
     if valid_amount (dec_val a)
     then Some \<lparr>pw_reference = ref, pw_provider = prov, pw_proof_ref = pf, pw_amount = dec_val a,
           pw_phone_number = ph, pw_status = st, pw_signature = sg\<rparr>
     else None))))))))"

record sms_notice =
  sn_provider :: string
  sn_body :: string
  sn_from_number :: "string option"
  sn_token :: string

definition sms_notice_of :: "py_value \<Rightarrow> sms_notice option" where
  "sms_notice_of = of_dict (\<lambda>ob.
     and_then (need_str ''provider'' ob) (\<lambda>prov.
     and_then (need_str ''body'' ob) (\<lambda>bd.
     and_then (opt_str ''from_number'' ob) (\<lambda>fr.
     and_then (need_str ''token'' ob) (\<lambda>tok.
     Some \<lparr>sn_provider = prov, sn_body = bd, sn_from_number = fr, sn_token = tok\<rparr>)))))"

section \<open>Identity files and devices\<close>

definition kyc_submit_of :: "py_value \<Rightarrow> (string \<times> string option) option" where
  "kyc_submit_of = of_dict (\<lambda>ob.
     and_then (need_str ''id_document_base64'' ob) (\<lambda>doc.
     and_then (opt_str ''selfie_base64'' ob) (\<lambda>selfie.
     Some (doc, selfie))))"

definition device_of :: "py_value \<Rightarrow> (string \<times> string) option" where
  "device_of = of_dict (\<lambda>ob.
     and_then (need_str ''fcm_token'' ob) (\<lambda>tok.
     and_then (default_to ''android'' as_str ''platform'' ob) (\<lambda>p.
     Some (tok, p))))"

section \<open>Administration\<close>

definition admin_action_of :: "py_value \<Rightarrow> (string \<times> string option) option" where
  "admin_action_of = of_dict (\<lambda>ob.
     and_then (need_str ''action'' ob) (\<lambda>act.
     and_then (opt_str ''proof_ref'' ob) (\<lambda>pf.
     and_then (opt_str ''note'' ob) (\<lambda>_.
     Some (act, pf)))))"

definition fee_update_of :: "py_value \<Rightarrow> decimal option" where
  "fee_update_of = of_dict (need as_decimal ''fee_percent'')"

definition status_update_of :: "py_value \<Rightarrow> bool option" where
  "status_update_of = of_dict (need as_bool ''is_active'')"

definition kyc_decision_of :: "py_value \<Rightarrow> (string \<times> string option) option" where
  "kyc_decision_of = of_dict (\<lambda>ob.
     and_then (need_str ''decision'' ob) (\<lambda>dec.
     and_then (opt_str ''reason'' ob) (\<lambda>r.
     Some (dec, r))))"

definition admin_credit_of :: "py_value \<Rightarrow> (rat \<times> string) option" where
  "admin_credit_of = of_dict (\<lambda>ob.
     and_then (need as_decimal ''amount'' ob) (\<lambda>a.
     and_then (need_str ''reason'' ob) (\<lambda>r.
     Some (dec_val a, r))))"

definition links_of :: "py_value \<Rightarrow> (string option \<times> string option \<times> string option \<times> string option) option" where
  "links_of = of_dict (\<lambda>ob.
     and_then (opt_str ''wave'' ob) (\<lambda>w.
     and_then (opt_str ''orange'' ob) (\<lambda>og.
     and_then (opt_str ''mtn'' ob) (\<lambda>mt.
     and_then (opt_str ''moov'' ob) (\<lambda>mv.
     Some (w, og, mt, mv))))))"

section \<open>Query parameters\<close>

text \<open>\<open>int\<close> of a text: blanks around it, a sign, digits, and zeros after a point (underscores
  between digits are not read).\<close>

definition int_of_text :: "string \<Rightarrow> int option" where
  "int_of_text s =
     (let (neg, t) = split_sign (strip s); ds = takeWhile is_digit t; rest = dropWhile is_digit t in
      if ds \<noteq> [] \<and> (rest = [] \<or> (hd rest = CHR ''.'' \<and> tl rest \<noteq> [] \<and> list_all (\<lambda>c. c = CHR ''0'') (tl rest)))
      then Some (if neg then - int (digits_val ds) else int (digits_val ds))
      else None)"

lemma int_of_text_str: "int_of_text (nat_str n) = Some (int n)"
proof -
  have d: "list_all is_digit (nat_str n)" "nat_str n \<noteq> []" by (simp_all add: nat_str_digits)
  have sp: "\<not> is_space c" if "is_digit c" for c
    using that by (auto simp: is_digit_def is_space_def Let_def)
  have "strip (nat_str n) = nat_str n"
  proof -
    have "dropWhile is_space t = t" if "list_all is_digit t" for t
      using that sp by (cases t) auto
    with d(1) show ?thesis by (simp add: strip_def list_all_rev)
  qed
  moreover have "split_sign (nat_str n) = (False, nat_str n)"
    using split_sign_digits [OF d, of "[]"] by simp
  ultimately show ?thesis
    using d(2) d(1) [unfolded list_all_iff] by (simp add: int_of_text_def Let_def list_all_digits_only [OF d(1)])
qed

type_synonym query_args = "(string \<times> string) list"

definition arg :: "string \<Rightarrow> query_args \<Rightarrow> string option" where
  \<comment> \<open>of a parameter given twice the last one counts\<close>
  "arg k q = map_of (rev q) k"

definition int_arg :: "string \<Rightarrow> int \<Rightarrow> query_args \<Rightarrow> int option" where
  "int_arg k d q = (case arg k q of None \<Rightarrow> Some d | Some s \<Rightarrow> int_of_text s)"

end
