(* ===== verification/LedgerContract.thy ===== *)
theory LedgerContract
  imports Samples
begin

text \<open>
  The contract of the ledger: exactly-once credits, exact debits and refunds, conservation of
  money in transfers, and the places where the functions do not keep what they promise.
  The balances are those of \<open>balance\<close>, money is counted in hundredths.
\<close>

section \<open>Uniqueness of proofs\<close>

lemma distinct_proof_keys:
  "distinct ts \<Longrightarrow> distinct (proof_keys ts) \<longleftrightarrow>
   (\<forall>t \<in> set ts. \<forall>t' \<in> set ts. t_proof_ref t \<noteq> None \<longrightarrow> t_proof_ref t = t_proof_ref t' \<longrightarrow>
      t_provider t = t_provider t' \<longrightarrow> t = t')"
  unfolding proof_keys_def distinct_map
  by (auto simp: inj_on_def)

lemma wf_mark_credited:
  assumes wf: "wf_db s" and tx: "tx \<in> set (db_ledger s)" and len: "length_ok 100 p"
    and fresh: "\<not> proof_used_elsewhere p tx (db_ledger s)"
  shows "wf_ledger (update_where (\<lambda>t. t_id t = t_id tx) (mark_credited p n) (db_ledger s))"
    (is "wf_ledger ?ts")
proof -
  let ?f = "mark_credited p n" and ?L = "db_ledger s"
  have ids: "distinct (map t_id ?L)" and refs: "distinct (map t_reference ?L)"
    using wf wf_ledgerD by auto
  have old: "\<forall>t \<in> set ?L. \<forall>t' \<in> set ?L. t_proof_ref t \<noteq> None \<longrightarrow> t_proof_ref t = t_proof_ref t' \<longrightarrow>
      t_provider t = t_provider t' \<longrightarrow> t = t'"
    using wf distinct_proof_keys [of ?L] ids by (simp add: wf_db_def wf_ledger_def distinct_map)
  have set: "set ?ts = insert (?f tx) (set ?L - {tx})"
    using tx ids by (auto simp: update_where_key_eq)
  have ids': "map t_id ?ts = map t_id ?L" and refs': "map t_reference ?ts = map t_reference ?L"
    using credited_ids.keys_update [of _ "(p, n)"] credited_refs.keys_update [of _ "(p, n)"] by simp_all
  have clash: False if "t \<in> set ?L" "t \<noteq> tx" "coalesce (t_proof_ref tx) p = t_proof_ref t"
    "t_proof_ref t \<noteq> None" "t_provider t = t_provider tx" for t
  proof (cases "t_proof_ref tx")
    case None
    with that have "t_proof_ref t = p" "p \<noteq> None" by (auto simp: coalesce_def)
    moreover have "t_reference t \<noteq> t_reference tx"
      using that tx refs by (auto simp: distinct_map inj_on_def)
    ultimately show False using fresh that by (auto simp: proof_used_elsewhere_def list_ex_iff)
  next
    case (Some q)
    with that old tx show False by (auto simp: coalesce_def)
  qed
  have "distinct ?ts" using ids ids' distinct_map [of t_id ?ts] by metis
  then have "distinct (proof_keys ?ts)"
    unfolding distinct_proof_keys [OF \<open>distinct ?ts\<close>] set
    using old clash by (simp add: Ball_def) metis
  moreover have "list_all ledger_row_ok ?ts"
    using wf tx len unfolding list_all_iff set
    by (auto simp: wf_db_def wf_ledger_def list_all_iff ledger_row_ok_def length_ok_def
        mark_credited_def coalesce_def split: option.splits)
  ultimately show ?thesis using ids refs by (simp add: wf_ledger_def ids' refs')
qed

section \<open>Deposits\<close>

text \<open>C3: a confirmed deposit is credited exactly. When \<open>process_payin_credit\<close> succeeds, the
  reference was that of a PENDING or FAILED transaction, the confirmed amount (if one is given)
  is the declared one, its owner's balance grows by exactly the declared amount and nobody
  else's changes, and of the ledger only that row changes: it becomes SUCCESS.\<close>

theorem payin_credit_exact:
  assumes "wf_db s" "process_payin_credit now ref proof conf s = Inr (Payin_credited i a nb, s')"
  shows "\<exists>tx. tx_by_reference ref s = Some tx \<and> t_id tx = i \<and> t_amount tx = a \<and>
     (t_status tx = PENDING \<or> t_status tx = FAILED) \<and>
     (conf = None \<or> conf = Some (cents a)) \<and>
     (\<forall>u. balance s' u = (if u = t_user_id tx then map_option (\<lambda>b. b + a) (balance s u) else balance s u)) \<and>
     nb = balance s' (t_user_id tx) \<and>
     db_ledger s' = update_where (\<lambda>t. t_reference t = ref) (mark_credited proof now) (db_ledger s) \<and>
     map_option t_status (tx_by_reference ref s') = Some SUCCESS \<and> wf_db s'"
  using assms(2)
proof (cases rule: payin_credit_cases)
  case (credited tx ws)
  have tx: "tx \<in> set (db_ledger s)" "t_reference tx = ref"
    using tx_by_reference_SomeD [OF credited(1)] by auto
  have bal: "balance s' u = (if u = t_user_id tx then map_option (\<lambda>b. b + a) (balance s u) else balance s u)" for u
    using wallets.bal_add_cents [OF _ credited(5), of u] wf_ledgerD(3) [OF assms(1)] credited(7,8)
    by (simp add: balance_def)
  have led: "db_ledger s' = update_where (\<lambda>t. t_reference t = ref) (mark_credited proof now) (db_ledger s)"
    using credited(8) update_by_id_or_reference [OF assms(1) tx(1)] tx(2) by simp
  have "tx_by_reference ref s' = Some (mark_credited proof now tx)"
    using credited(1) credited_refs.find_key_update [of ref ref "(proof, now)" "db_ledger s"]
    by (simp add: tx_by_reference_def led)
  with credited bal led payin_credit_wf [OF assms] show ?thesis by auto
qed simp

theorem payin_credit_exact_witness:
  "balance (state_after sample_db (process_payin_credit 7 ''PI-1'' (Some ''OM9'') (Some 50) sample_db)) 2
   = balance sample_db 2"
proof -
  have "reply_of (process_payin_credit 7 ''PI-1'' (Some ''OM9'') (Some 50) sample_db)
      = Some (Payin_credited 100 5000 (Some 15000))" by code_simp
  note run = run_split [OF this, of sample_db]
  obtain tx where "tx_by_reference ''PI-1'' sample_db = Some tx"
    "\<forall>u. balance (state_after sample_db (process_payin_credit 7 ''PI-1'' (Some ''OM9'') (Some 50) sample_db)) u
      = (if u = t_user_id tx then map_option (\<lambda>b. b + 5000) (balance sample_db u) else balance sample_db u)"
    using payin_credit_exact [OF wf_sample_db run] by blast
  moreover have "map_option t_user_id (tx_by_reference ''PI-1'' sample_db) = Some 1" by code_simp
  ultimately show ?thesis by simp
qed

text \<open>C2: a deposit is credited at most once. After a successful credit, any further call with
  the same reference, whatever proof and amount it brings, is refused as already credited and
  leaves the database as it is.\<close>

theorem payin_credit_once:
  assumes "wf_db s" "process_payin_credit now ref proof conf s = Inr (Payin_credited i a nb, s')"
  shows "process_payin_credit now' ref proof' conf' s' = Inr (Payin_refused Deja_creditee, s')"
proof -
  obtain tx where "tx_by_reference ref s' = Some tx" "t_status tx = SUCCESS"
    using payin_credit_exact [OF assms] by (auto simp: map_option_case split: option.splits)
  then show ?thesis by (simp add: process_payin_credit_def)
qed

theorem payin_credit_once_witness:
  "process_payin_credit 9 ''PI-1'' (Some ''OM10'') None
     (state_after sample_db (process_payin_credit 7 ''PI-1'' (Some ''OM9'') (Some 50) sample_db))
   = Inr (Payin_refused Deja_creditee,
     state_after sample_db (process_payin_credit 7 ''PI-1'' (Some ''OM9'') (Some 50) sample_db))"
proof -
  have "reply_of (process_payin_credit 7 ''PI-1'' (Some ''OM9'') (Some 50) sample_db)
      = Some (Payin_credited 100 5000 (Some 15000))" by code_simp
  from payin_credit_once [OF wf_sample_db run_split [OF this]] show ?thesis .
qed

text \<open>C16: a deposit that may be credited is. If the transaction is PENDING or FAILED, the proof
  fits its column and is not used by another transaction of the provider, the confirmed amount
  matches, and the wallet does not overflow, the function credits it: no constraint of the
  schema (in particular not the unique index on proofs) can refuse the statement.\<close>

theorem payin_credit_accepted:
  assumes "wf_db s" "tx_by_reference ref s = Some tx" "t_status tx = PENDING \<or> t_status tx = FAILED"
    and "length_ok 100 proof" "\<not> proof_used_elsewhere proof tx (db_ledger s)"
    and "conf = None \<or> conf = Some (cents (t_amount tx))"
    and "\<forall>b. balance s (t_user_id tx) = Some b \<longrightarrow> b + t_amount tx < 10 ^ 15"
  shows "\<exists>nb s'. process_payin_credit now ref proof conf s
           = Inr (Payin_credited (t_id tx) (t_amount tx) nb, s')"
proof -
  have tx: "tx \<in> set (db_ledger s)" using tx_by_reference_SomeD [OF assms(2)] by simp
  obtain ws where ws: "wallet_add (t_user_id tx) (cents (t_amount tx)) now (db_wallets s) = Inr ws"
    using wallets.credit_accepted [of "db_wallets s" "t_amount tx" "t_user_id tx" now]
      wf_ledgerD(3) [OF assms(1)] wf_ledger_bounds [OF assms(1) tx] assms(7)
    by (auto simp: balance_def)
  have "wf_ledger (update_where (\<lambda>t. t_id t = t_id tx) (mark_credited proof now) (db_ledger s))"
    by (rule wf_mark_credited [OF assms(1) tx assms(4,5)])
  with ws assms(2,3,5,6) show ?thesis
    by (auto simp: process_payin_credit_def wallets_update_def ledger_update_def ledger_check_def
        wf_ledger_def ledger_row_ok_def list_all_iff)
qed

theorem payin_credit_accepted_witness:
  "\<exists>nb s'. process_payin_credit 7 ''PI-1'' (Some ''OM9'') None sample_db = Inr (Payin_credited 100 5000 nb, s')"
proof -
  let ?t = "sample_tx 100 ''PI-1'' 1 PAY_IN ORANGE 5000 None"
  have 1: "tx_by_reference ''PI-1'' sample_db = Some ?t" by code_simp
  have 2: "\<not> proof_used_elsewhere (Some ''OM9'') ?t (db_ledger sample_db)" by code_simp
  have "balance sample_db (t_user_id ?t) = Some 10000" by code_simp
  then have 3: "\<forall>b. balance sample_db (t_user_id ?t) = Some b \<longrightarrow> b + t_amount ?t < 10 ^ 15"
    by (simp add: sample_tx_def)
  have 4: "t_status ?t = PENDING \<or> t_status ?t = FAILED" "length_ok 100 (Some ''OM9'')"
    "t_id ?t = 100" "t_amount ?t = 5000"
    by (simp_all add: sample_tx_def length_ok_def)
  from payin_credit_accepted [OF wf_sample_db 1 4(1,2) 2 _ 3, of None 7, unfolded 4]
  show ?thesis by simp
qed

section \<open>Withdrawals\<close>

text \<open>What a reserved withdrawal does. On success the wallet existed and covered the amount,
  a single PENDING PAY_OUT row with the amount rounded to hundredths is appended, other wallets
  keep their balance, and the owner's balance goes down by exactly the recorded amount, unless
  the requested amount has a half cent: then it goes down by one cent less.\<close>

lemma payout_effect:
  assumes "wf_db s" "0 < a"
    and "process_payout_deduction now i u a ref prov ph s = Inr (Payout_reserved r j nb, s')"
  shows "\<exists>b t. balance s u = Some b \<and> a \<le> cents b \<and>
     db_ledger s' = db_ledger s @ [t] \<and> t_user_id t = u \<and> t_type t = PAY_OUT \<and>
     t_status t = PENDING \<and> t_reference t = ref \<and> t_provider t = prov \<and> t_amount t = round_half_away (100 * a) \<and> t_fee t = 0 \<and>
     balance s' u = Some (b - t_amount t + (if 100 * a = of_int \<lfloor>100 * a\<rfloor> + 1/2 then 1 else 0)) \<and>
     (\<forall>v. v \<noteq> u \<longrightarrow> balance s' v = balance s v)"
  using assms(3)
proof (cases rule: payout_deduction_cases)
  case (reserved b ws t)
  have ws: "wf_wallets (db_wallets s)" using wf_ledgerD(3) [OF assms(1)] .
  have "100 * a \<le> of_int b" using reserved(2) by (simp add: cents_def)
  then have "balance_in ws u = Some (b - round_half_away (100 * a) +
      (if 100 * a = of_int \<lfloor>100 * a\<rfloor> + 1/2 then 1 else 0))"
    using wallets.debit_covered [OF ws reserved(3)] assms(2) reserved(1) by (simp add: balance_def)
  moreover have "balance_in ws v = balance_in (db_wallets s) v" if "v \<noteq> u" for v
    using wallets.bal_add [OF ws reserved(3), of v] that by simp
  ultimately show ?thesis
    using reserved by (auto simp: balance_def intro!: exI [of _ b] exI [of _ t])
qed simp


section \<open>The administrator's review\<close>

text \<open>C4: a rejected withdrawal is refunded exactly once. When \<open>admin_process_payout\<close> succeeds
  the transaction was PENDING; APPROVE makes it SUCCESS and moves no money, REJECT makes it
  CANCELLED and gives its owner exactly the amount of the row back; and no second call on the
  same transaction, with either action, changes anything any more.\<close>

theorem admin_review_once:
  assumes "wf_db s" "sql_admin_process_payout now i tid act proof adm s = Inr (Review_done m, s')"
  shows "\<exists>tx. tx_by_id tid s = Some tx \<and> t_status tx = PENDING \<and>
     map_option t_status (tx_by_id tid s') = Some (if act = ''APPROVE'' then SUCCESS else CANCELLED) \<and>
     (\<forall>u. balance s' u = (if act = ''REJECT'' \<and> u = t_user_id tx
                           then map_option (\<lambda>b. b + t_amount tx) (balance s u) else balance s u)) \<and>
     (\<forall>now' i' act' proof' adm'. \<exists>st. sql_admin_process_payout now' i' tid act' proof' adm' s'
        = Inr (Review_refused (Deja_traitee st), s'))"
  using assms(2)
proof (cases rule: admin_review_cases)
  case (approved tx al)
  have "tx_by_id tid s' = Some (mark_paid proof now tx)"
    using approved(1,6) paid_ids.find_key_update [of tid tid "(proof, now)" "db_ledger s"]
    by (simp add: tx_by_id_def)
  with approved show ?thesis by (auto simp: sql_admin_process_payout_def)
next
  case (rejected tx ws al)
  have "tx_by_id tid s' = Some (mark_rejected adm now tx)"
    using rejected(1,7) rejected_ids.find_key_update [of tid tid "(adm, now)" "db_ledger s"]
    by (simp add: tx_by_id_def)
  moreover have "balance s' u = (if u = t_user_id tx then map_option (\<lambda>b. b + t_amount tx) (balance s u)
      else balance s u)" for u
    using wallets.bal_add_cents [OF _ rejected(5), of u] wf_ledgerD(3) [OF assms(1)] rejected(7)
    by (simp add: balance_def)
  ultimately show ?thesis using rejected by (auto simp: sql_admin_process_payout_def)
qed simp

theorem admin_review_once_witness:
  "balance (state_after sample_db (sql_admin_process_payout 7 300 101 ''REJECT'' None 9 sample_db)) 2 = Some 5000"
proof -
  have "reply_of (sql_admin_process_payout 7 300 101 ''REJECT'' None 9 sample_db) = Some (Review_done Pay_out_rejete)"
    by code_simp
  from admin_review_once [OF wf_sample_db run_split [OF this, of sample_db]]
  obtain tx where tx: "tx_by_id 101 sample_db = Some tx"
    and b: "balance (state_after sample_db (sql_admin_process_payout 7 300 101 ''REJECT'' None 9 sample_db)) 2
      = (if 2 = t_user_id tx then map_option (\<lambda>b. b + t_amount tx) (balance sample_db 2) else balance sample_db 2)"
    by auto
  have "map_option (\<lambda>t. (t_user_id t, t_amount t)) (tx_by_id 101 sample_db) = Some (2, 3000)"
    "balance sample_db 2 = Some 2000" by code_simp+
  with tx b show ?thesis by simp
qed


definition two_claims_db :: db where
  "two_claims_db = sample_db\<lparr>db_ledger :=
     [sample_tx 100 ''PI-1'' 1 PAY_IN ORANGE 5000 (Some ''x1''),
      sample_tx 102 ''PI-2'' 1 PAY_IN ORANGE 5000 (Some ''x2'')]\<rparr>"


section \<open>Internal transfers\<close>

text \<open>An internal transfer conserves money, for every amount, fractions of a cent included.
  On success sender and recipient are different users with wallets, the recipient receives the
  rounded amount, the sender pays exactly that plus the fee, the fee is the only money that
  leaves the wallets, nobody else is touched, and the two ledger rows carry the same amounts
  that were moved.\<close>

lemma transfer_effect:
  assumes "wf_db s" "0 \<le> pct"
    and "process_internal_transfer now io ii snd_id a ph rs rr pct s = Inr (Transfer_done r1 r2 n fee tot nb, s')"
  shows "n = a \<and> (\<exists>u b b' t1 t2. find (\<lambda>u. u_phone_number u = ph) (db_users s) = Some u \<and> u_id u \<noteq> snd_id \<and>
     balance s snd_id = Some b \<and> balance s (u_id u) = Some b' \<and>
     fee = round_half_away (a * pct) \<and> tot = round_half_away (100 * a) + fee \<and> tot \<le> b \<and>
     balance s' snd_id = Some (b - tot) \<and> nb = b - tot \<and>
     balance s' (u_id u) = Some (b' + round_half_away (100 * a)) \<and>
     (\<forall>v. v \<noteq> snd_id \<longrightarrow> v \<noteq> u_id u \<longrightarrow> balance s' v = balance s v) \<and>
     total_money s' = total_money s - fee \<and>
     db_ledger s' = db_ledger s @ [t1, t2] \<and> t_user_id t1 = snd_id \<and> t_user_id t2 = u_id u \<and>
     t_amount t1 + t_fee t1 = tot \<and> t_amount t2 = round_half_away (100 * a) \<and> t_fee t2 = 0)"
  using assms(3)
proof (cases rule: internal_transfer_cases)
  case (moved u b b' f tt ws1 ws t1 t2 sp)
  let ?A = "round_half_away (100 * a)"
  have w0: "wf_wallets (db_wallets s)" using wf_ledgerD(3) [OF assms(1)] .
  have w1: "wf_wallets ws1" using wallets.inv_add [OF w0 moved(9)] .
  have "0 \<le> f" using moved(1,7) assms(2) by (simp add: round_half_away_nonneg)
  then have tot: "tt = ?A + f"
    using moved(1,8) round_half_away_add_int [of "100 * a" f] by (simp add: add.commute)
  have b1: "balance_in ws1 v = (if v = snd_id then map_option (\<lambda>b. b + - tt) (balance_in (db_wallets s) snd_id)
      else balance_in (db_wallets s) v)" for v
    by (rule wallets.bal_add_cents [OF w0 moved(9)])
  have r: "balance_in ws (u_id u) = Some (b' + ?A)"
    using wallets.credit_nonneg [OF w1 moved(10)] b1 [of "u_id u"] moved(1,3,5) by (simp add: balance_def)
  have o: "balance_in ws v = balance_in ws1 v" if "v \<noteq> u_id u" for v
    using wallets.bal_add [OF w1 moved(10), of v] that by simp
  have total: "total_balance ws = total_balance (db_wallets s) - tt + ?A"
    using wallets.move_total [OF w0 moved(9,10)] moved(1,3,4,5) by (auto simp: balance_def)
  show ?thesis
    using moved tot r o b1 total
    by (intro conjI exI [of _ u] exI [of _ b] exI [of _ b'] exI [of _ t1] exI [of _ t2])
       (auto simp: balance_def total_money_def)
qed simp

end
