(* ===== verification/ServiceContract.thy ===== *)
theory ServiceContract
  imports WalletApi LedgerContract
begin

text \<open>
  What the service functions and the routes of the wallet promise, on whole requests: the
  references they generate, exactly one row per declared deposit, settings that are read back
  as written, credits and transfers at the configured fee, and no trace of a request that
  ended in an exception.
\<close>

section \<open>References\<close>

lemma length_uuid_hex [simp]: "length (uuid_hex u) = 32"
  by (simp add: uuid_hex_def)

lemma hex_digit_inj:
  assumes "m < 16" "n < 16"
  shows "upper_char (hex_digit m) = upper_char (hex_digit n) \<longleftrightarrow> m = n"
proof -
  have "\<forall>m \<in> set [0..<16]. \<forall>n \<in> set [0..<16].
      (upper_char (hex_digit m) = upper_char (hex_digit n)) = (m = n)" by code_simp
  with assms show ?thesis by simp
qed

lemma nibble_bound: "unat (drop_bit k (u :: 128 word) AND 15) < 16"
proof -
  have "drop_bit k u AND 15 \<le> 15" by (rule word_and_le1)
  then show ?thesis by (simp add: word_le_nat_alt)
qed

lemma nibbles_determine:
  assumes "\<And>k. 24 \<le> k \<Longrightarrow> k < 32 \<Longrightarrow> drop_bit (4 * k) u AND 15 = drop_bit (4 * k) v AND (15 :: 128 word)"
  shows "drop_bit 96 u = drop_bit 96 v"
proof (rule bit_word_eqI)
  fix n
  assume n: "n < LENGTH(128)"
  show "bit (drop_bit 96 u) n = bit (drop_bit 96 v) n"
  proof (cases "n < 32")
    case True
    define k j where "k = 24 + n div 4" and "j = n mod 4"
    have k: "24 \<le> k" "k < 32" "96 + n = 4 * k + j" "j < 4" using True by (auto simp: k_def j_def)
    have m15: "(15 :: 128 word) = mask 4" by (simp add: mask_eq_exp_minus_1)
    have "bit (drop_bit (4 * k) w AND 15) j = bit w (96 + n)" for w :: "128 word"
      unfolding m15 using k(3,4) by (simp add: bit_and_iff bit_drop_bit_eq bit_mask_iff)
    with assms [OF k(1,2)] show ?thesis by (metis bit_drop_bit_eq comp_apply)
  next
    case False
    then show ?thesis by (auto simp: bit_drop_bit_eq dest: bit_imp_le_length)
  qed
qed

text \<open>References collide only when the random bits do. Two references with the same prefix
  are equal exactly when the first 32 bits of the two UUIDs are equal, so the UNIQUE constraint
  on references refuses a request only with that probability; each is the prefix, a dash and
  eight characters, well within the 50 of the column.\<close>

theorem generate_reference_collisions:
  "(generate_reference p u = generate_reference p v) = (drop_bit 96 u = drop_bit 96 v) \<and>
   length (generate_reference p u) = length p + 9"
proof -
  let ?d = "\<lambda>w k. unat (drop_bit (4 * k) (w :: 128 word) AND 15)"
  have take: "take 8 (uuid_hex w) = map (\<lambda>k. hex_digit (?d w k)) (rev [24..<32])" for w
    by (simp add: uuid_hex_def upt_rec take_map)
  have "(generate_reference p u = generate_reference p v) =
      (\<forall>k \<in> {24..<32}. upper_char (hex_digit (?d u k)) = upper_char (hex_digit (?d v k)))"
    by (simp add: generate_reference_def upper_def take rev_map [symmetric] del: upt_rec_numeral)
  also have "\<dots> = (\<forall>k \<in> {24..<32}. drop_bit (4 * k) u AND 15 = drop_bit (4 * k) v AND 15)"
    by (simp add: hex_digit_inj nibble_bound word_unat_eq_iff)
  also have "\<dots> = (drop_bit 96 u = drop_bit 96 v)"
  proof
    assume "\<forall>k \<in> {24..<32}. drop_bit (4 * k) u AND 15 = drop_bit (4 * k) v AND 15"
    then show "drop_bit 96 u = drop_bit 96 v" by (intro nibbles_determine) simp
  next
    assume eq: "drop_bit 96 u = drop_bit 96 v"
    have key: "drop_bit (4 * k) w = drop_bit (4 * (k - 24)) (drop_bit 96 w)" if "24 \<le> k" for k and w :: "128 word"
    proof -
      have "4 * (k - 24) + 96 = 4 * k" using that by simp
      then show ?thesis by simp
    qed
    have "drop_bit (4 * k) u = drop_bit (4 * k) v" if "24 \<le> k" for k
      using eq by (simp only: key [OF that])
    then show "\<forall>k \<in> {24..<32}. drop_bit (4 * k) u AND 15 = drop_bit (4 * k) v AND 15" by simp
  qed
  finally show ?thesis by (simp add: generate_reference_def)
qed

section \<open>Settings\<close>

text \<open>
  What the service needs of a key-value table: reading a key gives the last value written to it.
  \<open>platform_settings\<close> with its upsert is one.
\<close>

locale settings_store =
  fixes lookup :: "'k \<Rightarrow> 's \<Rightarrow> 'v option"
    and put :: "'k \<Rightarrow> 'v \<Rightarrow> 's \<Rightarrow> 's"
  assumes lookup_put: "lookup k' (put k v s) = (if k' = k then Some v else lookup k' s)"
begin

lemma lookup_puts:
  "lookup k (fold (\<lambda>(k, v). put k v) kvs s) =
   (case map_of (rev kvs) k of None \<Rightarrow> lookup k s | Some v \<Rightarrow> Some v)"
proof (induction kvs arbitrary: s)
  case (Cons kv kvs)
  show ?case by (cases kv) (simp add: Cons.IH lookup_put map_add_def split: option.splits)
qed simp

lemma lookup_puts_distinct:
  "distinct (map fst kvs) \<Longrightarrow> (k, v) \<in> set kvs \<Longrightarrow> lookup k (fold (\<lambda>(k, v). put k v) kvs s) = Some v"
proof -
  assume "distinct (map fst kvs)" "(k, v) \<in> set kvs"
  then have "map_of (rev kvs) k = Some v" by (intro map_of_is_SomeI) (simp_all add: rev_map [symmetric])
  then show "lookup k (fold (\<lambda>(k, v). put k v) kvs s) = Some v" by (simp add: lookup_puts)
qed

end

definition put_setting :: "timestamp \<Rightarrow> string \<Rightarrow> string \<Rightarrow> db \<Rightarrow> db" where
  "put_setting now k v s = (case settings_upsert now k v s of Inl e \<Rightarrow> s | Inr s' \<Rightarrow> s')"

lemma settings_upsert_total: "settings_upsert now k v s = Inr (put_setting now k v s)"
  by (simp add: put_setting_def settings_upsert_def)

interpretation setting_keys: key_preserving_update s_key "\<lambda>(v, n) r. r\<lparr>s_value := v, s_updated_at := n\<rparr>"
  by unfold_locales (simp split: prod.splits)

lemma setting_put: "setting k' (put_setting now k v s) = (if k' = k then Some v else setting k' s)"
proof (cases "list_ex (\<lambda>r. s_key r = k) (db_settings s)")
  case True
  then have "find (\<lambda>r. s_key r = k) (db_settings s) \<noteq> None" by (auto simp: find_None_iff list_ex_iff)
  with True show ?thesis
    using setting_keys.find_key_update [of k' k "(v, now)" "db_settings s"]
    by (auto simp: setting_def put_setting_def settings_upsert_def)
next
  case False
  then have "find (\<lambda>r. s_key r = k) (db_settings s) = None" by (auto simp: find_None_iff list_ex_iff)
  with False show ?thesis
    by (auto simp: setting_def put_setting_def settings_upsert_def find_append split: option.splits)
qed

interpretation settings: settings_store setting "put_setting now" for now
  by unfold_locales (rule setting_put)

lemma put_setting_frame [simp]:
  "db_users (put_setting now k v s) = db_users s" "db_wallets (put_setting now k v s) = db_wallets s"
  "db_ledger (put_setting now k v s) = db_ledger s" "db_kyc (put_setting now k v s) = db_kyc s"
  "db_devices (put_setting now k v s) = db_devices s" "db_audit (put_setting now k v s) = db_audit s"
  by (simp_all add: put_setting_def settings_upsert_def)

lemma exec_put: "\<not> aborted \<sigma> \<Longrightarrow>
  exec (settings_upsert now k v) \<sigma> = (Inr (), \<sigma>\<lparr>current := put_setting now k v (current \<sigma>)\<rparr>)"
  by (simp add: exec_def statement_def settings_upsert_total)

lemma get_fee_percent_run: "\<not> aborted \<sigma> \<Longrightarrow> get_fee_percent \<sigma> =
   ((case setting ''fee_percent'' (current \<sigma>) of None \<Rightarrow> Inr (Dec 8 0)
     | Some v \<Rightarrow> (case dec_parse v of None \<Rightarrow> Inl Invalid_operation | Some d \<Rightarrow> Inr d)), \<sigma>)"
  by (auto simp: get_fee_percent_def bindP_def query_def statement_def ret_def throw_def split: option.splits)

text \<open>C21: the fee the administrator sets is the fee everyone reads. Storing any percentage always
  succeeds, changes no table but the settings, and reading it back, on the same or any later
  request, gives the same decimal, digit for digit (the value travels as text).\<close>

theorem fee_percent_roundtrip:
  "\<exists>s'. request (set_fee_percent now d) s = (Inr (), s') \<and> request get_fee_percent s' = (Inr d, s') \<and>
     db_ledger s' = db_ledger s \<and> db_wallets s' = db_wallets s \<and> db_users s' = db_users s \<and>
     setting k s' = (if k = ''fee_percent'' then Some (dec_str d) else setting k s)"
proof (intro exI conjI)
  let ?s = "put_setting now ''fee_percent'' (dec_str d) s"
  show "request (set_fee_percent now d) s = (Inr (), ?s)"
    by (simp add: request_def set_fee_percent_def bindP_def exec_put commit_def)
  show "request get_fee_percent ?s = (Inr d, ?s)"
    by (simp add: request_def get_fee_percent_run setting_put dec_parse_str)
  show "setting k ?s = (if k = ''fee_percent'' then Some (dec_str d) else setting k s)" by (simp add: setting_put)
qed simp_all

section \<open>Declaring a deposit\<close>

lemma mobile_provider_of:
  "upper p \<in> set MOBILE_PROVIDERS \<Longrightarrow> \<exists>prov. provider_of (upper p) = Some prov \<and> prov \<in> {WAVE, ORANGE, MTN, MOOV}"
  by (auto simp: MOBILE_PROVIDERS_def provider_of_def provider_labels_def)

lemma one_row_check: "ledger_check [t] = Inr ts \<longleftrightarrow> ts = [t] \<and> ledger_row_ok t"
  by (auto simp: ledger_check_Inr wf_ledger_def proof_keys_def)

lemma insert_unless_proof_Inr:
  "ledger_insert_unless_proof t s = Inr s' \<longleftrightarrow> ledger_row_ok t \<and>
   (if list_ex (same_proof (t_provider t) (t_proof_ref t)) (db_ledger s) then s' = s
    else ledger_insert t s = Inr s')"
  by (auto simp: ledger_insert_unless_proof_def outcome_simps one_row_check)

lemma pending_payin_simps [simp]:
  "t_reference (pending_payin_row n i r u p a ph pf m) = r" "t_id (pending_payin_row n i r u p a ph pf m) = i"
  "t_provider (pending_payin_row n i r u p a ph pf m) = p" "t_proof_ref (pending_payin_row n i r u p a ph pf m) = pf"
  "t_user_id (pending_payin_row n i r u p a ph pf m) = u" "t_amount (pending_payin_row n i r u p a ph pf m) = a"
  "t_status (pending_payin_row n i r u p a ph pf m) = PENDING" "t_type (pending_payin_row n i r u p a ph pf m) = PAY_IN"
  by (simp_all add: pending_payin_row_def)

text \<open>The row a declaration records, and what its request comes to.\<close>

definition declared_row :: "timestamp \<Rightarrow> uuid \<Rightarrow> 128 word \<Rightarrow> uuid \<Rightarrow> payment_provider \<Rightarrow> payin_body \<Rightarrow> ledger_row" where
  "declared_row now i u uid prov b =
     pending_payin_row now i (generate_reference ''PI'' u) uid prov (round_half_away (100 * pb_amount b))
       (pb_phone_number b) (pb_proof_ref b) [(''declared_via'', JStr (pb_declared_via b))]"

lemma declare_payin_cases:
  assumes "request (declare_payin now i u user b) s = (r, s')"
    and fresh: "tx_by_reference (generate_reference ''PI'' u) s = None"
  obtains (refused) e where "r = Inl e" "s' = s" "e \<noteq> Http 409 (Of_service Doublon_detecte)"
  | (duplicate) prov where "r = Inl (Http 409 (Of_service Doublon_detecte))" "s' = s"
      "provider_of (upper (pb_provider b)) = Some prov"
      "list_ex (same_proof prov (pb_proof_ref b)) (db_ledger s)"
  | (recorded) prov where "provider_of (upper (pb_provider b)) = Some prov" "prov \<in> {WAVE, ORANGE, MTN, MOOV}"
      "ledger_insert (declared_row now i u (u_id user) prov b) s = Inr s'"
      "\<not> list_ex (same_proof prov (pb_proof_ref b)) (db_ledger s)"
      "r = Inr \<lparr>pr_message = Declaration_enregistree, pr_reference = Some (generate_reference ''PI'' u),
               pr_transaction_id = Some i\<rparr>"
proof (cases "upper (pb_provider b) \<in> set MOBILE_PROVIDERS")
  case False
  with assms(1) show ?thesis
    by (intro refused [of "Http 400 Fournisseur_de_paiement_invalide"])
       (auto simp: declare_payin_def request_def http_def throw_def)
next
  case True
  then obtain prov where prov: "provider_of (upper (pb_provider b)) = Some prov" "prov \<in> {WAVE, ORANGE, MTN, MOOV}"
    using mobile_provider_of by blast
  let ?t = "declared_row now i u (u_id user) prov b"
  let ?ins = "bindE (to_numeric (pb_amount b)) (\<lambda>a. ledger_insert_unless_proof
      (pending_payin_row now i (generate_reference ''PI'' u) (u_id user) prov a (pb_phone_number b)
        (pb_proof_ref b) [(''declared_via'', JStr (pb_declared_via b))]) s)"
  note run = assms(1) [unfolded request_def declare_payin_def declare_payin_pending_def Let_def]
  show ?thesis
  proof (cases ?ins)
    case (Inl e)
    with run True prov show ?thesis
      by (intro refused [of "Sql e"]) (auto simp: bindP_def exec_def statement_def cast_provider_def)
  next
    case (Inr s1)
    then have a: "ledger_insert_unless_proof ?t s = Inr s1"
      by (auto simp: outcome_simps to_numeric_Inr declared_row_def)
    show ?thesis
    proof (cases "list_ex (same_proof prov (pb_proof_ref b)) (db_ledger s)")
      case dup: True
      with a have "s1 = s" by (simp add: insert_unless_proof_Inr declared_row_def)
      with run True prov Inr dup fresh show ?thesis
        by (intro duplicate)
           (auto simp: bindP_def exec_def statement_def query_def commit_def ret_def http_def throw_def
              cast_provider_def)
    next
      case False
      with a have ins: "ledger_insert ?t s = Inr s1" by (simp add: insert_unless_proof_Inr declared_row_def)
      then have s1: "s1 = s\<lparr>db_ledger := db_ledger s @ [?t]\<rparr>" by (simp add: ledger_insert_Inr)
      have "tx_by_reference (generate_reference ''PI'' u) s1 = Some ?t"
        using fresh by (simp add: s1 tx_by_reference_def find_append) (simp add: declared_row_def)
      with run True prov Inr ins False show ?thesis
        by (intro recorded)
           (auto simp: bindP_def exec_def statement_def query_def commit_def ret_def http_def throw_def
              cast_provider_def declared_row_def)
    qed
  qed
qed


definition sample_payin :: payin_body where
  "sample_payin = \<lparr>pb_amount = 25, pb_provider = ''mtn'', pb_phone_number = ''0701'',
     pb_proof_ref = Some ''MP7'', pb_declared_via = ''CLIENT_DECLARATION''\<rparr>"


section \<open>Withdrawals\<close>

lemma payout_request_run:
  assumes "request (payout_request now i u user b) s = (r, s')"
  obtains (refused) e where "r = Inl e" "s' = s"
  | (reserved) prov t nb where "provider_of (upper (ob_provider b)) = Some prov" "prov \<in> {WAVE, ORANGE, MTN, MOOV}"
      "process_payout_deduction now i (u_id user) (ob_amount b) (generate_reference ''PO'' u) prov
         (ob_phone_number b) s = Inr (Payout_reserved (generate_reference ''PO'' u) t nb, s')"
      "r = Inr (Payout_reserved (generate_reference ''PO'' u) t nb)"
proof (cases "upper (ob_provider b) \<in> set MOBILE_PROVIDERS")
  case False
  with assms show ?thesis
    by (intro refused) (auto simp: payout_request_def request_def http_def throw_def)
next
  case True
  then obtain prov where prov: "provider_of (upper (ob_provider b)) = Some prov" "prov \<in> {WAVE, ORANGE, MTN, MOOV}"
    using mobile_provider_of by blast
  let ?m = "process_payout_deduction now i (u_id user) (ob_amount b) (generate_reference ''PO'' u) prov
         (ob_phone_number b) s"
  note run = assms [unfolded request_def payout_request_def request_payout_def Let_def]
  show ?thesis
  proof (cases ?m)
    case (Inl e)
    with run True prov show ?thesis
      by (intro refused) (auto simp: bindP_def statement_def cast_provider_def)
  next
    case (Inr ra)
    obtain a s1 where a: "?m = Inr (a, s1)" using Inr by (cases ra) simp
    show ?thesis
    proof (cases rule: payout_deduction_cases [OF a])
      case (1 m)
      with run True prov a show ?thesis
        by (intro refused) (auto simp: bindP_def statement_def cast_provider_def commit_def http_def throw_def ret_def)
    next
      case (2 c ws t)
      then have ra: "a = Payout_reserved (generate_reference ''PO'' u) i (cents c - ob_amount b)" by simp
      with run True prov a have "r = Inr a" "s' = s1"
        by (auto simp: bindP_def statement_def cast_provider_def commit_def ret_def)
      with a ra prov show ?thesis by (intro reserved) auto
    qed
  qed
qed

section \<open>Transfers at the configured fee\<close>

definition configured_fee :: "db \<Rightarrow> decimal option" where
  "configured_fee s = (case setting ''fee_percent'' s of None \<Rightarrow> Some (Dec 8 0) | Some v \<Rightarrow> dec_parse v)"

lemma transfer_endpoint_run:
  assumes "request (transfer_internal_endpoint now i1 i2 u1 u2 f user a ph) s = (r, s')"
  obtains (refused) e where "r = Inl e" "s' = s"
  | (moved) d n fee tot nb s1 gone where "configured_fee s = Some d"
      "process_internal_transfer now i1 i2 (u_id user) a ph (generate_reference ''IT'' u1)
         (generate_reference ''IT'' u2) (dec_val d) s
       = Inr (Transfer_done (generate_reference ''IT'' u1) (generate_reference ''IT'' u2) n fee tot nb, s1)"
      "r = Inr (Transfer_done (generate_reference ''IT'' u1) (generate_reference ''IT'' u2) n fee tot nb)"
      "s' = without_devices gone s1"
proof -
  note run = assms [unfolded request_def transfer_internal_endpoint_def transfer_internal_def Let_def]
  show ?thesis
  proof (cases "configured_fee s")
    case None
    then have "get_fee_percent (opened s) = (Inl Invalid_operation, opened s)"
      by (auto simp: get_fee_percent_run configured_fee_def split: option.splits)
    with run show ?thesis by (intro refused) (auto simp: bindP_def)
  next
    case (Some d)
    then have g: "get_fee_percent (opened s) = (Inr d, opened s)"
      by (auto simp: get_fee_percent_run configured_fee_def split: option.splits)
    let ?m = "process_internal_transfer now i1 i2 (u_id user) a ph (generate_reference ''IT'' u1)
         (generate_reference ''IT'' u2) (dec_val d) s"
    show ?thesis
    proof (cases ?m)
      case (Inl e)
      with run g show ?thesis by (intro refused) (auto simp: bindP_def statement_def)
    next
      case (Inr ra)
      obtain x s1 where x: "?m = Inr (x, s1)" using Inr by (cases ra) simp
      have st: "statement (process_internal_transfer now i1 i2 (u_id user) a ph (generate_reference ''IT'' u1)
         (generate_reference ''IT'' u2) (dec_val d)) (opened s) = (Inr x, (opened s)\<lparr>current := s1\<rparr>)"
        using x by (simp add: statement_def)
      have cm: "commit ((opened s)\<lparr>current := s1\<rparr>) = (Inr (), opened s1)"
        by (simp add: commit_def opened_def)
      show ?thesis
      proof (cases rule: internal_transfer_cases [OF x])
        case (1 m)
        with run g st cm show ?thesis
          by (intro refused) (auto simp: bindP_def http_def throw_def ret_def)
      next
        case (2 u b b' fee tot ws1 ws t1 t2 sp)
        have q: "query (\<lambda>s. find (\<lambda>u. u_phone_number u = ph) (db_users s)) (opened s1) = (Inr (Some u), opened s1)"
          using 2(2,18) by (simp add: query_def statement_def opened_def)
        from run g st cm q 2(17) have "r = Inr x \<and> (\<exists>gone. s' = without_devices gone s1)"
          by (auto simp: bindP_def ret_def notify_user_opened)
        with Some x 2(17) show ?thesis by (auto intro!: moved)
      qed
    qed
  qed
qed

text \<open>C12: a transfer is charged at the configured percentage. When the route answers with a success
  the fee is the amount times the stored percentage (8 when none is stored), rounded to
  hundredths; the sender pays amount plus fee, the recipient gets the amount, the sum of all
  wallets drops by exactly the fee; when it answers with an error nothing has changed. The
  notification sent in between can change neither.\<close>

theorem transfer_charged_at_configured_fee:
  assumes "wf_db s" "\<And>d. configured_fee s = Some d \<Longrightarrow> 0 \<le> dec_val d"
    and "request (transfer_internal_endpoint now i1 i2 u1 u2 f user a ph) s = (r, s')"
  shows "case r of Inl e \<Rightarrow> s' = s
     | Inr rep \<Rightarrow> \<exists>d v b b' fee nb. configured_fee s = Some d \<and> fee = round_half_away (a * dec_val d) \<and>
         rep = Transfer_done (generate_reference ''IT'' u1) (generate_reference ''IT'' u2) a fee
                 (round_half_away (100 * a) + fee) nb \<and>
         find (\<lambda>u. u_phone_number u = ph) (db_users s) = Some v \<and> u_id v \<noteq> u_id user \<and>
         balance s (u_id user) = Some b \<and> balance s (u_id v) = Some b' \<and>
         balance s' (u_id user) = Some (b - (round_half_away (100 * a) + fee)) \<and> 0 \<le> nb \<and>
         nb = b - (round_half_away (100 * a) + fee) \<and>
         balance s' (u_id v) = Some (b' + round_half_away (100 * a)) \<and>
         total_money s' = total_money s - fee"
  using assms(3)
proof (cases rule: transfer_endpoint_run)
  case (moved d n fee tot nb s1 gone)
  from transfer_effect [OF assms(1) assms(2) [OF moved(1)] moved(2)] moved show ?thesis
    by (auto simp: balance_def total_money_def)
qed simp

definition sample_fcm :: "unit fcm" where
  "sample_fcm = \<lparr>project_id = ''p'', service_account_json = ''{}'', parse_credentials = (\<lambda>j. Some ()),
     access_token = (\<lambda>c. Some ''t''),
     post = (\<lambda>m. Response 404 ''application/json'' (Some (JObj [(''error'', JObj [(''status'', JStr ''UNREGISTERED'')])])))\<rparr>"

theorem transfer_charged_at_configured_fee_witness:
  "total_money (snd (request (transfer_internal_endpoint 7 400 401 0 79228162514264337593543950336 sample_fcm (sample_user 1 ''0701'' USER) 50 ''0702'') sample_db))
   = total_money sample_db - 400"
proof -
  let ?p = "transfer_internal_endpoint 7 400 401 0 79228162514264337593543950336 sample_fcm (sample_user 1 ''0701'' USER) 50 ''0702''"
  have fee: "configured_fee sample_db = Some (Dec 8 0)" by code_simp
  then have pos: "\<And>d. configured_fee sample_db = Some d \<Longrightarrow> 0 \<le> dec_val d" by (auto simp: dec_val_def)
  have "\<not> isl (fst (request ?p sample_db))" by code_simp
  then obtain rep where rep: "fst (request ?p sample_db) = Inr rep"
    by (cases "fst (request ?p sample_db)") auto
  have "round_half_away (50 * dec_val (Dec 8 0)) = 400" by code_simp
  with transfer_charged_at_configured_fee [OF wf_sample_db pos surjective_pairing, of 7 400 401 0 79228162514264337593543950336 sample_fcm
      "sample_user 1 ''0701'' USER" 50 "''0702''"] rep fee
  show ?thesis by auto
qed

section \<open>Manual credits\<close>

lemma manual_credit_effect:
  assumes "wf_db s" and run: "request (admin_manual_credit now i u uid a reason admin) s = (r, s')"
  shows "case r of
      Inl e \<Rightarrow> s' = s
    | Inr (Credit_refused m) \<Rightarrow> s' = s
    | Inr (Credit_done m ref nb) \<Rightarrow> \<exists>b. 0 < a \<and> balance s uid = Some b \<and> balance s' uid = Some nb \<and>
        nb = b + round_half_away (100 * a) \<and> (\<forall>v. v \<noteq> uid \<longrightarrow> balance s' v = balance s v) \<and>
        db_ledger s' = db_ledger s @ [manual_credit_row now i ref uid (round_half_away (100 * a)) reason admin] \<and>
        ref = generate_reference ''MC'' u \<and> wf_db s'"
proof (cases "0 < a")
  case False
  with run show ?thesis by (auto simp: request_def admin_manual_credit_def ret_def)
next
  case a: True
  let ?ref = "generate_reference ''MC'' u"
  note run' = run [unfolded request_def admin_manual_credit_def Let_def]
  show ?thesis
  proof (cases "wallets_update uid a now s")
    case (Inl e)
    with run' a show ?thesis by (auto simp: bindP_def statement_def)
  next
    case (Inr s1)
    then obtain ws where ws: "wallet_add uid a now (db_wallets s) = Inr ws" and s1: "s1 = s\<lparr>db_wallets := ws\<rparr>"
      by (auto simp: wallets_update_Inr)
    have bal: "balance s1 uid = map_option w_balance (wallet_of uid s1)" by (rule balance_wallet_of)
    show ?thesis
    proof (cases "wallet_of uid s1")
      case None
      with run' a Inr show ?thesis by (auto simp: bindP_def statement_def ret_def)
    next
      case (Some w)
      let ?ins = "bindE (to_numeric a) (\<lambda>c. ledger_insert (manual_credit_row now i ?ref uid c reason admin) s1)"
      show ?thesis
      proof (cases ?ins)
        case Inl': (Inl e)
        with run' a Inr Some show ?thesis by (auto simp: bindP_def statement_def exec_def)
      next
        case Inr': (Inr s2)
        then have s2: "s2 = s1\<lparr>db_ledger := db_ledger s1 @ [manual_credit_row now i ?ref uid (round_half_away (100 * a)) reason admin]\<rparr>"
          and wf: "wf_db s2"
          using wf_wallets_update [OF assms(1) Inr] wf_ledger_insert
          by (auto simp: outcome_simps to_numeric_Inr ledger_insert_Inr)
        from run' a Inr Some Inr' have r: "r = Inr (Credit_done Compte_recharge ?ref (w_balance w))" "s' = s2"
          by (auto simp: bindP_def statement_def exec_def commit_def ret_def)
        have w0: "wf_wallets (db_wallets s)" using wf_ledgerD(3) [OF assms(1)] .
        have "balance_in ws uid = Some (w_balance w)" using bal Some s1 by simp
        moreover have "balance s uid \<noteq> None"
          using wallets.bal_add [OF w0 ws, of uid] calculation by (cases "balance_in (db_wallets s) uid") (simp_all add: balance_def)
        ultimately obtain b where "balance s uid = Some b" "w_balance w = b + round_half_away (100 * a)"
          using wallets.credit_nonneg [OF w0 ws] a by (auto simp: balance_def)
        moreover have "balance_in ws v = balance s v" if "v \<noteq> uid" for v
          using wallets.bal_add [OF w0 ws, of v] that by (simp add: balance_def)
        ultimately show ?thesis
          using r a wf s1 s2 \<open>balance_in ws uid = Some (w_balance w)\<close> by simp
      qed
    qed
  qed
qed

lemma manual_credit_refused:
  "request (admin_manual_credit now i u uid a reason admin) s = (Inl e, s') \<Longrightarrow> s' = s"
  "request (admin_manual_credit now i u uid a reason admin) s = (Inr (Credit_refused m), s') \<Longrightarrow> s' = s"
  by (auto simp: request_def admin_manual_credit_def Let_def bindP_def statement_def exec_def commit_def ret_def
      split: if_splits sum.splits option.splits)

text \<open>C14: a manual credit writes wallet and ledger together or not at all. On success the wallet of
  the user exists, its balance grows by the amount rounded to hundredths, and exactly one
  SUCCESS row of the same amount is appended that names the administrator; when the function
  refuses or any statement of it fails, the database is unchanged.\<close>

theorem manual_credit_both_or_none:
  assumes "wf_db s" and run: "request (admin_manual_credit now i u uid a reason admin) s = (r, s')"
  shows "case r of
      Inl e \<Rightarrow> s' = s
    | Inr (Credit_refused m) \<Rightarrow> s' = s
    | Inr (Credit_done m ref nb) \<Rightarrow> \<exists>b. 0 < a \<and> balance s uid = Some b \<and> balance s' uid = Some nb \<and>
        nb = b + round_half_away (100 * a) \<and> (\<forall>v. v \<noteq> uid \<longrightarrow> balance s' v = balance s v) \<and>
        db_ledger s' = db_ledger s @ [manual_credit_row now i ref uid (round_half_away (100 * a)) reason admin] \<and>
        ref = generate_reference ''MC'' u \<and> wf_db s'"
  using manual_credit_effect [OF assms] .

theorem manual_credit_both_or_none_witness:
  "balance (snd (request (admin_manual_credit 7 200 0 2 30 ''geste'' 9) sample_db)) 1 = balance sample_db 1"
proof -
  let ?p = "admin_manual_credit 7 200 0 2 30 ''geste'' 9"
  have "fst (request ?p sample_db) = Inr (Credit_done Compte_recharge (generate_reference ''MC'' 0) 5000)" by code_simp
  with manual_credit_both_or_none [OF wf_sample_db surjective_pairing, of 7 200 0 2 30 "''geste''" 9]
  show ?thesis by auto
qed

section \<open>The routes of the client\<close>



section \<open>Every route: constraints kept, errors without effect\<close>

lemma wf_devices_filter: "wf_db s \<Longrightarrow> wf_db (s\<lparr>db_devices := filter P (db_devices s)\<rparr>)"
  by (auto simp: wf_db_def wf_devices_def list_all_iff distinct_map inj_on_def)

lemma wf_audit_set_ip: "wf_db s \<Longrightarrow> audit_set_ip a t ip s = Inr s' \<Longrightarrow> wf_db s'"
  by (auto simp: audit_set_ip_def Let_def wf_db_def list_all_iff split: if_splits)

lemma wf_put_setting: "wf_db s \<Longrightarrow> wf_db (put_setting now k v s)"
proof -
  assume wf: "wf_db s"
  have "distinct (map s_key (db_settings (put_setting now k v s)))"
  proof (cases "list_ex (\<lambda>r. s_key r = k) (db_settings s)")
    case True
    with wf setting_keys.distinct_keys_update [of _ "(v, now)" "db_settings s"] show ?thesis
      by (simp add: put_setting_def settings_upsert_def wf_db_def)
  next
    case False
    with wf show ?thesis by (auto simp: put_setting_def settings_upsert_def wf_db_def list_ex_iff)
  qed
  with wf show "wf_db (put_setting now k v s)"
    by (simp add: wf_db_def list_all_iff user_exists_def)
qed

lemma wf_insert_unless_proof: "wf_db s \<Longrightarrow> ledger_insert_unless_proof t s = Inr s' \<Longrightarrow> wf_db s'"
  by (auto simp: insert_unless_proof_Inr split: if_splits intro: wf_ledger_insert)

lemma keeps_notify [keeps_intros]: "keeps wf_db (notify_user f uid n)"
  by (rule keeps_notify_user) (rule wf_devices_filter)

lemma keeps_settings [keeps_intros]: "keeps wf_db (exec (settings_upsert now k v))"
  by (rule keeps_exec) (auto simp: settings_upsert_total intro: wf_put_setting)

lemma keeps_links_loop [keeps_intros]: "keeps wf_db (set_payment_links_loop now links)"
  by (induction now links rule: set_payment_links_loop.induct) (auto split: option.splits intro!: keeps_intros)

lemma keeps_service [keeps_intros]:
  "keeps wf_db (declare_payin_pending now i u uid a p ph pf via)"
  "keeps wf_db (finalize_payin now ref pf conf)"
  "keeps wf_db (request_payout now i u uid a p ph)"
  "keeps wf_db (admin_process_payout now i tid act pf admin ip)"
  "keeps wf_db get_fee_percent" "keeps wf_db (set_fee_percent now d)"
  "keeps wf_db get_payment_links" "keeps wf_db (set_payment_links now links)"
  "keeps wf_db (transfer_internal now i i2 u u2 uid a ph)"
  "keeps wf_db (admin_manual_credit now i u uid a reason admin)"
  unfolding declare_payin_pending_def finalize_payin_def request_payout_def admin_process_payout_def
    get_fee_percent_def set_fee_percent_def get_payment_links_def set_payment_links_def
    transfer_internal_def admin_manual_credit_def Let_def
  by (intro keeps_intros; auto simp: outcome_simps intro: wf_insert_unless_proof wf_ledger_insert
      payin_credit_wf payout_deduction_wf admin_review_wf internal_transfer_wf wf_audit_set_ip wf_wallets_update)+

lemma keeps_wallet_routes [keeps_intros]:
  "keeps wf_db (declare_payin now i u user b)" "keeps wf_db (declare_payin_async now i u user b)"
  "keeps wf_db (payout_request now i u user ob)"
  "keeps wf_db (transfer_internal_endpoint now i i2 u u2 f user a ph)"
  "keeps wf_db (get_my_wallet user)" "keeps wf_db (list_my_transactions user limit)"
  "keeps wf_db (get_current_fee_percent user)" "keeps wf_db (get_current_payment_links user)"
  unfolding declare_payin_def declare_payin_async_def payout_request_def transfer_internal_endpoint_def
    get_my_wallet_def list_my_transactions_def get_current_fee_percent_def get_current_payment_links_def Let_def
  by (auto split: payout_reply.splits transfer_reply.splits option.splits simp: outcome_simps
      intro!: keeps_intros intro: wf_ledger_insert)

lemma declare_payin_aon: "all_or_nothing (declare_payin now i u user b)"
  unfolding all_or_nothing_def
proof (intro allI impI)
  fix s e s'
  assume run: "request (declare_payin now i u user b) s = (Inl e, s')"
  show "s' = s"
  proof (cases "tx_by_reference (generate_reference ''PI'' u) s")
    case None
    with run show ?thesis by (auto elim!: declare_payin_cases)
  next
    case (Some t)
    define ins where "ins = bindE (cast_provider (upper (pb_provider b))) (\<lambda>prov. bindE (to_numeric (pb_amount b))
        (\<lambda>a. ledger_insert_unless_proof (pending_payin_row now i (generate_reference ''PI'' u) (u_id user) prov a
              (pb_phone_number b) (pb_proof_ref b) [(''declared_via'', JStr (pb_declared_via b))]) s))"
    note run' = run [unfolded request_def declare_payin_def declare_payin_pending_def Let_def exec_def
        bindP_def statement_def query_def commit_def ret_def http_def throw_def]
    show ?thesis
    proof (cases ins)
      case (Inl x)
      with run' show ?thesis by (auto simp: ins_def split: if_splits)
    next
      case (Inr s1)
      with Some have "tx_by_reference (generate_reference ''PI'' u) s1 \<noteq> None"
        by (auto simp: ins_def outcome_simps insert_unless_proof_Inr ledger_insert_Inr tx_by_reference_def
            find_append split: if_splits)
      with run' Inr show ?thesis by (auto simp: ins_def split: if_splits)
    qed
  qed
qed

lemma declare_payin_async_aon: "all_or_nothing (declare_payin_async now i u user b)"
  by (auto simp: all_or_nothing_def request_def declare_payin_async_def Let_def bindP_def attempt_def exec_def
      statement_def commit_def rollback_def ret_def http_def throw_def
      split: if_splits option.splits sum.splits)

lemma payout_request_aon: "all_or_nothing (payout_request now i u user b)"
  unfolding all_or_nothing_def by (auto elim: payout_request_run)

lemma transfer_endpoint_aon: "all_or_nothing (transfer_internal_endpoint now i i2 u u2 f user a ph)"
  unfolding all_or_nothing_def by (auto elim: transfer_endpoint_run)

lemma silent_reads [no_commit_intros]:
  "no_commit get_fee_percent" "no_commit get_payment_links"
  unfolding get_fee_percent_def get_payment_links_def by (intro no_commit_intros)+

lemma wallet_reads_aon:
  "all_or_nothing (get_my_wallet user)" "all_or_nothing (list_my_transactions user limit)"
  "all_or_nothing (get_current_fee_percent user)" "all_or_nothing (get_current_payment_links user)"
  unfolding get_my_wallet_def list_my_transactions_def get_current_fee_percent_def get_current_payment_links_def
  by (auto intro!: silent_all_or_nothing silent_base(1) no_commit_intros split: option.splits)

lemmas wallet_routes_aon = declare_payin_aon declare_payin_async_aon payout_request_aon
  transfer_endpoint_aon wallet_reads_aon

end
