(* ===== verification/AuthContract.thy ===== *)
theory AuthContract
  imports Auth DecimalText Samples
begin

text \<open>
  What accounts promise: a registered client can log in with the PIN that was registered and
  with no other, and holds a token that identifies the account until it expires; every account
  has a wallet; the bootstrap route makes one administrator and then closes.
\<close>

section \<open>Registration and login\<close>

lemma register_cases:
  assumes "request (register e now salt i j b) s = (r, s')"
  obtains (refused) x where "r = Inl x" "s' = s"
  | (created) p u where "register_request b = Some p" "filter (\<lambda>u. u_phone_number u = rb_phone_number p) (db_users s) = []"
      "u_phone_number u = rb_phone_number p" "u_pin_code_hash u = pwd_hash e salt (rb_pin_code p)"
      "u_role u = USER" "u_is_active u" "u_id u = i"
      "u_id u \<notin> u_id ` set (db_users s)" "i \<notin> w_user_id ` set (db_wallets s)"
      "s' = s\<lparr>db_users := db_users s @ [u], db_wallets := db_wallets s @ [new_wallet now j i]\<rparr>"
      "r = Inr \<lparr>access_token_of = create_access_token e now i ''USER'', token_role = ''USER''\<rparr>"
      "u_created_at u = now"
      "u_full_name u = (case rb_full_name p of None \<Rightarrow> ''Utilisateur'' | Some n \<Rightarrow> if n = [] then ''Utilisateur'' else n)"
proof (cases r)
  case (Inl x)
  with assms accounts_aon(1) [of e now salt i j b] show ?thesis
    by (intro refused) (auto simp: all_or_nothing_def)
next
  case (Inr tok)
  with assms obtain p where p: "register_request b = Some p"
    by (cases "register_request b") (auto simp: register_def request_def http_def throw_def)
  let ?name = "case rb_full_name p of None \<Rightarrow> ''Utilisateur'' | Some n \<Rightarrow> if n = [] then ''Utilisateur'' else n"
  let ?u = "new_user now i (rb_phone_number p) ?name (hash_pin e salt (rb_pin_code p)) USER"
  from assms Inr p obtain s1 s2 where *:
    "filter (\<lambda>u. u_phone_number u = rb_phone_number p) (db_users s) = []"
    "users_insert ?u s = Inr s1" "wallets_insert (new_wallet now j i) s1 = Inr s2" "s' = s2"
    "tok = \<lparr>access_token_of = create_access_token e now i (role_value USER), token_role = role_value USER\<rparr>"
    by (auto simp: register_def request_def Let_def runs split: prod.splits if_splits)
  show ?thesis
    by (rule created [OF p *(1), of ?u])
       (use * Inr in \<open>auto simp: users_insert_Inr wallets_insert_Inr hash_pin_def role_value_def new_user_def\<close>)
qed


text \<open>A concrete pair of libraries with the properties that the theorem relies on.\<close>

definition sample_encode :: "claims \<Rightarrow> string" where
  "sample_encode c = (case c_sub c of None \<Rightarrow> [] | Some u \<Rightarrow> nat_str u) @ ''.'' @ nat_str (c_exp c) @ ''.'' @ c_role c"

definition sample_decode :: "timestamp \<Rightarrow> string \<Rightarrow> claims option" where
  "sample_decode now t =
     (let a = takeWhile is_digit t; t1 = tl (dropWhile is_digit t);
          b = digits_val (takeWhile is_digit t1); t2 = tl (dropWhile is_digit t1)
      in if now \<le> b then Some \<lparr>c_sub = (if a = [] then None else Some (digits_val a)), c_role = t2, c_exp = b\<rparr>
         else None)"

definition sample_security :: security where
  "sample_security = \<lparr>pwd_hash = (\<lambda>n p. nat_str n @ ''.'' @ p),
     pwd_verify = (\<lambda>p h. tl (dropWhile is_digit h) = p),
     jwt_encode = sample_encode, jwt_decode = sample_decode, expire_minutes = 43200,
     bootstrap_secret = ''s3cret''\<rparr>"

lemma sample_security_sound: "pins_verify sample_security" "tokens_decode sample_security"
proof -
  have split: "dropWhile is_digit (nat_str n @ CHR ''.'' # r) = CHR ''.'' # r"
    "takeWhile is_digit (nat_str n @ CHR ''.'' # r) = nat_str n" for n r
    using list_all_digits_append [OF nat_str_digits not_digits(1)] by simp_all
  then show "pins_verify sample_security" by (auto simp: pins_verify_def sample_security_def)
  show "tokens_decode sample_security"
    unfolding tokens_decode_def
  proof (intro allI impI)
    fix now and c :: claims assume now: "now \<le> c_exp c"
    show "jwt_decode sample_security now (jwt_encode sample_security c) = Some c"
      using now split by (cases c; cases "c_sub c") (simp_all add: sample_security_def sample_encode_def sample_decode_def Let_def)
  qed
qed

definition sample_registration :: register_body where
  "sample_registration = \<lparr>rb_phone_number = ''07 05 06'', rb_full_name = None, rb_pin_code = ''1234''\<rparr>"


text \<open>The number is normalised at registration but not at login. A client who registers with
  blanks in the number and then types the same number with the right PIN is answered 401.\<close>

theorem login_does_not_normalise:
  "fst (request (login sample_security 8 ''07 05 06'' ''1234'')
     (snd (request (register sample_security 7 5 3 60 sample_registration) sample_db)))
   = Inl (Http 401 Identifiants_invalides) \<and>
   \<not> isl (fst (request (login sample_security 8 ''070506'' ''1234'')
     (snd (request (register sample_security 7 5 3 60 sample_registration) sample_db))))"
  by code_simp

section \<open>The first administrator\<close>

lemma bootstrap_cases:
  assumes "request (bootstrap_admin e now salt i j ph pin sec) s = (r, s')"
  obtains (refused) x where "r = Inl x" "s' = s"
  | (created) u tok where "sec = bootstrap_secret e" "admins s = []" "u_role u = ADMIN" "u_id u = i"
      "s' = s\<lparr>db_users := db_users s @ [u], db_wallets := db_wallets s @ [new_wallet now j i]\<rparr>"
      "r = Inr tok"
proof (cases r)
  case (Inl x)
  with assms accounts_aon(2) [of e now salt i j ph pin sec] show ?thesis
    by (intro refused) (auto simp: all_or_nothing_def)
next
  case (Inr tok)
  let ?u = "new_user now i ph ''Administrateur'' (hash_pin e salt pin) ADMIN"
  from assms Inr have "sec = bootstrap_secret e"
    by (cases "sec = bootstrap_secret e") (auto simp: bootstrap_admin_def request_def http_def throw_def)
  with assms Inr obtain s1 s2 where *: "admins s = []" "users_insert ?u s = Inr s1"
    "wallets_insert (new_wallet now j i) s1 = Inr s2" "s' = s2"
    by (auto simp: bootstrap_admin_def request_def Let_def runs admins_def split: prod.splits if_splits)
  with Inr \<open>sec = bootstrap_secret e\<close> show ?thesis
    by (intro created [of ?u]) (auto simp: users_insert_Inr wallets_insert_Inr)
qed

text \<open>C19: the bootstrap route works once. It succeeds only with the configured secret and when no
  administrator exists, it then adds exactly one account with role ADMIN, and every later call,
  whatever it carries, is refused and changes nothing.\<close>

theorem bootstrap_closes:
  assumes "request (bootstrap_admin e now salt i j ph pin sec) s = (Inr tok, s')"
  shows "sec = bootstrap_secret e \<and> admins s = [] \<and> length (admins s') = 1 \<and>
    (\<forall>now' salt' i' j' ph' pin' sec'.
       request (bootstrap_admin e now' salt' i' j' ph' pin' sec') s' =
         (Inl (if sec' = bootstrap_secret e then Http 409 Admin_existe_deja
               else Http 403 Secret_de_bootstrap_invalide), s'))"
  using assms
proof (cases rule: bootstrap_cases)
  case (created u tok')
  then have adm: "admins s' = [u]" by (simp add: admins_def)
  then have "filter (\<lambda>u. u_role u = ADMIN) (db_users s') = [u]" by (simp add: admins_def)
  then have "request (bootstrap_admin e now' salt' i' j' ph' pin' sec') s' =
         (Inl (if sec' = bootstrap_secret e then Http 409 Admin_existe_deja
               else Http 403 Secret_de_bootstrap_invalide), s')" for now' salt' i' j' ph' pin' sec'
    by (simp add: request_def bootstrap_admin_def http_def throw_def bindP_def query_def statement_def
        one_or_none_def ret_def)
  with created adm show ?thesis by simp
qed simp

theorem bootstrap_closes_witness:
  "length (admins (snd (request (bootstrap_admin sample_security 7 5 3 60 ''0799'' ''1234'' ''s3cret'') empty_db))) = 1"
proof -
  let ?m = "request (bootstrap_admin sample_security 7 5 3 60 ''0799'' ''1234'' ''s3cret'') empty_db"
  have "fst ?m = Inr \<lparr>access_token_of = create_access_token sample_security 7 3 ''ADMIN'', token_role = ''ADMIN''\<rparr>"
    by code_simp
  then have "?m = (Inr \<lparr>access_token_of = create_access_token sample_security 7 3 ''ADMIN'', token_role = ''ADMIN''\<rparr>, snd ?m)"
    by (metis prod.collapse)
  from bootstrap_closes [OF this] show ?thesis by (metis One_nat_def)
qed

end
