(* ===== verification/AdminContract.thy ===== *)
theory AdminContract
  imports Admin ServiceContract AuthContract "HOL-Library.Multiset"
begin

text \<open>
  What the administrator's routes promise: constraints kept and errors without effect for all of
  them, identity files decided once and the same way on both routes, lists and statistics that
  neither lose nor repeat a row, and the behaviours that surprise (blocking an account does not
  end its sessions; the default proof of a manual approval can be used once per operator).
\<close>

section \<open>Every route\<close>

interpretation decided_ids: key_preserving_update k_id "\<lambda>(n, a, r). decided n a r"
  by unfold_locales (simp add: decided_def split: prod.splits)

lemma wf_mark_failed:
  assumes "wf_db s" "ledger_update P (mark_failed now) s = Inr s'"
  shows "wf_db s'"
  by (rule wf_ledger_update [OF assms(1) _ assms(2)]) (simp add: mark_failed_def)

lemma wf_users_update:
  assumes "wf_db s" "users_update i f s = Inr s'"
    and "\<And>u. u_id (f u) = u_id u" "\<And>u. u_phone_number (f u) = u_phone_number u"
  shows "wf_db s'"
proof -
  have "map u_id (update_where P f us) = map u_id us" "map u_phone_number (update_where P f us) = map u_phone_number us"
    for P us by (induction us) (simp_all add: assms(3,4))
  moreover from this have "u_id ` set (update_where P f us) = u_id ` set us" for P us
    by (metis list.set_map)
  ultimately show ?thesis
    using assms(1) by (simp add: users_update_Inr [OF assms(2)] wf_db_def wf_users_def list_all_iff user_exists_iff)
qed

lemma keeps_check [keeps_intros]: "keeps I (check_secret e secret)" "keeps I (require_admin user)"
  unfolding check_secret_def require_admin_def by (auto intro!: keeps_intros)

lemma keeps_kyc_apply [keeps_intros]: "keeps wf_db (kyc_apply now k a r)"
  unfolding kyc_apply_def by (intro keeps_intros) (auto intro: wf_kyc_statements)

lemma keeps_status_update [keeps_intros]:
  "keeps wf_db (exec (users_update i (\<lambda>r. r\<lparr>u_is_active := active, u_updated_at := now\<rparr>)))"
  by (rule keeps_exec) (auto elim: wf_users_update)

lemma keeps_mark_failed [keeps_intros]:
  "keeps wf_db (statement (\<lambda>s. bindE (ledger_update P (mark_failed now) s) (\<lambda>s'. Inr (g s, s'))))"
  by (rule keeps_statement) (auto simp: outcome_simps intro: wf_mark_failed)

lemma keeps_admin_routes [keeps_intros]:
  "keeps wf_db (process_payout_route now i admin tid act pf)"
  "keeps wf_db (process_payin_route now admin tid act pf)"
  "keeps wf_db (update_user_status now admin uid active)"
  "keeps wf_db (credit_user_wallet now i u admin uid a reason)"
  "keeps wf_db (kyc_decide_jwt now admin sid d r)" "keeps wf_db (kyc_decide e now sec sid d r)"
  "keeps wf_db (update_fee_percent_route now admin p)"
  "keeps wf_db (update_payment_links_route now admin wv og mt mv)"
  unfolding process_payout_route_def process_payin_route_def update_user_status_def credit_user_wallet_def
    kyc_decide_jwt_def kyc_decide_def update_fee_percent_route_def update_payment_links_route_def Let_def
  by (auto split: option.splits review_reply.splits payin_reply.splits credit_reply.splits intro!: keeps_intros)

lemma keeps_admin_reads [keeps_intros]:
  "keeps wf_db (dashboard_stats today)" "keeps wf_db (daily_stats now days)" "keeps wf_db (get_fee_percent_route admin)"
  "keeps wf_db (get_payment_links_route admin)" "keeps wf_db (pending_payouts admin)" "keeps wf_db (pending_payins admin)"
  "keeps wf_db (list_transactions admin ty st ph limit offset)" "keeps wf_db (list_users admin search limit offset)"
  "keeps wf_db (user_detail admin uid)" "keeps wf_db (kyc_pending_list admin)" "keeps wf_db (kyc_pending_page e sec)"
  "keeps wf_db (list_pending_transactions e sec)" "keeps wf_db (user_transaction_history e sec ref)"
  "keeps wf_db (users_html_page e sec search)"
  unfolding dashboard_stats_def daily_stats_def get_fee_percent_route_def get_payment_links_route_def
    pending_payouts_def pending_payins_def list_transactions_def list_users_def user_detail_def
    kyc_pending_list_def kyc_pending_page_def list_pending_transactions_def user_transaction_history_def
    users_html_page_def Let_def
  by (auto split: option.splits intro!: keeps_intros)

lemma no_commit_check [no_commit_intros]: "no_commit (check_secret e secret)" "no_commit (require_admin user)"
  unfolding check_secret_def require_admin_def by (auto intro!: no_commit_intros)

lemma no_commit_admin_reads:
  "no_commit (dashboard_stats today)" "no_commit (daily_stats now days)" "no_commit (get_fee_percent_route admin)"
  "no_commit (get_payment_links_route admin)" "no_commit (pending_payouts admin)" "no_commit (pending_payins admin)"
  "no_commit (list_transactions admin ty st ph limit offset)" "no_commit (list_users admin search limit offset)"
  "no_commit (user_detail admin uid)" "no_commit (kyc_pending_list admin)" "no_commit (kyc_pending_page e sec)"
  "no_commit (list_pending_transactions e sec)" "no_commit (user_transaction_history e sec ref)"
  "no_commit (users_html_page e sec search)"
  unfolding dashboard_stats_def daily_stats_def get_fee_percent_route_def get_payment_links_route_def
    pending_payouts_def pending_payins_def list_transactions_def list_users_def user_detail_def
    kyc_pending_list_def kyc_pending_page_def list_pending_transactions_def user_transaction_history_def
    users_html_page_def Let_def
  by (auto split: option.splits intro!: no_commit_intros)

lemma kyc_apply_silent [silent_intros]: "silent (kyc_apply now k a r)"
  unfolding kyc_apply_def by (auto intro!: silent_intros no_commit_intros infallible_intros)

lemma silent_admin_routes:
  "silent (update_user_status now admin uid active)"
  "silent (kyc_decide_jwt now admin sid d r)" "silent (kyc_decide e now sec sid d r)"
  unfolding update_user_status_def kyc_decide_jwt_def kyc_decide_def
  by (auto split: option.splits intro!: silent_intros no_commit_intros infallible_intros)

lemma process_payout_cases:
  assumes "request (process_payout_route now i admin tid act pf) s = (r, s')"
  obtains (refused) x where "r = Inl x" "s' = s"
  | (reviewed) t m where "upper act \<in> {''APPROVE'', ''REJECT''}" "tx_by_id tid s = Some t"
      "sql_admin_process_payout now i tid (upper act) pf (u_id admin) s = Inr (Review_done m, s')"
      "\<exists>n. r = Inr (Review_done m, [(t_user_id t, n)])"
proof (cases "upper act \<in> {''APPROVE'', ''REJECT''}")
  case False
  with assms show ?thesis
    by (intro refused [of "Http 400 Action_invalide"]) (auto simp: process_payout_route_def request_def http_def throw_def)
next
  case True
  then have t: "(upper act \<notin> {''APPROVE'', ''REJECT''}) = False" by simp
  let ?m = "sql_admin_process_payout now i tid (upper act) pf (u_id admin) s"
  note run = assms [unfolded request_def process_payout_route_def admin_process_payout_def t if_False
      query_def statement_def bindP_def]
  show ?thesis
  proof (cases ?m)
    case (Inl e)
    with run show ?thesis by (intro refused) auto
  next
    case (Inr ra)
    obtain a s1 where a: "?m = Inr (a, s1)" using Inr by (cases ra) simp
    show ?thesis
    proof (cases rule: admin_review_cases [OF a])
      case (1 m)
      with run a show ?thesis
        by (intro refused [of "Http 400 (Of_service m)"]) (auto simp: commit_def ret_def http_def throw_def)
    next
      case (2 tx al)
      then have "s' = s1" "\<exists>n. r = Inr (Review_done Pay_out_valide, [(t_user_id tx, n)])"
        using run a by (auto simp: commit_def ret_def)
      with 2 a True show ?thesis by (intro reviewed) auto
    next
      case (3 tx ws al)
      then have "s' = s1" "\<exists>n. r = Inr (Review_done Pay_out_rejete, [(t_user_id tx, n)])"
        using run a by (auto simp: commit_def ret_def)
      with 3 a True show ?thesis by (intro reviewed) auto
    qed
  qed
qed

lemma process_payin_cases:
  assumes "request (process_payin_route now admin tid act pf) s = (r, s')"
  obtains (refused) x where "r = Inl x" "s' = s"
  | (rejected) t where "upper act = ''REJECT''" "t \<in> set (db_ledger s)" "t_id t = tid" "t_status t = PENDING" "t_type t = PAY_IN"
      "ledger_update (\<lambda>t. t_id t = tid \<and> t_status t = PENDING \<and> t_type t = PAY_IN) (mark_failed now) s = Inr s'"
      "r = Inr (Payin_rejected (t_reference t), [])"
  | (approved) t p x a b where "upper act = ''APPROVE''" "t \<in> set (db_ledger s)" "t_id t = tid" "t_type t = PAY_IN"
      "process_payin_credit now (t_reference t) (Some p) (Some (cents (t_amount t))) s = Inr (Payin_credited x a b, s')"
      "p = (case pf of None \<Rightarrow> manual_proof admin | Some q \<Rightarrow> if q = [] then manual_proof admin else q)"
      "\<exists>n. r = Inr (Payin_finalized (Payin_credited x a b), [(t_user_id t, n)])"
proof -
  consider "upper act \<notin> {''APPROVE'', ''REJECT''}" | "upper act = ''REJECT''" | "upper act = ''APPROVE''" by blast
  then show ?thesis
  proof cases
    case 1
    with assms show ?thesis
      by (intro refused [of "Http 400 Action_invalide"]) (auto simp: process_payin_route_def request_def http_def throw_def)
  next
    case 2
    let ?hit = "\<lambda>t. t_id t = tid \<and> t_status t = PENDING \<and> t_type t = PAY_IN"
    let ?m = "ledger_update ?hit (mark_failed now) s"
    note run = assms [unfolded request_def process_payin_route_def Let_def statement_def bindP_def]
    show ?thesis
    proof (cases ?m)
      case (Inl e)
      with run 2 show ?thesis by (intro refused) auto
    next
      case (Inr s1)
      show ?thesis
      proof (cases "find ?hit (db_ledger s)")
        case None
        then have "update_where ?hit (mark_failed now) (db_ledger s) = db_ledger s"
          by (intro update_where_id) (auto simp: find_None_iff)
        then have "s1 = s" using Inr by (simp add: ledger_update_Inr)
        with run 2 Inr None show ?thesis
          by (intro refused [of "Http 404 Depot_introuvable_ou_deja_traite"]) (auto simp: commit_def http_def throw_def)
      next
        case (Some t)
        with run 2 Inr have "r = Inr (Payin_rejected (t_reference t), [])" "s' = s1"
          by (auto simp: commit_def ret_def)
        with find_SomeD [OF Some] Inr 2 show ?thesis by (intro rejected [of t]) auto
      qed
    qed
  next
    case 3
    then have act: "upper act \<in> {''APPROVE'', ''REJECT''}" "upper act \<noteq> ''REJECT''" by simp_all
    note run = assms [unfolded request_def process_payin_route_def finalize_payin_def query_def statement_def bindP_def]
    show ?thesis
    proof (cases "find (\<lambda>t. t_id t = tid \<and> t_type t = PAY_IN) (db_ledger s)")
      case None
      with run act show ?thesis by (intro refused [of "Http 404 Depot_introuvable"]) (auto simp: http_def throw_def)
    next
      case (Some t)
      define p where "p = (case pf of None \<Rightarrow> manual_proof admin | Some q \<Rightarrow> if q = [] then manual_proof admin else q)"
      let ?m = "process_payin_credit now (t_reference t) (Some p) (Some (cents (t_amount t))) s"
      show ?thesis
      proof (cases ?m)
        case (Inl e)
        with run act Some show ?thesis by (intro refused) (auto simp flip: p_def)
      next
        case (Inr ra)
        obtain a s1 where a: "?m = Inr (a, s1)" using Inr by (cases ra) simp
        show ?thesis
        proof (cases rule: payin_credit_cases [OF a])
          case (1 m)
          with run act Some a show ?thesis
            by (intro refused [of "Http 400 (Of_service m)"]) (auto simp: commit_def ret_def http_def throw_def simp flip: p_def)
        next
          case (2 tx ws)
          from run act Some a 2(7) have "s' = s1" "\<exists>n. r = Inr (Payin_finalized a, [(t_user_id t, n)])"
            by (auto simp: commit_def ret_def simp flip: p_def)
          with find_SomeD [OF Some] a 2(7) 3 show ?thesis
            by (intro approved [of t p]) (auto simp: p_def)
        qed
      qed
    qed
  qed
qed

lemma credit_user_cases:
  assumes "request (credit_user_wallet now i u admin uid a reason) s = (r, s')"
  obtains (refused) x where "r = Inl x" "s' = s"
  | (credited) m ref nb where "0 < a"
      "request (admin_manual_credit now i u uid a reason (u_id admin)) s = (Inr (Credit_done m ref nb), s')"
      "\<exists>n. r = Inr (Credit_done m ref nb, [(uid, n)])"
proof (cases "\<not> valid_amount a \<or> length reason < 3 \<or> 200 < length reason")
  case True
  with assms show ?thesis
    by (intro refused [of "Http 422 Validation_error"]) (auto simp: credit_user_wallet_def request_def http_def throw_def)
next
  case False
  obtain q s1 where q: "request (admin_manual_credit now i u uid a reason (u_id admin)) s = (q, s1)" by fastforce
  show ?thesis
  proof (cases q)
    case (Inl e)
    with q have "s1 = s" using manual_credit_refused by blast
    with assms False q Inl show ?thesis
      by (intro refused [of e]) (auto simp: credit_user_wallet_def request_def bindP_def split: prod.splits)
  next
    case (Inr c)
    show ?thesis
    proof (cases c)
      case (Credit_refused m)
      with q Inr have "s1 = s" using manual_credit_refused by blast
      with assms False q Inr Credit_refused show ?thesis
        by (intro refused [of "Http 400 (Of_service m)"])
           (auto simp: credit_user_wallet_def request_def bindP_def http_def throw_def split: prod.splits)
    next
      case (Credit_done m ref nb)
      with assms False q Inr show ?thesis
        by (intro credited [of m ref nb])
           (auto simp: credit_user_wallet_def request_def bindP_def ret_def valid_amount_def split: prod.splits)
    qed
  qed
qed

section \<open>Identity files\<close>

lemma wf_kyc_decided:
  assumes "wf_kyc ks" "k \<in> set ks" "k_status k = KYC_PENDING"
  shows "wf_kyc (update_where (\<lambda>q. k_id q = k_id k) (decided now a r) ks)"
proof -
  have "distinct (map k_user_id (filter kyc_active (update_where (\<lambda>q. k_id q = k_id k) (decided now a r) ks)))"
  proof (rule distinct_filter_update)
    fix q assume "q \<in> set ks" "k_id q = k_id k"
    then have "q = k" using assms(1,2) by (auto simp: wf_kyc_def distinct_map inj_on_def)
    then show "kyc_active q" using assms(3) by (simp add: kyc_active_def)
  qed (use assms(1) in \<open>simp_all add: wf_kyc_def decided_def\<close>)
  with assms(1) decided_ids.distinct_keys_update [of _ "(now, a, r)" ks] show ?thesis
    by (simp add: wf_kyc_def)
qed

lemma filter_key_found: "distinct (map k xs) \<Longrightarrow> x \<in> set xs \<Longrightarrow> filter (\<lambda>y. k y = k x) xs = [x]"
  using filter_unique_key [of k "\<lambda>_. True" xs "k x"] distinct_map_find [of k xs x] by simp


definition sample_kyc :: kyc_row where
  "sample_kyc = new_submission 3 70 1 ''0123456789'' None"


section \<open>Blocking an account\<close>

text \<open>Blocking an account closes the login, not the sessions. After a successful status change to
  inactive, login with the right PIN answers 403, but a token issued before still identifies the
  account on every route: \<open>get_current_user\<close> does not look at \<open>is_active\<close>.\<close>

theorem blocking_does_not_revoke:
  assumes "wf_db s" "u \<in> set (db_users s)" "u_role u \<noteq> ADMIN" "list_all (\<lambda>u. length (u_full_name u) \<le> 120) (db_users s)"
    and "tokens_decode e" "now \<le> t0 + 60 * expire_minutes e"
  shows "\<exists>u' s'. request (update_user_status now admin (u_id u) False) s = (Inr (u_id u, False), s') \<and>
     u' = u\<lparr>u_is_active := False, u_updated_at := now\<rparr> \<and>
     (\<forall>pin. pwd_verify e pin (u_pin_code_hash u) \<longrightarrow>
        fst (request (login e now (u_phone_number u) pin) s') = Inl (Http 403 Compte_desactive)) \<and>
     request (get_current_user e now (create_access_token e t0 (u_id u) (role_value (u_role u)))) s' = (Inr u', s')"
proof -
  let ?f = "\<lambda>r. r\<lparr>u_is_active := False, u_updated_at := now\<rparr>"
  let ?s = "s\<lparr>db_users := update_where (\<lambda>v. u_id v = u_id u) ?f (db_users s)\<rparr>"
  have dist: "distinct (map u_id (db_users s))" "distinct (map u_phone_number (db_users s))"
    using assms(1) by (auto simp: wf_db_def wf_users_def)
  have rows: "filter (\<lambda>v. u_id v = u_id u) (db_users s) = [u]" by (rule filter_key_found [OF dist(1) assms(2)])
  have up: "users_update (u_id u) ?f s = Inr ?s"
    using assms(4) by (auto simp: users_update_def Let_def list_ex_iff list_all_iff set_update_where)
  have run: "request (update_user_status now admin (u_id u) False) s = (Inr (u_id u, False), ?s)"
    using rows up assms(3)
    by (simp add: request_def update_user_status_def bindP_def query_def statement_def exec_def one_or_none_def
        ret_def commit_def)
  have upd: "update_where (\<lambda>v. u_id v = u_id u) ?f (db_users s) = map (\<lambda>v. if v = u then ?f u else v) (db_users s)"
    by (rule update_where_key_eq [OF dist(1) assms(2)])
  have same: "filter (\<lambda>v. c v = c u) (map (\<lambda>v. if v = u then ?f u else v) us) = [?f u]"
    if "filter (\<lambda>v. c v = c u) us = [u]" "c (?f u) = c u" for c :: "user_row \<Rightarrow> 'k" and us
  proof -
    have "filter (\<lambda>v. c v = c u) (map (\<lambda>v. if v = u then ?f u else v) us)
        = map (\<lambda>v. if v = u then ?f u else v) (filter (\<lambda>v. c v = c u) us)"
      using that(2) by (induction us) auto
    with that(1) show ?thesis by simp
  qed
  have phones: "filter (\<lambda>v. u_phone_number v = u_phone_number u) (db_users ?s) = [?f u]"
    using same [OF filter_key_found [OF dist(2) assms(2)]] upd by simp
  have ids: "filter (\<lambda>v. u_id v = u_id u) (db_users ?s) = [?f u]"
    using same [OF rows] upd by simp
  have "fst (request (login e now (u_phone_number u) pin) ?s) = Inl (Http 403 Compte_desactive)"
    if "pwd_verify e pin (u_pin_code_hash u)" for pin
    using phones that
    by (simp add: request_def login_def bindP_def query_def statement_def one_or_none_def ret_def http_def
        throw_def verify_pin_def)
  moreover have "request (get_current_user e now (create_access_token e t0 (u_id u) (role_value (u_role u)))) ?s = (Inr (?f u), ?s)"
    using ids assms(5,6)
    by (simp add: request_def get_current_user_def create_access_token_def tokens_decode_def bindP_def
        query_def statement_def one_or_none_def ret_def opened_def)
  ultimately show ?thesis using run by blast
qed

theorem blocking_does_not_revoke_witness:
  "\<exists>s'. request (get_current_user sample_security 7 (create_access_token sample_security 5 1 ''USER'')) s'
     = (Inr (sample_user 1 ''0701'' USER\<lparr>u_is_active := False, u_updated_at := 7\<rparr>), s')"
proof -
  let ?u = "sample_user 1 ''0701'' USER"
  have 1: "?u \<in> set (db_users sample_db)" "u_role ?u \<noteq> ADMIN" "7 \<le> 5 + 60 * expire_minutes sample_security"
    by (simp_all add: sample_db_def sample_user_def sample_security_def)
  have 2: "list_all (\<lambda>u. length (u_full_name u) \<le> 120) (db_users sample_db)" by code_simp
  from blocking_does_not_revoke [OF wf_sample_db 1(1,2) 2 sample_security_sound(2) 1(3)]
  show ?thesis by (auto simp: sample_user_def role_value_def)
qed

section \<open>Settings\<close>

definition links_to_write :: "(string \<times> string option) list \<Rightarrow> (string \<times> string) list" where
  "links_to_write links = concat (map (\<lambda>(name, v). case (map_of PAYMENT_LINK_KEYS name, v) of
     (Some k, Some v) \<Rightarrow> [(k, v)] | _ \<Rightarrow> []) links)"

lemma links_loop_run:
  "\<not> aborted \<sigma> \<Longrightarrow> set_payment_links_loop now links \<sigma> =
   (Inr (), \<sigma>\<lparr>current := fold (\<lambda>(k, v). put_setting now k v) (links_to_write links) (current \<sigma>)\<rparr>)"
proof (induction now links arbitrary: \<sigma> rule: set_payment_links_loop.induct)
  case (1 now)
  show ?case by (simp add: links_to_write_def ret_def)
next
  case (2 now name v links)
  show ?case
  proof (cases "map_of PAYMENT_LINK_KEYS name = None \<or> v = None")
    case True
    then have "set_payment_links_loop now ((name, v) # links) = set_payment_links_loop now links"
      "links_to_write ((name, v) # links) = links_to_write links"
      by (auto simp: links_to_write_def split: option.splits)
    with 2 True show ?thesis by (auto split: option.splits)
  next
    case False
    then obtain k w where kw: "map_of PAYMENT_LINK_KEYS name = Some k" "v = Some w" by auto
    let ?\<sigma> = "\<sigma>\<lparr>current := put_setting now k w (current \<sigma>)\<rparr>"
    have "set_payment_links_loop now links ?\<sigma> =
        (Inr (), ?\<sigma>\<lparr>current := fold (\<lambda>(k, v). put_setting now k v) (links_to_write links) (current ?\<sigma>)\<rparr>)"
      using 2 kw by simp
    with kw 2(4) show ?thesis by (simp add: bindP_def exec_put links_to_write_def)
  qed
qed

lemma fold_put_frame:
  "db_ledger (fold (\<lambda>(k, v). put_setting now k v) kvs s) = db_ledger s"
  "db_wallets (fold (\<lambda>(k, v). put_setting now k v) kvs s) = db_wallets s"
  by (induction kvs arbitrary: s) auto

text \<open>Payment links are read back as written. The update route stores the links that are given and
  keeps the others; it answers with, and any later request of a client reads, for each operator
  the new link if one was given and the old one otherwise, an empty text counting as no link.
  The fee and the money tables are untouched.\<close>

theorem payment_links_roundtrip:
  "\<exists>s'. let new = (\<lambda>k v. case (case v of None \<Rightarrow> setting k s | Some x \<Rightarrow> Some x) of
                None \<Rightarrow> None | Some x \<Rightarrow> if x = [] then None else Some x);
           answer = [(''wave'', new ''payment_link_wave'' w), (''orange'', new ''payment_link_orange'' o'),
                     (''mtn'', new ''payment_link_mtn'' mt), (''moov'', new ''payment_link_moov'' mv)]
      in request (update_payment_links_route now admin w o' mt mv) s = (Inr answer, s') \<and>
         request (get_current_payment_links user) s' = (Inr answer, s') \<and>
         setting ''fee_percent'' s' = setting ''fee_percent'' s \<and>
         db_ledger s' = db_ledger s \<and> db_wallets s' = db_wallets s"
proof -
  let ?links = "[(''wave'', w), (''orange'', o'), (''mtn'', mt), (''moov'', mv)]"
  let ?s = "fold (\<lambda>(k, v). put_setting now k v) (links_to_write ?links) s"
  have get: "request get_payment_links t = (Inr (map (\<lambda>(name, k). (name, case setting k t of
       None \<Rightarrow> None | Some v \<Rightarrow> if v = [] then None else Some v)) PAYMENT_LINK_KEYS), t)" for t
    by (simp add: request_def get_payment_links_def query_def statement_def opened_def)
  have run: "request (update_payment_links_route now admin w o' mt mv) s = request get_payment_links ?s"
    by (simp add: request_def update_payment_links_route_def set_payment_links_def bindP_def links_loop_run
        commit_def get_payment_links_def query_def statement_def del: set_payment_links_loop.simps)
  have st: "setting k ?s = (case map_of (rev (links_to_write ?links)) k of None \<Rightarrow> setting k s | Some v \<Rightarrow> Some v)" for k
    by (rule settings.lookup_puts)
  have vals: "setting ''payment_link_wave'' ?s = (case w of None \<Rightarrow> setting ''payment_link_wave'' s | Some x \<Rightarrow> Some x)"
    "setting ''payment_link_orange'' ?s = (case o' of None \<Rightarrow> setting ''payment_link_orange'' s | Some x \<Rightarrow> Some x)"
    "setting ''payment_link_mtn'' ?s = (case mt of None \<Rightarrow> setting ''payment_link_mtn'' s | Some x \<Rightarrow> Some x)"
    "setting ''payment_link_moov'' ?s = (case mv of None \<Rightarrow> setting ''payment_link_moov'' s | Some x \<Rightarrow> Some x)"
    "setting ''fee_percent'' ?s = setting ''fee_percent'' s"
    unfolding st
    by (cases w; cases o'; cases mt; cases mv; simp add: links_to_write_def PAYMENT_LINK_KEYS_def)+
  have frame: "db_ledger ?s = db_ledger s" "db_wallets ?s = db_wallets s" by (rule fold_put_frame)+
  define t where "t = ?s"
  note facts = run vals frame
  show ?thesis
    using facts [folded t_def]
    by (intro exI [of _ t]) (simp add: get get_current_payment_links_def PAYMENT_LINK_KEYS_def Let_def)
qed

section \<open>Lists and statistics\<close>

text \<open>Paging loses and repeats nothing. For given filters the answers of \<open>list_transactions\<close> for
  all limits and offsets are windows of one list, sorted by date with the newest first, which
  contains every matching transaction (with its owner's number) exactly as often as the
  database does; \<open>total\<close> is its length.\<close>

theorem transactions_paging:
  assumes "type_of (upper ty) \<noteq> None" "status_of (upper st) \<noteq> None" "ty \<noteq> []" "st \<noteq> []"
  shows "\<exists>all. sorted_wrt (\<lambda>x y. t_created_at (fst y) \<le> t_created_at (fst x)) all \<and>
     mset all = mset (filter (\<lambda>(t, ph). type_of (upper ty) = Some (t_type t) \<and> status_of (upper st) = Some (t_status t))
       (with_user s (db_ledger s))) \<and>
     (\<forall>limit offset. 0 \<le> limit \<longrightarrow> limit \<le> 200 \<longrightarrow> 0 \<le> offset \<longrightarrow>
        request (list_transactions admin (Some ty) (Some st) None limit offset) s =
          (Inr \<lparr>tp_total = length all,
                tp_items = map (\<lambda>(t, ph). (transaction_out_of t, ph)) (take (nat limit) (drop (nat offset) all))\<rparr>, s))"
proof -
  let ?rows = "filter (\<lambda>(t, ph). type_of (upper ty) = Some (t_type t) \<and> status_of (upper st) = Some (t_status t))
       (with_user s (db_ledger s))"
  let ?all = "newest_first (\<lambda>(t, ph). t_created_at t) ?rows"
  have "sorted_wrt (\<lambda>x y. t_created_at (fst y) \<le> t_created_at (fst x)) ?all"
    using newest_first_sorted [of "\<lambda>(t, ph). t_created_at t" ?rows] by (simp add: case_prod_beta)
  moreover have "mset ?all = mset ?rows" by (simp add: newest_first_def)
  moreover have "request (list_transactions admin (Some ty) (Some st) None limit offset) s =
          (Inr \<lparr>tp_total = length ?all,
                tp_items = map (\<lambda>(t, ph). (transaction_out_of t, ph)) (take (nat limit) (drop (nat offset) ?all))\<rparr>, s)"
    if "0 \<le> limit" "limit \<le> 200" "0 \<le> offset" for limit offset
    using that assms
    by (simp add: request_def list_transactions_def Let_def bindP_def guard_def query_def statement_def ret_def
        case_prod_beta)
  ultimately show ?thesis by blast
qed

theorem transactions_paging_witness:
  "\<exists>all. request (list_transactions (sample_user 9 ''0709'' ADMIN) (Some ''pay_in'') (Some ''PENDING'') None 1 0) sample_db
     = (Inr \<lparr>tp_total = length all, tp_items = map (\<lambda>(t, ph). (transaction_out_of t, ph)) (take 1 all)\<rparr>, sample_db)"
proof -
  have "type_of (upper ''pay_in'') \<noteq> None" "status_of (upper ''PENDING'') \<noteq> None" by code_simp+
  from transactions_paging [OF this, of sample_db "sample_user 9 ''0709'' ADMIN"] show ?thesis by auto
qed

lemma sum_amount_days:
  "sum_list (map (\<lambda>d. sum_amount (\<lambda>t. day_of (t_created_at t) = d \<and> P t) s) [a..b])
   = sum_amount (\<lambda>t. a \<le> day_of (t_created_at t) \<and> day_of (t_created_at t) \<le> b \<and> P t) s"
proof -
  have one: "sum_list (map (\<lambda>d. if day_of (t_created_at t) = d \<and> P t then t_amount t else 0) [a..b])
      = (if a \<le> day_of (t_created_at t) \<and> day_of (t_created_at t) \<le> b \<and> P t then t_amount t else 0)" for t
  proof -
    have "sum_list (map (\<lambda>d. if day_of (t_created_at t) = d \<and> P t then t_amount t else 0) [a..b])
        = (\<Sum>d \<in> {a..b}. if d = day_of (t_created_at t) then (if P t then t_amount t else 0) else 0)"
      by (subst sum_list_distinct_conv_sum_set) (auto intro!: sum.cong)
    then show ?thesis by simp
  qed
  have flt: "sum_amount Q s = sum_list (map (\<lambda>t. if Q t then t_amount t else 0) (db_ledger s))" for Q
    by (simp add: sum_amount_def sum_list_map_filter')
  have swap: "sum_list (map (\<lambda>d. sum_list (map (\<lambda>t. f d t) ts)) ds) = sum_list (map (\<lambda>t. sum_list (map (\<lambda>d. f d t) ds)) ts)"
    for f :: "int \<Rightarrow> ledger_row \<Rightarrow> int" and ts ds
    by (induction ds) (simp_all add: sum_list_addf)
  show ?thesis unfolding flt swap one ..
qed

text \<open>The daily series adds up. For 1 to 90 days the route answers with exactly that many
  consecutive days ending today, and over the series the received amounts add up to all
  successful deposits of the period, the withdrawn ones to all paid withdrawals: a transaction
  of the period is counted on exactly one day.\<close>

theorem daily_stats_add_up:
  assumes "1 \<le> days" "days \<le> 90"
  shows "\<exists>points. request (daily_stats now days) s = (Inr points, s) \<and>
     map dp_date points = [day_of now - (int days - 1)..day_of now] \<and> length points = days \<and>
     sum_list (map dp_recu points) = sum_amount (\<lambda>t. day_of now - (int days - 1) \<le> day_of (t_created_at t) \<and>
        day_of (t_created_at t) \<le> day_of now \<and> t_type t = PAY_IN \<and> t_status t = SUCCESS) s \<and>
     sum_list (map dp_retire points) = sum_amount (\<lambda>t. day_of now - (int days - 1) \<le> day_of (t_created_at t) \<and>
        day_of (t_created_at t) \<le> day_of now \<and> t_type t = PAY_OUT \<and> t_status t = SUCCESS) s"
proof -
  define ds where "ds = [day_of now - (int days - 1)..day_of now]"
  have "length ds = days" using assms by (simp add: ds_def)
  moreover have "request (daily_stats now days) s = (Inr (map (\<lambda>d.
       \<lparr>dp_date = d,
        dp_recu = sum_amount (\<lambda>t. day_of (t_created_at t) = d \<and> t_type t = PAY_IN \<and> t_status t = SUCCESS) s,
        dp_retire = sum_amount (\<lambda>t. day_of (t_created_at t) = d \<and> t_type t = PAY_OUT \<and> t_status t = SUCCESS) s,
        dp_frais = sum_fee (\<lambda>t. day_of (t_created_at t) = d) s\<rparr>) ds), s)"
    using assms by (simp add: request_def daily_stats_def bindP_def guard_def ret_def query_def statement_def ds_def)
  ultimately show ?thesis
    by (intro exI conjI) (assumption, simp_all add: comp_def sum_amount_days ds_def)
qed

theorem daily_stats_add_up_witness:
  "\<exists>points. request (daily_stats 100000 14) sample_db = (Inr points, sample_db) \<and> length points = 14"
  using daily_stats_add_up [of 14 100000 sample_db] by auto

section \<open>Manual approvals\<close>

definition two_deposits_db :: db where
  "two_deposits_db = sample_db\<lparr>db_ledger :=
     [sample_tx 100 ''PI-1'' 1 PAY_IN ORANGE 5000 None, sample_tx 102 ''PI-2'' 2 PAY_IN ORANGE 700 None]\<rparr>"

text \<open>Without an operator proof only one deposit per operator can be approved. Two deposits are
  waiting at the same operator, neither with a proof; the administrator approves the first
  without giving a proof, and the second approval is refused as a reused proof, because the
  text recorded in its place is the same for every approval of that administrator.\<close>

theorem manual_approval_blocks_next:
  "wf_db two_deposits_db \<and>
   \<not> isl (fst (request (process_payin_route 7 (sample_user 9 ''0709'' ADMIN) 100 ''approve'' None) two_deposits_db)) \<and>
   fst (request (process_payin_route 8 (sample_user 9 ''0709'' ADMIN) 102 ''approve'' None)
     (snd (request (process_payin_route 7 (sample_user 9 ''0709'' ADMIN) 100 ''approve'' None) two_deposits_db)))
   = Inl (Http 400 (Of_service Preuve_deja_utilisee))"
  by code_simp

end
