(* ===== verification/Books.thy ===== *)
theory Books
  imports Samples
begin

text \<open>
  Sequences of calls of the ledger functions, and the books: what the ledger says a client
  should own against what the wallet says. \<open>ledger_call\<close> is one \<open>SELECT f(...)\<close> of the service,
  \<open>ledger_run\<close> a sequence of them from any number of clients in any order, each in its own
  transaction (a refused statement leaves the database as it was).
\<close>

datatype ledger_call =
    Credit_payin string "string option" "rat option"
  | Deduct_payout uuid uuid rat string payment_provider string
  | Review_payout uuid uuid string "string option" uuid
  | Transfer_money uuid uuid uuid rat string string string rat

datatype ledger_answer =
    Payin_answer payin_reply
  | Payout_answer payout_reply
  | Review_answer review_reply
  | Transfer_answer transfer_reply

fun is_refusal :: "ledger_answer \<Rightarrow> bool" where
  "is_refusal (Payin_answer (Payin_refused m)) = True"
| "is_refusal (Payout_answer (Payout_refused m)) = True"
| "is_refusal (Review_answer (Review_refused m)) = True"
| "is_refusal (Transfer_answer (Transfer_refused m)) = True"
| "is_refusal _ = False"

definition answer :: "('r \<Rightarrow> ledger_answer) \<Rightarrow> sql_error + ('r \<times> db) \<Rightarrow> sql_error + (ledger_answer \<times> db)" where
  "answer f m = bindE m (\<lambda>(r, s). Inr (f r, s))"

fun call_ledger :: "timestamp \<Rightarrow> ledger_call \<Rightarrow> db \<Rightarrow> sql_error + (ledger_answer \<times> db)" where
  "call_ledger now (Credit_payin ref proof conf) s = answer Payin_answer (process_payin_credit now ref proof conf s)"
| "call_ledger now (Deduct_payout i u a ref prov ph) s =
     answer Payout_answer (process_payout_deduction now i u a ref prov ph s)"
| "call_ledger now (Review_payout i tid act proof adm) s =
     answer Review_answer (sql_admin_process_payout now i tid act proof adm s)"
| "call_ledger now (Transfer_money io ii u a ph rs rr pct) s =
     answer Transfer_answer (process_internal_transfer now io ii u a ph rs rr pct s)"

definition after_call :: "timestamp \<times> ledger_call \<Rightarrow> db \<Rightarrow> db" where
  "after_call c s = state_after s (call_ledger (fst c) (snd c) s)"

fun ledger_run :: "(timestamp \<times> ledger_call) list \<Rightarrow> db \<Rightarrow> db" where
  "ledger_run [] s = s"
| "ledger_run (c # cs) s = ledger_run cs (after_call c s)"

lemma answer_Inr: "answer f m = Inr (a, s') \<longleftrightarrow> (\<exists>r. m = Inr (r, s') \<and> a = f r)"
  by (auto simp: answer_def outcome_simps)

text \<open>A refused request changes nothing: whichever function is called, when it answers with
  success = false the database is the one it was called on.\<close>

theorem refusal_changes_nothing:
  "call_ledger now c s = Inr (a, s') \<Longrightarrow> is_refusal a \<Longrightarrow> s' = s"
proof (cases c)
  case (Credit_payin x y z)
  then show "call_ledger now c s = Inr (a, s') \<Longrightarrow> is_refusal a \<Longrightarrow> s' = s"
    by (auto simp: answer_Inr elim!: payin_credit_cases)
next
  case Deduct_payout
  then show "call_ledger now c s = Inr (a, s') \<Longrightarrow> is_refusal a \<Longrightarrow> s' = s"
    by (auto simp: answer_Inr elim!: payout_deduction_cases)
next
  case Review_payout
  then show "call_ledger now c s = Inr (a, s') \<Longrightarrow> is_refusal a \<Longrightarrow> s' = s"
    by (auto simp: answer_Inr elim!: admin_review_cases)
next
  case Transfer_money
  then show "call_ledger now c s = Inr (a, s') \<Longrightarrow> is_refusal a \<Longrightarrow> s' = s"
    by (auto simp: answer_Inr elim!: internal_transfer_cases)
qed

theorem refusal_changes_nothing_witness:
  "state_after empty_db (call_ledger 7 (Deduct_payout 200 1 1000 ''PO-2'' MTN ''0701'') sample_db) = sample_db"
proof -
  let ?m = "call_ledger 7 (Deduct_payout 200 1 1000 ''PO-2'' MTN ''0701'') sample_db"
  have "reply_of ?m = Some (Payout_answer (Payout_refused Solde_virtuel_insuffisant))" by code_simp
  from refusal_changes_nothing [OF run_split [OF this, of empty_db]] show ?thesis by simp
qed

lemma call_ledger_wf: "wf_db s \<Longrightarrow> call_ledger now c s = Inr (a, s') \<Longrightarrow> wf_db s'"
  by (cases c)
     (auto simp: answer_Inr intro: payin_credit_wf payout_deduction_wf admin_review_wf internal_transfer_wf)

lemma after_call_wf: "wf_db s \<Longrightarrow> wf_db (after_call c s)"
  by (auto simp: after_call_def state_after_def dest: call_ledger_wf split: sum.splits)

text \<open>After any sequence of calls the schema's constraints hold: unique ids, references and
  proofs, positive amounts, owners that exist, and no balance below zero or above the column's
  limit. So no wallet is ever overdrawn.\<close>

theorem ledger_run_keeps_constraints: "wf_db s \<Longrightarrow> wf_db (ledger_run cs s)"
  by (induction cs arbitrary: s) (simp_all add: after_call_wf)

theorem ledger_run_keeps_constraints_witness:
  "wf_db (ledger_run [(7, Credit_payin ''PI-1'' (Some ''OM9'') None), (8, Review_payout 300 101 ''REJECT'' None 9)] sample_db)"
  by (rule ledger_run_keeps_constraints [OF wf_sample_db])

section \<open>The books\<close>

definition tx_effect :: "ledger_row \<Rightarrow> int" where
  "tx_effect t =
     (case t_type t of
        PAY_IN \<Rightarrow> if t_status t = SUCCESS then t_amount t else 0
      | PAY_OUT \<Rightarrow> if t_status t = PENDING \<or> t_status t = SUCCESS then - t_amount t else 0
      | INTERNAL_TRANSFER \<Rightarrow>
          if t_status t \<noteq> SUCCESS then 0
          else if jget (t_metadata t) ''role'' = Some (JStr ''sender'') then - (t_amount t + t_fee t)
          else t_amount t)"

definition owned :: "uuid \<Rightarrow> ledger_row list \<Rightarrow> int" where
  "owned u ts = sum_list (map (\<lambda>t. if t_user_id t = u then tx_effect t else 0) ts)"

definition books_balance :: "(uuid \<Rightarrow> int) \<Rightarrow> db \<Rightarrow> bool" where
  "books_balance opening s \<longleftrightarrow> (\<forall>u b. balance s u = Some b \<longrightarrow> b = opening u + owned u (db_ledger s))"

text \<open>
  The calls that keep the books: deposits are credited as deposits (the route checks the type),
  withdrawals are reviewed as withdrawals (nothing checks it), and amounts of withdrawals have
  no half cent.
\<close>

fun proper :: "ledger_call \<Rightarrow> db \<Rightarrow> bool" where
  "proper (Credit_payin ref proof conf) s =
     (case tx_by_reference ref s of None \<Rightarrow> True | Some t \<Rightarrow> t_type t = PAY_IN)"
| "proper (Deduct_payout i u a ref prov ph) s = (0 < a \<and> 100 * a \<noteq> of_int \<lfloor>100 * a\<rfloor> + 1/2)"
| "proper (Review_payout i tid act proof adm) s =
     (case tx_by_id tid s of None \<Rightarrow> True | Some t \<Rightarrow> t_type t = PAY_OUT)"
| "proper (Transfer_money io ii u a ph rs rr pct) s = (0 \<le> pct)"

fun proper_run :: "(timestamp \<times> ledger_call) list \<Rightarrow> db \<Rightarrow> bool" where
  "proper_run [] s = True"
| "proper_run (c # cs) s = (proper (snd c) s \<and> proper_run cs (after_call c s))"

lemma owned_append [simp]: "owned u (ts @ ts') = owned u ts + owned u ts'"
  by (simp add: owned_def)

lemma owned_simps [simp]:
  "owned u [] = 0" "owned u (t # ts) = (if t_user_id t = u then tx_effect t else 0) + owned u ts"
  by (simp_all add: owned_def)

lemma owned_update:
  assumes "wf_db s" "tx_by_id i s = Some t" "t_user_id (f t) = t_user_id t"
  shows "owned u (update_where (\<lambda>r. t_id r = i) f (db_ledger s))
       = owned u (db_ledger s) + (if u = t_user_id t then tx_effect (f t) - tx_effect t else 0)"
  using sum_list_update_where_key [OF wf_ledgerD(1) [OF assms(1)] assms(2) [unfolded tx_by_id_def],
      of "\<lambda>t. if t_user_id t = u then tx_effect t else 0" f] assms(3)
  by (simp add: owned_def)

lemma books_credit:
  assumes wf: "wf_db s" and bb: "books_balance op s" and pr: "proper (Credit_payin ref proof conf) s"
    and call: "process_payin_credit now ref proof conf s = Inr (r, s')"
  shows "books_balance op s'"
  using call
proof (cases rule: payin_credit_cases)
  case (credited tx ws)
  have ty: "t_type tx = PAY_IN" using pr credited(1) by simp
  have id: "tx_by_id (t_id tx) s = Some tx"
    using tx_found_same(1) [OF wf] tx_by_reference_SomeD [OF credited(1)] by simp
  have "balance_in ws u = (if u = t_user_id tx then map_option (\<lambda>b. b + t_amount tx) (balance s u)
      else balance s u)" for u
    using wallets.bal_add_cents [OF _ credited(5), of u] wf_ledgerD(3) [OF wf] by (simp add: balance_def)
  moreover have "tx_effect (mark_credited proof now tx) - tx_effect tx = t_amount tx"
    using ty credited(2) by (auto simp: tx_effect_def)
  ultimately show ?thesis
    using bb owned_update [OF wf id, of "mark_credited proof now"] credited(8)
    by (auto simp: books_balance_def split: if_splits)
qed (use bb in simp)

lemma books_deduct:
  assumes wf: "wf_db s" and bb: "books_balance op s" and pr: "proper (Deduct_payout i u a ref prov ph) s"
    and call: "process_payout_deduction now i u a ref prov ph s = Inr (r, s')"
  shows "books_balance op s'"
  using call
proof (cases rule: payout_deduction_cases)
  case (reserved b ws t)
  have w0: "wf_wallets (db_wallets s)" using wf_ledgerD(3) [OF wf] .
  have "100 * a \<le> of_int b" using reserved(2) by (simp add: cents_def)
  then have "balance_in ws u = Some (b - t_amount t)"
    using wallets.debit_covered [OF w0 reserved(3)] pr reserved(1,9) by (simp add: balance_def)
  moreover have "balance_in ws v = balance s v" if "v \<noteq> u" for v
    using wallets.bal_add [OF w0 reserved(3), of v] that by (simp add: balance_def)
  moreover have "tx_effect t = - t_amount t" using reserved by (simp add: tx_effect_def)
  ultimately show ?thesis
    using bb reserved by (auto simp: books_balance_def)
qed (use bb in simp)

lemma books_review:
  assumes wf: "wf_db s" and bb: "books_balance op s" and pr: "proper (Review_payout i tid act proof adm) s"
    and call: "sql_admin_process_payout now i tid act proof adm s = Inr (r, s')"
  shows "books_balance op s'"
  using call
proof (cases rule: admin_review_cases)
  case (approved tx al)
  then have "tx_effect (mark_paid proof now tx) = tx_effect tx" using pr by (simp add: tx_effect_def)
  then show ?thesis
    using bb owned_update [OF wf approved(1), of "mark_paid proof now"] approved(6)
    by (simp add: books_balance_def)
next
  case (rejected tx ws al)
  have "balance_in ws u = (if u = t_user_id tx then map_option (\<lambda>b. b + t_amount tx) (balance s u)
      else balance s u)" for u
    using wallets.bal_add_cents [OF _ rejected(5), of u] wf_ledgerD(3) [OF wf] by (simp add: balance_def)
  moreover have "tx_effect (mark_rejected adm now tx) - tx_effect tx = t_amount tx"
    using pr rejected(1,2) by (simp add: tx_effect_def)
  ultimately show ?thesis
    using bb owned_update [OF wf rejected(1), of "mark_rejected adm now"] rejected(7)
    by (auto simp: books_balance_def split: if_splits)
qed (use bb in simp)

lemma books_transfer:
  assumes wf: "wf_db s" and bb: "books_balance op s" and pr: "0 \<le> pct"
    and call: "process_internal_transfer now io ii snd_id a ph rs rr pct s = Inr (r, s')"
  shows "books_balance op s'"
  using call
proof (cases rule: internal_transfer_cases)
  case (moved u b b' f tt ws1 ws t1 t2 sp)
  let ?A = "round_half_away (100 * a)"
  have w0: "wf_wallets (db_wallets s)" using wf_ledgerD(3) [OF wf] .
  have w1: "wf_wallets ws1" using wallets.inv_add [OF w0 moved(9)] .
  have "0 \<le> f" using moved(1,7) pr by (simp add: round_half_away_nonneg)
  then have tot: "tt = ?A + f"
    using moved(1,8) round_half_away_add_int [of "100 * a" f] by (simp add: add.commute)
  have b1: "balance_in ws1 v = (if v = snd_id then map_option (\<lambda>b. b + - tt) (balance s snd_id)
      else balance s v)" for v
    using wallets.bal_add_cents [OF w0 moved(9), of v] by (simp add: balance_def)
  have r: "balance_in ws (u_id u) = Some (b' + ?A)"
    using wallets.credit_nonneg [OF w1 moved(10)] b1 [of "u_id u"] moved(1,3,5) by simp
  have o: "balance_in ws v = balance_in ws1 v" if "v \<noteq> u_id u" for v
    using wallets.bal_add [OF w1 moved(10), of v] that by simp
  have e: "tx_effect t1 = - (?A + f)" "tx_effect t2 = ?A" "t_user_id t1 = snd_id" "t_user_id t2 = u_id u"
    using moved(11,12) by (simp_all add: tx_effect_def)
  have "v = snd_id \<or> v = u_id u \<or> v \<noteq> snd_id \<and> v \<noteq> u_id u" for v by blast
  then show ?thesis
    unfolding books_balance_def
  proof (intro allI impI, goal_cases)
    case (1 v c)
    from 1(1) [of v] show ?case
      using 1(2) bb moved(3,4,5,18) e r o [of v] b1 [of v] tot
      by (auto simp: books_balance_def)
  qed
qed (use bb in simp)

text \<open>The books balance. Start from a database whose wallets are explained by an opening
  balance and the ledger, and make any sequence of calls in which deposits are credited as
  deposits, withdrawals are reviewed as withdrawals and no withdrawn amount has a half cent.
  Then at every moment each wallet holds exactly the opening balance plus the credited deposits
  and received transfers, minus the pending and paid withdrawals and the sent transfers with
  their fees.\<close>

theorem books_always_balance:
  "wf_db s \<Longrightarrow> books_balance op s \<Longrightarrow> proper_run cs s \<Longrightarrow> books_balance op (ledger_run cs s)"
proof (induction cs arbitrary: s)
  case (Cons c cs)
  obtain now k where c: "c = (now, k)" by (cases c)
  have "books_balance op (after_call c s)"
  proof (cases "call_ledger now k s")
    case (Inl e)
    with Cons.prems show ?thesis by (simp add: after_call_def state_after_def c)
  next
    case (Inr ra)
    obtain r s' where ra: "ra = (r, s')" by (cases ra)
    from Inr ra Cons.prems have "books_balance op s'"
      unfolding c by (cases k) (auto simp: answer_Inr simp del: proper.simps(1,2,3)
          intro: books_credit books_deduct books_review books_transfer)
    with Inr ra show ?thesis by (simp add: after_call_def state_after_def c)
  qed
  with Cons show ?case by (simp add: after_call_wf)
qed simp

theorem books_always_balance_witness:
  "balance (ledger_run [(7, Credit_payin ''PI-1'' (Some ''OM9'') None),
      (8, Deduct_payout 200 1 25 ''PO-2'' MTN ''0701''), (9, Review_payout 300 101 ''REJECT'' None 9)] sample_db) 2
   = Some 5000"
proof -
  define cs where "cs = [(7 :: nat, Credit_payin ''PI-1'' (Some ''OM9'') None),
      (8, Deduct_payout 200 1 25 ''PO-2'' MTN ''0701''), (9, Review_payout 300 101 ''REJECT'' None 9)]"
  define op where "op = (\<lambda>u :: uuid. if u = 1 then 10000 else 5000 :: int)"
  have "balance sample_db u = (if u = 1 then Some 10000 else if u = 2 then Some 2000 else None)" for u
    by (simp add: balance_def balance_in_def sample_db_def sample_wallet_def)
  then have "books_balance op sample_db"
    by (simp add: books_balance_def op_def sample_db_def sample_tx_def tx_effect_def)
  moreover have "proper_run cs sample_db" unfolding cs_def by code_simp
  ultimately have bb: "books_balance op (ledger_run cs sample_db)"
    using books_always_balance [OF wf_sample_db] by blast
  have "balance (ledger_run cs sample_db) 2 \<noteq> None" "owned 2 (db_ledger (ledger_run cs sample_db)) = 0"
    unfolding cs_def by code_simp+
  moreover from bb have "balance (ledger_run cs sample_db) 2 = Some b \<Longrightarrow>
      b = op 2 + owned 2 (db_ledger (ledger_run cs sample_db))" for b
    by (simp add: books_balance_def)
  ultimately have "balance (ledger_run cs sample_db) 2 = Some 5000" by (auto simp: op_def)
  then show ?thesis unfolding cs_def .
qed

end
