(* ===== verification/ServiceProps.thy ===== *)
theory ServiceProps
  imports Service AdminContract Books
begin

text \<open>
  Lemmas about every route at once, from those of the components: constraints of the schema,
  errors without effect, and what a call can do to accounts, wallets and the ledger.
\<close>

section \<open>Constraints\<close>

lemma keeps_update_me [keeps_intros]: "keeps wf_db (update_me now user n)"
  unfolding update_me_def refreshed_def Let_def
  by (auto split: option.splits intro!: keeps_intros elim: wf_users_update)

lemma keeps_answers [keeps_intros]:
  "keeps I p \<Longrightarrow> keeps I (answers f p)" "keeps I q \<Longrightarrow> keeps I (answers_with_tasks g q)"
  unfolding answers_def answers_with_tasks_def by (auto intro!: keeps_intros)

lemma keeps_serve: "keeps wf_db (serve v d c)"
proof (cases c)
  case (Public p)
  then show ?thesis by (cases p) (auto intro!: keeps_intros)
next
  case (Client t k)
  have "keeps wf_db (serve_client v d user k)" for user by (cases k) (auto intro!: keeps_intros)
  with Client show ?thesis by (auto intro!: keeps_intros)
next
  case (Administrator t k)
  have "keeps wf_db (serve_admin v d admin k)" for admin by (cases k) (auto intro!: keeps_intros)
  with Administrator show ?thesis by (auto intro!: keeps_intros)
qed

lemma run_tasks_wf: "wf_db s \<Longrightarrow> wf_db (run_tasks v ts s)"
proof (induction ts arbitrary: s)
  case Nil
  then show ?case by (simp add: run_tasks_def)
next
  case (Cons t ts)
  have "wf_db (notify_user_background (fcm_of v) (fst t) (snd t) s)"
    using Cons.prems by (simp add: notify_user_background_def request_def notify_user_opened
        without_devices_def wf_devices_filter)
  with Cons.IH show ?case by (simp add: run_tasks_def case_prod_beta)
qed

lemma handle_wf: "wf_db s \<Longrightarrow> handle v d c s = (r, s') \<Longrightarrow> wf_db s'"
  by (erule handle_cases) (auto dest: request_keeps [OF keeps_serve] intro: run_tasks_wf)

section \<open>Errors have no effect\<close>

definition reads :: "'a prog \<Rightarrow> bool" where
  "reads p \<longleftrightarrow> (\<forall>\<sigma>. snd (p \<sigma>) = \<sigma>)"

lemma reads_intros:
  "reads (ret x)" "reads (throw e)" "reads (http n d)" "reads (guard b e)" "reads (query f)" "reads (one_or_none rs)"
  "reads m \<Longrightarrow> (\<And>x. reads (k x)) \<Longrightarrow> reads (bindP m k)"
  by (auto simp: reads_def ret_def throw_def http_def guard_def query_def statement_def one_or_none_def bindP_def
      split: list.splits prod.splits sum.splits)
     (metis snd_conv)+

lemma reads_auth: "reads (get_current_user e now t)" "reads (require_admin u)"
  unfolding get_current_user_def require_admin_def
  by (auto split: option.splits intro!: reads_intros)

lemma request_reads_bind:
  assumes "reads m"
  shows "request (bindP m k) s = (case fst (m (opened s)) of Inl e \<Rightarrow> (Inl e, s) | Inr x \<Rightarrow> request (k x) s)"
proof -
  have "m (opened s) = (fst (m (opened s)), opened s)"
    using assms by (simp add: reads_def prod_eq_iff)
  then show ?thesis by (cases "fst (m (opened s))") (simp_all add: request_def bindP_def)
qed

lemma aon_reads_bind: "reads m \<Longrightarrow> (\<And>x. all_or_nothing (k x)) \<Longrightarrow> all_or_nothing (bindP m k)"
  by (auto simp: all_or_nothing_def request_reads_bind split: sum.splits)

lemma request_answers:
  "request (answers f p) s = (case request p s of (Inl e, s') \<Rightarrow> (Inl e, s') | (Inr x, s') \<Rightarrow> (Inr (f x, []), s'))"
  "request (answers_with_tasks g q) s =
     (case request q s of (Inl e, s') \<Rightarrow> (Inl e, s') | (Inr (x, ts), s') \<Rightarrow> (Inr (g x, ts), s'))"
  by (simp_all add: request_def answers_def answers_with_tasks_def bindP_def ret_def
      split: prod.splits sum.splits)

lemma aon_answers:
  "all_or_nothing p \<Longrightarrow> all_or_nothing (answers f p)"
  "all_or_nothing q \<Longrightarrow> all_or_nothing (answers_with_tasks g q)"
  by (auto simp: all_or_nothing_def request_answers split: prod.splits sum.splits)

lemma links_loop_no_commit [no_commit_intros]: "no_commit (set_payment_links_loop now links)"
  by (induction now links rule: set_payment_links_loop.induct)
     (auto split: option.splits intro!: no_commit_intros)

lemma settings_routes_aon:
  "all_or_nothing (update_fee_percent_route now admin p)"
  "all_or_nothing (update_payment_links_route now admin w og mt mv)"
proof -
  show "all_or_nothing (update_fee_percent_route now admin p)"
    unfolding update_fee_percent_route_def set_fee_percent_def
    by (intro silent_all_or_nothing silent_bind_before no_commit_intros silent_bind_after silent_intros infallible_intros)
  show "all_or_nothing (update_payment_links_route now admin w og mt mv)"
    unfolding update_payment_links_route_def set_payment_links_def get_payment_links_def
    by (intro silent_all_or_nothing silent_bind_after silent_bind_before links_loop_no_commit silent_simple infallible_intros)
qed

lemma admin_routes_aon:
  "all_or_nothing (process_payout_route now i admin tid act pf)"
  "all_or_nothing (process_payin_route now admin tid act pf)"
  "all_or_nothing (credit_user_wallet now i u admin uid a reason)"
  unfolding all_or_nothing_def
  by (auto elim: process_payout_cases process_payin_cases credit_user_cases)

lemmas routes_aon = wallet_routes_aon accounts_aon update_me_aon kyc_routes_aon settings_routes_aon
  admin_routes_aon silent_admin_routes [THEN silent_all_or_nothing]
  no_commit_admin_reads [THEN silent_base(1), THEN silent_all_or_nothing]

lemma aon_ret: "all_or_nothing (ret x)"
  by (simp add: all_or_nothing_def request_def ret_def)

lemma serve_aon: "all_or_nothing (serve v d c)"
proof (cases c)
  case (Public p)
  then show ?thesis by (cases p) (auto intro!: aon_answers routes_aon aon_ret)
next
  case (Client t k)
  have "all_or_nothing (serve_client v d user k)" for user
    by (cases k) (auto intro!: aon_answers routes_aon aon_ret aon_reads_bind reads_intros)
  with Client show ?thesis by (auto intro!: aon_reads_bind reads_intros reads_auth)
next
  case (Administrator t k)
  have "all_or_nothing (serve_admin v d admin k)" for admin
    by (cases k) (auto intro!: aon_answers routes_aon)
  with Administrator show ?thesis by (auto intro!: aon_reads_bind reads_intros reads_auth)
qed

end
