(* ===== verification/Routes.thy ===== *)
theory Routes
  imports Schemas ServiceProps
begin

text \<open>
  The HTTP side of \<open>app/main.py\<close>: CORS, the table of routes in the order in which the routers are
  included, and what FastAPI does with a request before and after a handler. A request has a method,
  a path split at its slashes, query parameters and a body; a route is a pattern, the status of its
  success and a function from the parameters and the body to an \<open>endpoint\<close>: whose token is needed
  and which call is made, if the arguments are valid. The text of an id is read by PostgreSQL
  (\<open>uuid_of\<close>); where it is no UUID the statement that has it fails.
\<close>

datatype http_method = GET | POST | PUT | DELETE | HEAD | PATCH | OPTIONS

datatype http_body =
    No_body
  | Not_json
  | Malformed
  | Json py_value

record web_request =
  wr_method :: http_method
  wr_path :: "string list"
  wr_query :: query_args
  wr_authorization :: "string option"
  wr_origin :: "string option"
  wr_preflight_for :: "string option"
  wr_body :: http_body

datatype reply =
    Success nat answer
  | Refused nat detail
  | Not_authenticated
  | No_such_route
  | Method_not_allowed
  | Redirected "string list"
  | Preflight_ok
  | Preflight_refused
  | Documentation
  | Internal_error

fun status_of_reply :: "reply \<Rightarrow> nat" where
  "status_of_reply (Success n a) = n"
| "status_of_reply (Refused n d) = n"
| "status_of_reply Not_authenticated = 403"
| "status_of_reply No_such_route = 404"
| "status_of_reply Method_not_allowed = 405"
| "status_of_reply (Redirected p) = 307"
| "status_of_reply Preflight_ok = 200"
| "status_of_reply Preflight_refused = 400"
| "status_of_reply Documentation = 200"
| "status_of_reply Internal_error = 500"

section \<open>Endpoints\<close>

text \<open>\<open>Bad_id p\<close>: the id is not a UUID; \<open>p\<close> is what the handler does before it uses the id, and the
  error of the statement that does.\<close>

datatype 'k parsed =
    Call_of 'k
  | Invalid
  | Bad_id "security \<Rightarrow> unit prog"

datatype endpoint =
    Docs
  | Open_to_all "public_call parsed"
  | Bearer "client_call parsed"
  | Admin_bearer "admin_call parsed"

datatype seg = Lit string | Param

record route =
  ro_method :: http_method
  ro_pattern :: "seg list"
  ro_status :: nat
  ro_has_body :: bool
  ro_endpoint :: "(string \<Rightarrow> uuid option) \<Rightarrow> string list \<Rightarrow> query_args \<Rightarrow> http_body \<Rightarrow> endpoint"

definition parsed :: "('a \<Rightarrow> 'k) \<Rightarrow> 'a option \<Rightarrow> 'k parsed" where
  "parsed f x = (case x of None \<Rightarrow> Invalid | Some y \<Rightarrow> Call_of (f y))"

definition from_body :: "(py_value \<Rightarrow> 'a option) \<Rightarrow> http_body \<Rightarrow> 'a option" where
  "from_body f b = (case b of Json v \<Rightarrow> f v | _ \<Rightarrow> None)"

definition with_id :: "(security \<Rightarrow> unit prog) \<Rightarrow> uuid option \<Rightarrow> (uuid \<Rightarrow> 'k parsed) \<Rightarrow> 'k parsed" where
  "with_id p i f = (case i of None \<Rightarrow> Bad_id p | Some j \<Rightarrow> f j)"

section \<open>The table of routes\<close>

definition api :: "string list \<Rightarrow> seg list" where
  "api p = map Lit ([''api'', ''v1''] @ p)"

definition plain :: "http_method \<Rightarrow> seg list \<Rightarrow> endpoint \<Rightarrow> route" where
  "plain m p ep = \<lparr>ro_method = m, ro_pattern = p, ro_status = 200, ro_has_body = False, ro_endpoint = (\<lambda>_ _ _ _. ep)\<rparr>"

definition querying :: "seg list \<Rightarrow> (query_args \<Rightarrow> endpoint) \<Rightarrow> route" where
  "querying p f = \<lparr>ro_method = GET, ro_pattern = p, ro_status = 200, ro_has_body = False, ro_endpoint = (\<lambda>_ _ q _. f q)\<rparr>"

definition taking :: "http_method \<Rightarrow> seg list \<Rightarrow> nat \<Rightarrow> (http_body \<Rightarrow> endpoint) \<Rightarrow> route" where
  "taking m p st f = \<lparr>ro_method = m, ro_pattern = p, ro_status = st, ro_has_body = True, ro_endpoint = (\<lambda>_ _ _ b. f b)\<rparr>"

definition naming :: "http_method \<Rightarrow> seg list \<Rightarrow> bool \<Rightarrow> (uuid option \<Rightarrow> http_body \<Rightarrow> endpoint) \<Rightarrow> route" where
  "naming m p hb f = \<lparr>ro_method = m, ro_pattern = p, ro_status = 200, ro_has_body = hb,
     ro_endpoint = (\<lambda>uuid_of ps _ b. f (uuid_of (hd ps)) b)\<rparr>"

text \<open>The documentation that FastAPI serves by itself.\<close>

definition docs_routes :: "route list" where
  "docs_routes = concat (map (\<lambda>p. [plain GET (map Lit p) Docs, plain HEAD (map Lit p) Docs])
     [[''openapi.json''], [''docs''], [''docs'', ''oauth2-redirect''], [''redoc'']])"

definition auth_routes :: "route list" where
  "auth_routes =
     [plain GET (api [''auth'', ''me'']) (Bearer (Call_of Me)),
      taking PUT (api [''auth'', ''me'']) 200 (\<lambda>b. Bearer (parsed Update_me (from_body me_update_of b))),
      taking POST (api [''auth'', ''register'']) 201
        (\<lambda>b. Open_to_all (parsed Register (from_body register_body_of b))),
      taking POST (api [''auth'', ''login'']) 200
        (\<lambda>b. Open_to_all (parsed (\<lambda>(ph, pin). Login ph pin) (from_body login_of b))),
      taking POST (api [''auth'', ''admin'', ''bootstrap'']) 200
        (\<lambda>b. Open_to_all (parsed (\<lambda>(ph, pin, sec). Bootstrap ph pin sec) (from_body bootstrap_of b)))]"

definition wallet_routes :: "route list" where
  "wallet_routes =
     [plain GET (api [''wallet'', ''me'']) (Bearer (Call_of My_wallet)),
      taking POST (api [''wallet'', ''payin'', ''declare'']) 200
        (\<lambda>b. Bearer (parsed Declare_payin (from_body payin_body_of b))),
      taking POST (api [''wallet'', ''payin'', ''declare-async'']) 202
        (\<lambda>b. Bearer (parsed Declare_payin_async (from_body payin_body_of b))),
      taking POST (api [''wallet'', ''payout'', ''request'']) 200
        (\<lambda>b. Bearer (parsed Payout_request (from_body payout_body_of b))),
      plain GET (api [''wallet'', ''fee-percent'']) (Bearer (Call_of Fee_percent)),
      plain GET (api [''wallet'', ''payment-links'']) (Bearer (Call_of Payment_links)),
      taking POST (api [''wallet'', ''transfer'', ''internal'']) 200
        (\<lambda>b. Bearer (parsed (\<lambda>(a, ph). Transfer a ph) (from_body transfer_of b))),
      querying (api [''wallet'', ''transactions'']) (\<lambda>q. Bearer (parsed My_transactions (int_arg ''limit'' 50 q)))]"

definition secret_and :: "query_args \<Rightarrow> (string \<Rightarrow> public_call) \<Rightarrow> endpoint" where
  "secret_and q f = Open_to_all (parsed f (arg ''secret'' q))"

definition bad_uuid :: "security \<Rightarrow> unit prog" where
  "bad_uuid e = throw Other_exception"

definition before_review :: "(string \<times> string option) \<Rightarrow> security \<Rightarrow> unit prog" where
  "before_review a e = (if upper (fst a) \<notin> {''APPROVE'', ''REJECT''} then http 400 Action_invalide else bad_uuid e)"

definition before_decision :: "string \<Rightarrow> security \<Rightarrow> unit prog" where
  "before_decision decision e = (if decision \<notin> {''approve'', ''reject''} then http 422 Validation_error else bad_uuid e)"

definition before_credit :: "(rat \<times> string) \<Rightarrow> security \<Rightarrow> unit prog" where
  "before_credit a e = (if \<not> valid_amount (fst a) \<or> length (snd a) < 3 \<or> 200 < length (snd a)
     then http 422 Validation_error else bad_uuid e)"

definition before_link :: "string \<Rightarrow> string \<Rightarrow> security \<Rightarrow> unit prog" where
  "before_link secret decision e = (if decision \<notin> {''approve'', ''reject''} then http 422 Validation_error
     else bindP (check_secret e secret) (\<lambda>_. bad_uuid e))"

definition reviewing :: "(uuid \<Rightarrow> string \<Rightarrow> string option \<Rightarrow> admin_call) \<Rightarrow> uuid option \<Rightarrow> http_body \<Rightarrow> endpoint" where
  "reviewing f i b = Admin_bearer (case from_body admin_action_of b of None \<Rightarrow> Invalid
     | Some a \<Rightarrow> with_id (before_review a) i (\<lambda>j. Call_of (f j (fst a) (snd a))))"

definition admin_routes :: "route list" where
  "admin_routes =
     [plain GET (api [''admin'', ''dashboard-stats'']) (Admin_bearer (Call_of Dashboard)),
      plain GET (api [''admin'', ''settings'', ''fee-percent'']) (Admin_bearer (Call_of Get_fee)),
      taking PUT (api [''admin'', ''settings'', ''fee-percent'']) 200
        (\<lambda>b. Admin_bearer (parsed Set_fee (from_body fee_update_of b))),
      plain GET (api [''admin'', ''settings'', ''payment-links'']) (Admin_bearer (Call_of Get_links)),
      taking PUT (api [''admin'', ''settings'', ''payment-links'']) 200
        (\<lambda>b. Admin_bearer (parsed (\<lambda>(w, og, mt, mv). Set_links w og mt mv) (from_body links_of b))),
      plain GET (api [''admin'', ''pending-payouts'']) (Admin_bearer (Call_of Pending_payouts)),
      naming POST (api [''admin'', ''process-payout''] @ [Param]) True (reviewing Process_payout),
      querying (api [''admin'', ''transactions'']) (\<lambda>q. Admin_bearer
        (case (int_arg ''limit'' 50 q, int_arg ''offset'' 0 q) of
           (Some l, Some ofs) \<Rightarrow> Call_of (List_transactions (arg ''type'' q) (arg ''status'' q) (arg ''phone'' q) l ofs)
         | _ \<Rightarrow> Invalid)),
      querying (api [''admin'', ''stats'', ''daily'']) (\<lambda>q. Admin_bearer
        (case int_arg ''days'' 14 q of Some n \<Rightarrow> if n < 1 then Invalid else Call_of (Daily_stats (nat n)) | None \<Rightarrow> Invalid)),
      querying (api [''admin'', ''users'']) (\<lambda>q. Admin_bearer
        (case (int_arg ''limit'' 50 q, int_arg ''offset'' 0 q) of
           (Some l, Some ofs) \<Rightarrow> Call_of (List_users (arg ''search'' q) l ofs)
         | _ \<Rightarrow> Invalid)),
      naming GET (api [''admin'', ''users''] @ [Param]) False
        (\<lambda>i b. Admin_bearer (with_id bad_uuid i (\<lambda>j. Call_of (User_detail j)))),
      naming PUT (api [''admin'', ''users''] @ [Param, Lit ''status'']) True
        (\<lambda>i b. Admin_bearer (case from_body status_update_of b of None \<Rightarrow> Invalid
           | Some act \<Rightarrow> with_id bad_uuid i (\<lambda>j. Call_of (Set_user_status j act)))),
      naming POST (api [''admin'', ''users''] @ [Param, Lit ''credit'']) True
        (\<lambda>i b. Admin_bearer (case from_body admin_credit_of b of None \<Rightarrow> Invalid
           | Some a \<Rightarrow> with_id (before_credit a) i (\<lambda>j. Call_of (Credit_user j (fst a) (snd a))))),
      plain GET (api [''admin'', ''kyc'', ''pending-list'']) (Admin_bearer (Call_of Kyc_list)),
      naming POST (api [''admin'', ''kyc''] @ [Param, Lit ''decide'']) True
        (\<lambda>i b. Admin_bearer (case from_body kyc_decision_of b of None \<Rightarrow> Invalid
           | Some a \<Rightarrow> with_id (before_decision (fst a)) i (\<lambda>j. Call_of (Decide_kyc j (fst a) (snd a))))),
      plain GET (api [''admin'', ''pending-payins'']) (Admin_bearer (Call_of Pending_payins)),
      naming POST (api [''admin'', ''process-payin''] @ [Param]) True (reviewing Process_payin),
      querying (api [''admin'', ''pending-transactions'']) (\<lambda>q. secret_and q Pending_transactions),
      querying (api [''admin'', ''user-history'']) (\<lambda>q.
        case arg ''reference'' q of None \<Rightarrow> Open_to_all Invalid | Some r \<Rightarrow> secret_and q (\<lambda>sec. User_history sec r)),
      querying (api [''admin'', ''users-page'']) (\<lambda>q. secret_and q (\<lambda>sec. Users_page sec (arg ''search'' q))),
      querying (api [''admin'', ''kyc'', ''pending'']) (\<lambda>q. secret_and q Kyc_page),
      \<lparr>ro_method = GET, ro_pattern = api [''admin'', ''kyc'', ''decide''], ro_status = 200, ro_has_body = False,
       ro_endpoint = (\<lambda>uuid_of _ q _. Open_to_all
        (case (arg ''secret'' q, arg ''submission_id'' q, arg ''decision'' q) of
           (Some sec, Some i, Some dec) \<Rightarrow>
             with_id (before_link sec dec) (uuid_of i) (\<lambda>j. Call_of (Kyc_decide_link sec j dec (arg ''reason'' q)))
         | _ \<Rightarrow> Invalid))\<rparr>]"

definition kyc_routes :: "route list" where
  "kyc_routes =
     [taking POST (api [''kyc'', ''submit'']) 200
        (\<lambda>b. Bearer (parsed (\<lambda>(doc, selfie). Submit_kyc doc selfie) (from_body kyc_submit_of b))),
      plain GET (api [''kyc'', ''status'']) (Bearer (Call_of Kyc_state))]"

definition device_routes :: "route list" where
  "device_routes =
     [taking POST (api [''devices'', ''register'']) 200
        (\<lambda>b. Bearer (parsed (\<lambda>(tok, p). Register_device tok p) (from_body device_of b)))]"

definition app_routes :: "route list" where
  "app_routes = docs_routes @ [plain GET [Lit ''health''] (Open_to_all (Call_of Health))] @
     auth_routes @ wallet_routes @ admin_routes @ kyc_routes @ device_routes"

section \<open>Finding the route\<close>

fun path_match :: "seg list \<Rightarrow> string list \<Rightarrow> string list option" where
  "path_match [] [] = Some []"
| "path_match (Lit l # ps) (x # xs) = (if x = l then path_match ps xs else None)"
| "path_match (Param # ps) (x # xs) = (if x = [] then None else map_option ((#) x) (path_match ps xs))"
| "path_match _ _ = None"

datatype found =
    Found route "string list"
  | Other_method
  | Slash "string list"
  | Nowhere

text \<open>\<open>redirect_slashes\<close>: the path with its last slashes taken away, or with one added.\<close>

definition other_slash :: "string list \<Rightarrow> string list" where
  "other_slash p = (if p \<noteq> [] \<and> last p = [] then rev (dropWhile (\<lambda>x. x = []) (rev p)) else p @ [[]])"

definition matching :: "string list \<Rightarrow> route list \<Rightarrow> route list" where
  "matching p rs = filter (\<lambda>r. path_match (ro_pattern r) p \<noteq> None) rs"

definition find_route :: "http_method \<Rightarrow> string list \<Rightarrow> route list \<Rightarrow> found" where
  "find_route m p rs =
     (case find (\<lambda>r. ro_method r = m) (matching p rs) of
        Some r \<Rightarrow> Found r (the (path_match (ro_pattern r) p))
      | None \<Rightarrow>
          if matching p rs \<noteq> [] then Other_method
          else if p \<noteq> [[]] \<and> matching (other_slash p) rs \<noteq> [] then Slash (other_slash p)
          else Nowhere)"

section \<open>Answering\<close>

text \<open>\<open>HTTPBearer\<close>: the header must be a scheme, of any case, and a token, separated by a blank.\<close>

definition bearer_token :: "string option \<Rightarrow> string option" where
  "bearer_token h =
     (case h of None \<Rightarrow> None
      | Some x \<Rightarrow>
          let scheme = takeWhile (\<lambda>c. c \<noteq> CHR '' '') x; token = drop (length scheme + 1) x in
          if lower scheme = ''bearer'' \<and> token \<noteq> [] then Some token else None)"

fun reply_of_error :: "exn \<Rightarrow> reply" where
  "reply_of_error (Http c d) = Refused c d"
| "reply_of_error _ = Internal_error"

definition reply_of_call :: "nat \<Rightarrow> (exn + answer) \<times> db \<Rightarrow> reply \<times> db" where
  "reply_of_call n rs = (case fst rs of Inl e \<Rightarrow> reply_of_error e | Inr a \<Rightarrow> Success n a, snd rs)"

definition reply_of_check :: "(exn + unit) \<times> db \<Rightarrow> reply \<times> db" where
  "reply_of_check rs = (case fst rs of Inl e \<Rightarrow> reply_of_error e | Inr _ \<Rightarrow> Internal_error, snd rs)"

fun unmade_call :: "'c env \<Rightarrow> 'k parsed \<Rightarrow> unit prog" where
  "unmade_call v (Bad_id p) = p (security_of v)"
| "unmade_call v _ = http 422 Validation_error"

fun answer_endpoint :: "'c env \<Rightarrow> draws \<Rightarrow> nat \<Rightarrow> string option \<Rightarrow> endpoint \<Rightarrow> db \<Rightarrow> reply \<times> db" where
  "answer_endpoint v d n h Docs s = (Documentation, s)"
| "answer_endpoint v d n h (Open_to_all (Call_of c)) s = reply_of_call n (handle v d (Public c) s)"
| "answer_endpoint v d n h (Open_to_all x) s = reply_of_check (request (unmade_call v x) s)"
| "answer_endpoint v d n h (Bearer x) s =
     (case bearer_token h of None \<Rightarrow> (Not_authenticated, s)
      | Some token \<Rightarrow>
          (case x of Call_of c \<Rightarrow> reply_of_call n (handle v d (Client token c) s)
           | _ \<Rightarrow> reply_of_check (request (bindP (get_current_user (security_of v) (dr_now d) token) (\<lambda>_. unmade_call v x)) s)))"
| "answer_endpoint v d n h (Admin_bearer x) s =
     (case bearer_token h of None \<Rightarrow> (Not_authenticated, s)
      | Some token \<Rightarrow>
          (case x of Call_of c \<Rightarrow> reply_of_call n (handle v d (Administrator token c) s)
           | _ \<Rightarrow> reply_of_check (request (bindP (get_current_user (security_of v) (dr_now d) token) (\<lambda>user.
                     bindP (require_admin user) (\<lambda>_. unmade_call v x))) s)))"

text \<open>A preflight request never reaches a route; \<open>*\<close> stands for the seven methods and any header.\<close>

definition is_preflight :: "web_request \<Rightarrow> bool" where
  "is_preflight rq \<longleftrightarrow> wr_method rq = OPTIONS \<and> wr_origin rq \<noteq> None \<and> wr_preflight_for rq \<noteq> None"

definition CORS_METHODS :: "string list" where
  "CORS_METHODS = [''DELETE'', ''GET'', ''HEAD'', ''OPTIONS'', ''PATCH'', ''POST'', ''PUT'']"

definition respond :: "'c env \<Rightarrow> (string \<Rightarrow> uuid option) \<Rightarrow> draws \<Rightarrow> web_request \<Rightarrow> db \<Rightarrow> reply \<times> db" where
  "respond v uuid_of d rq s =
     (if is_preflight rq
      then (if the (wr_preflight_for rq) \<in> set CORS_METHODS then Preflight_ok else Preflight_refused, s)
      else
        case find_route (wr_method rq) (wr_path rq) app_routes of
          Nowhere \<Rightarrow> (No_such_route, s)
        | Other_method \<Rightarrow> (Method_not_allowed, s)
        | Slash p \<Rightarrow> (Redirected p, s)
        | Found r ps \<Rightarrow>
            if ro_has_body r \<and> wr_body rq = Malformed then (Refused 422 Validation_error, s)
            else answer_endpoint v d (ro_status r) (wr_authorization rq)
                   (ro_endpoint r uuid_of ps (wr_query rq) (wr_body rq)) s)"

end
