(* ===== verification/SystemBooks.thy ===== *)
theory SystemBooks
  imports ServiceProps
begin

text \<open>
  The books of the whole service: started from an empty database and under any sequence of calls
  of any callers, every wallet holds what the ledger says its owner should have. \<open>sound\<close> is the
  invariant (constraints, books from zero, a fee that is not negative); \<open>proper_call\<close> names the two
  calls that can break it, the half cents of a withdrawal and the review of a deposit as a
  withdrawal; \<open>served_properly\<close> is the step relation without them.
\<close>

definition fee_ok :: "db \<Rightarrow> bool" where
  "fee_ok s \<longleftrightarrow> (\<forall>d. configured_fee s = Some d \<longrightarrow> 0 \<le> dec_val d)"

definition sound :: "db \<Rightarrow> bool" where
  "sound s \<longleftrightarrow> wf_db s \<and> books_balance (\<lambda>_. 0) s \<and> fee_ok s"

fun proper_call :: "call \<Rightarrow> db \<Rightarrow> bool" where
  "proper_call (Client token (Payout_request b)) s = (100 * ob_amount b \<noteq> of_int \<lfloor>100 * ob_amount b\<rfloor> + 1/2)"
| "proper_call (Administrator token (Process_payout tid act pf)) s =
     (case tx_by_id tid s of None \<Rightarrow> True | Some t \<Rightarrow> t_type t = PAY_OUT)"
| "proper_call _ s = True"

inductive served_properly :: "'c env \<Rightarrow> db \<Rightarrow> db \<Rightarrow> bool" for v where
  start: "served_properly v s s"
| step: "served_properly v s s' \<Longrightarrow> proper_call c s' \<Longrightarrow> handle v d c s' = (r, s'') \<Longrightarrow> served_properly v s s''"

lemma served_properly_served: "served_properly v s s' \<Longrightarrow> served v s s'"
  by (induction rule: served_properly.induct) (auto intro: served.intros)

section \<open>What keeps the invariant\<close>

lemma books_cong:
  "db_wallets s' = db_wallets s \<Longrightarrow> db_ledger s' = db_ledger s \<Longrightarrow> books_balance op s' = books_balance op s"
  by (simp add: books_balance_def balance_def)

lemma fee_cong: "db_settings s' = db_settings s \<Longrightarrow> fee_ok s' = fee_ok s"
  by (simp add: fee_ok_def configured_fee_def setting_def)

lemma sound_frame:
  "sound s \<Longrightarrow> wf_db s' \<Longrightarrow> db_wallets s' = db_wallets s \<Longrightarrow> db_ledger s' = db_ledger s \<Longrightarrow>
   db_settings s' = db_settings s \<Longrightarrow> sound s'"
  by (simp add: sound_def books_cong [of s' s] fee_cong [of s' s])

lemma sound_insert_idle:
  assumes "sound s" "ledger_insert t s = Inr s'" "tx_effect t = 0"
  shows "sound s'"
proof -
  have "wf_db s'" using wf_ledger_insert assms(1,2) by (auto simp: sound_def)
  moreover have "s' = s\<lparr>db_ledger := db_ledger s @ [t]\<rparr>" using assms(2) by (simp add: ledger_insert_Inr)
  ultimately show ?thesis
    using assms(1,3) fee_cong [of s' s] by (auto simp: sound_def books_balance_def)
qed

lemma pending_payin_idle [simp]: "tx_effect (pending_payin_row n i r u p a ph pf m) = 0"
  by (simp add: tx_effect_def)

lemmas sound_declare = sound_insert_idle [OF _ _ pending_payin_idle]

lemma sound_put_setting:
  "sound s \<Longrightarrow> k \<noteq> ''fee_percent'' \<Longrightarrow> sound (put_setting now k v s)"
  by (simp add: sound_def wf_put_setting books_cong [of "put_setting now k v s" s] fee_ok_def configured_fee_def setting_put)

lemma sound_put_fee:
  "sound s \<Longrightarrow> 0 \<le> dec_val p \<Longrightarrow> sound (put_setting now ''fee_percent'' (dec_str p) s)"
  by (simp add: sound_def wf_put_setting books_cong [of "put_setting now ''fee_percent'' (dec_str p) s" s]
      fee_ok_def configured_fee_def setting_put dec_parse_str)

lemma keeps_guard_bind: "(b \<Longrightarrow> keeps I (k ())) \<Longrightarrow> keeps I (bindP (guard b e) k)"
  by (cases b) (auto simp: guard_def run_simps intro: keeps_intros)

lemma sound_wf: "sound s \<Longrightarrow> wf_db s"
  by (simp add: sound_def)

lemma keeps_sound_settings:
  "keeps sound (update_fee_percent_route now admin p)" "keeps sound (update_payment_links_route now admin w og mt mv)"
proof -
  show "keeps sound (update_fee_percent_route now admin p)"
    unfolding update_fee_percent_route_def set_fee_percent_def
    by (rule keeps_guard_bind) (auto simp: settings_upsert_total intro!: keeps_bind keeps_exec keeps_reads sound_put_fee)
  have loop: "keeps sound (set_payment_links_loop now links)" for links
  proof (induction now links rule: set_payment_links_loop.induct)
    case (1 now)
    show ?case by (simp add: keeps_reads)
  next
    case (2 now name v links)
    have "k \<noteq> ''fee_percent''" if "map_of PAYMENT_LINK_KEYS name = Some k" for k
      using that by (auto simp: PAYMENT_LINK_KEYS_def split: if_splits)
    with 2 show ?case
      by (auto simp: settings_upsert_total split: option.splits intro!: keeps_bind keeps_exec sound_put_setting)
  qed
  then show "keeps sound (update_payment_links_route now admin w og mt mv)"
    unfolding update_payment_links_route_def set_payment_links_def get_payment_links_def
    by (intro keeps_bind keeps_reads)
qed

lemma keeps_sound_declare:
  "keeps sound (declare_payin now i u user b)" "keeps sound (declare_payin_async now i u user b)"
  unfolding declare_payin_def declare_payin_pending_def declare_payin_async_def Let_def
  by (auto split: option.splits simp: outcome_simps insert_unless_proof_Inr split: if_splits
      intro!: keeps_intros intro: sound_declare)

lemma sound_deduct:
  assumes "sound s" "0 < a" "100 * a \<noteq> of_int \<lfloor>100 * a\<rfloor> + 1/2"
    and "process_payout_deduction now i u a ref prov ph s = Inr (r, s')"
  shows "sound s'"
proof -
  have "db_settings s' = db_settings s" using assms(4) by (cases rule: payout_deduction_cases) auto
  with assms books_deduct [of s "\<lambda>_. 0" i u a ref prov ph now r s'] payout_deduction_wf [OF _ assms(4)] fee_cong [of s' s]
  show ?thesis by (simp add: sound_def)
qed

lemma keeps_sound_payout:
  assumes "valid_amount (ob_amount b)" "100 * ob_amount b \<noteq> of_int \<lfloor>100 * ob_amount b\<rfloor> + 1/2"
  shows "keeps sound (payout_request now i u user b)"
  unfolding payout_request_def request_payout_def Let_def
  using assms
  by (auto split: payout_reply.splits simp: outcome_simps valid_amount_def intro!: keeps_intros intro: sound_deduct)

text \<open>Everything that touches neither wallets nor the ledger nor the settings.\<close>

definition elsewhere :: "db \<Rightarrow> db \<Rightarrow> bool" where
  "elsewhere s s' \<longleftrightarrow> db_wallets s' = db_wallets s \<and> db_ledger s' = db_ledger s \<and> db_settings s' = db_settings s"

lemma keeps_elsewhere:
  "keeps (elsewhere s) (update_me now user n)" "keeps (elsewhere s) (submit_kyc mx now i user doc selfie)"
  "keeps (elsewhere s) (kyc_status user)" "keeps (elsewhere s) (register_device now i user t p)"
  "keeps (elsewhere s) (update_user_status now admin uid act)"
  "keeps (elsewhere s) (kyc_decide_jwt now admin sid d r)" "keeps (elsewhere s) (kyc_decide e now sec sid d r)"
  unfolding update_me_def refreshed_def submit_kyc_def kyc_status_def register_device_def update_user_status_def
    kyc_decide_jwt_def kyc_decide_def kyc_apply_def Let_def
  by (auto split: option.splits intro!: keeps_intros
      simp: elsewhere_def kyc_insert_Inr kyc_update_Inr devices_insert_def devices_assign_def
      dest!: users_update_Inr split: if_splits)

lemma keeps_elsewhere_reads:
  "keeps I (get_my_wallet user)" "keeps I (get_current_fee_percent user)" "keeps I (get_current_payment_links user)"
  "keeps I (list_my_transactions user n)" "keeps I (dashboard_stats today)" "keeps I (daily_stats now days)"
  "keeps I (get_fee_percent_route admin)" "keeps I (get_payment_links_route admin)" "keeps I (pending_payouts admin)"
  "keeps I (pending_payins admin)" "keeps I (list_transactions admin ty st ph limit offset)"
  "keeps I (list_users admin search limit offset)" "keeps I (user_detail admin uid)" "keeps I (kyc_pending_list admin)"
  "keeps I (kyc_pending_page e sec)" "keeps I (list_pending_transactions e sec)"
  "keeps I (user_transaction_history e sec ref)" "keeps I (users_html_page e sec search)"
  unfolding get_my_wallet_def get_current_fee_percent_def get_current_payment_links_def list_my_transactions_def
    get_fee_percent_def get_payment_links_def dashboard_stats_def daily_stats_def get_fee_percent_route_def
    get_payment_links_route_def pending_payouts_def pending_payins_def list_transactions_def list_users_def
    user_detail_def kyc_pending_list_def kyc_pending_page_def list_pending_transactions_def
    user_transaction_history_def users_html_page_def Let_def
  by (auto split: option.splits intro!: keeps_intros)

section \<open>Accounts and money\<close>

lemma sound_new_account:
  assumes "sound s" "wf_db s'" "i \<notin> u_id ` set (db_users s)"
    and "db_wallets s' = db_wallets s @ [new_wallet now j i]" "db_ledger s' = db_ledger s" "db_settings s' = db_settings s"
  shows "sound s'"
proof -
  have none: "owned i (db_ledger s) = 0"
  proof -
    have "\<forall>t \<in> set (db_ledger s). t_user_id t \<noteq> i"
      using assms(1,3) by (auto simp: sound_def wf_db_def list_all_iff user_exists_iff)
    then have "map (\<lambda>t. if t_user_id t = i then tx_effect t else 0) (db_ledger s) = map (\<lambda>_. 0) (db_ledger s)" by simp
    then show ?thesis unfolding owned_def by (simp only:) (induction "db_ledger s"; simp)
  qed
  have "b = owned u (db_ledger s)" if "balance s' u = Some b" for u b
  proof (cases "balance s u")
    case None
    with that assms(4) have "u = i" "b = 0"
      by (auto simp: balance_def balance_in_def find_append split: if_splits option.splits)
    with none show ?thesis by simp
  next
    case (Some c)
    with that assms(4) have "b = c"
      by (auto simp: balance_def balance_in_def find_append split: option.splits)
    with Some assms(1) show ?thesis by (simp add: sound_def books_balance_def)
  qed
  with assms fee_cong [of s' s] show ?thesis by (simp add: sound_def books_balance_def)
qed

lemma keeps_credit_settings: "keeps (\<lambda>t. db_settings t = S) (admin_manual_credit now i u uid a reason admin)"
  unfolding admin_manual_credit_def Let_def
  by (auto simp: outcome_simps statement_Inr split: option.splits intro!: keeps_intros)

lemma sound_manual_credit:
  assumes "sound s" "request (admin_manual_credit now i u uid a reason admin) s = (Inr (Credit_done m ref nb), s')"
  shows "sound s'"
proof -
  have wf: "wf_db s" using assms(1) by (rule sound_wf)
  let ?t = "manual_credit_row now i ref uid (round_half_away (100 * a)) reason admin"
  from manual_credit_effect [OF wf assms(2)] obtain b where
    b: "balance s uid = Some b" "balance s' uid = Some (b + round_half_away (100 * a))"
      "\<forall>v. v \<noteq> uid \<longrightarrow> balance s' v = balance s v" "db_ledger s' = db_ledger s @ [?t]" "wf_db s'"
    by auto
  have set: "db_settings s' = db_settings s"
    by (rule request_keeps [OF keeps_credit_settings assms(2)]) simp
  have t: "tx_effect ?t = round_half_away (100 * a)" "t_user_id ?t = uid"
    by (simp_all add: tx_effect_def manual_credit_row_def)
  have old: "balance s v = Some c \<Longrightarrow> c = owned v (db_ledger s)" for v c
    using assms(1) by (simp add: sound_def books_balance_def)
  have "c = owned v (db_ledger s')" if "balance s' v = Some c" for v c
    using that b t old [of v] by (cases "v = uid") auto
  then have "books_balance (\<lambda>_. 0) s'" by (simp add: books_balance_def)
  with b(5) set assms(1) fee_cong [of s' s] show ?thesis by (simp add: sound_def)
qed

lemma sound_transfer:
  assumes "sound s" "request (transfer_internal_endpoint now i1 i2 u1 u2 f user a ph) s = (r, s')"
  shows "sound s'"
  using assms(2)
proof (cases rule: transfer_endpoint_run)
  case refused
  with assms(1) show ?thesis by simp
next
  case (moved d n fee tot nb s1 gone)
  have pct: "0 \<le> dec_val d" using assms(1) moved(1) by (auto simp: sound_def fee_ok_def)
  have set: "db_settings s1 = db_settings s" using moved(2) by (cases rule: internal_transfer_cases) auto
  have "sound s1"
    using books_transfer [OF _ _ pct moved(2), of "\<lambda>_. 0"] internal_transfer_wf [OF _ moved(2)] assms(1) fee_cong [OF set]
    by (simp add: sound_def)
  then show ?thesis
    unfolding moved(4) by (rule sound_frame) (simp_all add: wf_devices_filter without_devices_def sound_wf [OF \<open>sound s1\<close>])
qed

lemma sound_process_payout:
  assumes "sound s" "case tx_by_id tid s of None \<Rightarrow> True | Some t \<Rightarrow> t_type t = PAY_OUT"
    and "request (process_payout_route now i admin tid act pf) s = (r, s')"
  shows "sound s'"
  using assms(3)
proof (cases rule: process_payout_cases)
  case refused
  with assms(1) show ?thesis by simp
next
  case (reviewed t m)
  have set: "db_settings s' = db_settings s" using reviewed(3) by (cases rule: admin_review_cases) auto
  show ?thesis
    using books_review [OF _ _ _ reviewed(3), of "\<lambda>_. 0"] admin_review_wf [OF _ reviewed(3)] assms(1,2) fee_cong [OF set]
    by (simp add: sound_def)
qed

lemma sound_process_payin:
  assumes "sound s" "request (process_payin_route now admin tid act pf) s = (r, s')"
  shows "sound s'"
  using assms(2)
proof (cases rule: process_payin_cases)
  case refused
  with assms(1) show ?thesis by simp
next
  case (rejected t)
  have wf: "wf_db s" using assms(1) by (rule sound_wf)
  let ?hit = "\<lambda>t. t_id t = tid \<and> t_status t = PENDING \<and> t_type t = PAY_IN"
  have s': "s' = s\<lparr>db_ledger := update_where ?hit (mark_failed now) (db_ledger s)\<rparr>"
    using rejected(6) by (simp add: ledger_update_Inr)
  have "owned u (update_where ?hit (mark_failed now) ts) = owned u ts" for u ts
    by (induction ts) (auto simp: mark_failed_def tx_effect_def)
  with s' assms(1) wf_mark_failed [OF wf rejected(6)] fee_cong [of s' s] show ?thesis
    by (simp add: sound_def books_balance_def)
next
  case (approved t p x a b)
  have wf: "wf_db s" using assms(1) by (rule sound_wf)
  have tx: "tx_by_reference (t_reference t) s = Some t" using tx_found_same(2) [OF wf approved(2)] .
  have set: "db_settings s' = db_settings s" using approved(5) by (cases rule: payin_credit_cases) auto
  show ?thesis
    using books_credit [OF _ _ _ approved(5), of "\<lambda>_. 0"] payin_credit_wf [OF _ approved(5)] assms(1) tx approved(4) fee_cong [OF set]
    by (simp add: sound_def)
qed

section \<open>Every call\<close>

lemma request_sound:
  "keeps sound p \<Longrightarrow> request (answers f p) s = (r, s') \<Longrightarrow> sound s \<Longrightarrow> sound s'"
  using request_keeps [OF keeps_answers(1)] by blast

lemma request_elsewhere:
  assumes "keeps (elsewhere s) p" "keeps wf_db p" "request (answers f p) s = (r, s')" "sound s"
  shows "sound s'"
proof -
  have "elsewhere s s'"
    by (rule request_keeps [OF keeps_answers(1) [OF assms(1)] assms(3)]) (simp add: elsewhere_def)
  moreover have "wf_db s'"
    by (rule request_keeps [OF keeps_answers(1) [OF assms(2)] assms(3)]) (rule sound_wf [OF assms(4)])
  ultimately show ?thesis using sound_frame [OF assms(4)] by (simp add: elsewhere_def)
qed

lemma request_answers_run:
  assumes "request (answers f p) s = (r, s')"
  shows "\<exists>q. request p s = (q, s')"
  using assms by (auto simp: request_answers split: prod.splits sum.splits)

lemma request_tasks_run:
  assumes "request (answers_with_tasks g p) s = (r, s')"
  shows "\<exists>q. request p s = (q, s')"
  using assms by (auto simp: request_answers split: prod.splits sum.splits)

lemma sound_public:
  assumes "sound s" "request (serve_public v d c) s = (r, s')"
  shows "sound s'"
proof (cases c)
  case (Register b)
  with assms(2) obtain q where q: "request (register (security_of v) (dr_now d) (dr_salt d) (dr_id1 d) (dr_id2 d) b) s = (q, s')"
    using request_answers_run by fastforce
  then show ?thesis
  proof (cases rule: register_cases)
    case (created p u)
    from request_keeps [OF keeps_accounts(1) q sound_wf [OF assms(1)]] have "wf_db s'" .
    then show ?thesis
      by (rule sound_new_account [OF assms(1), of s' "dr_id1 d" "dr_now d" "dr_id2 d"]) (use created in auto)
  qed (use assms(1) in simp)
next
  case (Bootstrap ph pin sec)
  with assms(2) obtain q where q: "request (bootstrap_admin (security_of v) (dr_now d) (dr_salt d) (dr_id1 d) (dr_id2 d) ph pin sec) s = (q, s')"
    using request_answers_run by fastforce
  then show ?thesis
  proof (cases rule: bootstrap_cases)
    case (created u tok)
    from request_keeps [OF keeps_accounts(2) q sound_wf [OF assms(1)]] have wf: "wf_db s'" .
    have "distinct (map u_id (db_users s'))" using wf by (simp add: wf_db_def wf_users_def)
    then have "dr_id1 d \<notin> u_id ` set (db_users s)" using created(4,5) by simp
    with wf show ?thesis
      by (rule sound_new_account [OF assms(1), of s' "dr_id1 d" "dr_now d" "dr_id2 d"]) (use created in auto)
  qed (use assms(1) in simp)
next
  case (Kyc_decide_link sec i dec r)
  show ?thesis
    by (rule request_elsewhere [OF keeps_elsewhere(7) keeps_admin_routes(6) _ assms(1)])
       (use assms(2) Kyc_decide_link in simp)
qed (use assms in \<open>auto elim!: request_sound [rotated] intro: keeps_elsewhere_reads keeps_auth_reads keeps_reads\<close>)

lemma sound_client:
  assumes "sound s" "body_ok c" "proper_call (Client token c) s" "request (serve_client v d user c) s = (r, s')"
  shows "sound s'"
proof (cases c)
  case (Transfer a ph)
  with assms(4) obtain q where "request (bindP (guard (valid_amount a \<and> valid_recipient ph) (Http 422 Validation_error))
       (\<lambda>_. transfer_internal_endpoint (dr_now d) (dr_id1 d) (dr_id2 d) (dr_uuid1 d) (dr_uuid2 d) (fcm_of v) user a ph)) s = (q, s')"
    using request_answers_run by fastforce
  then show ?thesis
    using assms(1) sound_transfer [OF assms(1)]
    by (auto simp: request_reads_bind reads_intros guard_def ret_def throw_def split: if_splits)
next
  case (Payout_request b)
  show ?thesis
    by (rule request_sound [OF keeps_sound_payout _ assms(1), of b]) (use assms Payout_request in auto)
next
  case (Update_me n)
  show ?thesis
    by (rule request_elsewhere [OF keeps_elsewhere(1) keeps_update_me _ assms(1)]) (use assms(4) Update_me in simp)
next
  case (Submit_kyc doc selfie)
  show ?thesis
    by (rule request_elsewhere [OF keeps_elsewhere(2) keeps_kyc_routes(1) _ assms(1)]) (use assms(4) Submit_kyc in simp)
next
  case (Register_device t p)
  show ?thesis
    by (rule request_elsewhere [OF keeps_elsewhere(4) keeps_kyc_routes(3) _ assms(1)]) (use assms(4) Register_device in simp)
qed (use assms in \<open>auto elim!: request_sound [rotated] intro: keeps_elsewhere_reads keeps_reads keeps_sound_declare keeps_kyc_routes(2)\<close>)

lemma sound_admin:
  assumes "sound s" "proper_call (Administrator token c) s" "request (serve_admin v d admin c) s = (r, s')"
  shows "sound s'"
proof (cases c)
  case (Process_payout t act pf)
  with assms(3) obtain q where "request (process_payout_route (dr_now d) (dr_id1 d) admin t act pf) s = (q, s')"
    using request_tasks_run by fastforce
  with sound_process_payout [OF assms(1)] assms(2) Process_payout show ?thesis by simp
next
  case (Process_payin t act pf)
  with assms(3) obtain q where "request (process_payin_route (dr_now d) admin t act pf) s = (q, s')"
    using request_tasks_run by fastforce
  with sound_process_payin [OF assms(1)] show ?thesis by simp
next
  case (Credit_user i a reason)
  with assms(3) obtain q where "request (credit_user_wallet (dr_now d) (dr_id1 d) (dr_uuid1 d) admin i a reason) s = (q, s')"
    using request_tasks_run by fastforce
  then show ?thesis
    by (cases rule: credit_user_cases) (use assms(1) in \<open>auto intro: sound_manual_credit\<close>)
next
  case (Set_user_status i b)
  show ?thesis
    by (rule request_elsewhere [OF keeps_elsewhere(5) keeps_admin_routes(3) _ assms(1)]) (use assms(3) Set_user_status in simp)
next
  case (Decide_kyc i dec r)
  show ?thesis
    by (rule request_elsewhere [OF keeps_elsewhere(6) keeps_admin_routes(5) _ assms(1)]) (use assms(3) Decide_kyc in simp)
qed (use assms in \<open>auto elim!: request_sound [rotated] intro: keeps_elsewhere_reads keeps_sound_settings\<close>)

lemma handle_sound:
  assumes "sound s" "proper_call c s" "handle v d c s = (r, s')"
  shows "sound s'"
proof -
  obtain q s1 where q: "request (serve v d c) s = (q, s1)" by fastforce
  have "sound s1"
  proof (cases c)
    case (Public p)
    with q sound_public [OF assms(1)] show ?thesis by simp
  next
    case (Client t k)
    with q assms(1) sound_client [OF assms(1) _ assms(2) [unfolded Client]] show ?thesis
      by (auto simp: request_reads_bind reads_auth reads_intros guard_def ret_def throw_def split: sum.splits if_splits)
  next
    case (Administrator t k)
    with q assms(1) sound_admin [OF assms(1) assms(2) [unfolded Administrator]] show ?thesis
      by (auto simp: request_reads_bind reads_auth split: sum.splits)
  qed
  moreover have "s' = s1 \<or> (\<exists>ts. s' = run_tasks v ts s1)"
    using assms(3) q by (auto elim!: handle_cases)
  ultimately show ?thesis
    using sound_frame [OF \<open>sound s1\<close> run_tasks_wf [OF sound_wf]] by auto
qed

end
