(* ===== verification/SystemAccounts.thy ===== *)
theory SystemAccounts
  imports SystemBooks
begin

text \<open>
  Accounts through the whole service: only registration and bootstrap create them, nothing removes
  them or changes their role, each comes with its wallet, and there is never a second
  administrator.
\<close>

definition accounts :: "db \<Rightarrow> (uuid \<times> user_role) list \<times> uuid list" where
  "accounts s = (map (\<lambda>u. (u_id u, u_role u)) (db_users s), map w_user_id (db_wallets s))"

definition accounts_ok :: "db \<Rightarrow> bool" where
  "accounts_ok s \<longleftrightarrow> one_admin s \<and> provisioned s"

lemma accounts_frame [simp]:
  "accounts (s\<lparr>db_ledger := ts\<rparr>) = accounts s" "accounts (s\<lparr>db_kyc := ks\<rparr>) = accounts s"
  "accounts (s\<lparr>db_devices := ds\<rparr>) = accounts s" "accounts (s\<lparr>db_audit := al\<rparr>) = accounts s"
  "accounts (s\<lparr>db_settings := ss\<rparr>) = accounts s" "accounts (put_setting n k v s) = accounts s"
  by (simp_all add: accounts_def)

lemma accounts_ok_cong: "accounts s' = accounts s \<Longrightarrow> accounts_ok s' = accounts_ok s"
proof -
  assume eq: "accounts s' = accounts s"
  have "length (admins s) = length (filter (\<lambda>p. snd p = ADMIN) (fst (accounts s)))" for s
    by (simp add: admins_def accounts_def filter_map comp_def)
  moreover have "provisioned s \<longleftrightarrow> fst ` set (fst (accounts s)) \<subseteq> set (snd (accounts s))" for s
    by (auto simp: provisioned_def accounts_def image_image)
  ultimately show ?thesis using eq by (simp add: accounts_ok_def one_admin_def)
qed

lemma accounts_wallets_update: "wallets_update u x n s = Inr s' \<Longrightarrow> accounts s' = accounts s"
  by (auto simp: wallets_update_Inr accounts_def dest!: wallet_add_owners)

lemma accounts_ledger_calls:
  "process_payin_credit now ref pf conf s = Inr (r1, s') \<Longrightarrow> accounts s' = accounts s"
  "process_payout_deduction now i u a ref2 prov ph s = Inr (r2, s') \<Longrightarrow> accounts s' = accounts s"
  "sql_admin_process_payout now i tid act pf adm s = Inr (r3, s') \<Longrightarrow> accounts s' = accounts s"
  "process_internal_transfer now i i2 u a ph rs rr pct s = Inr (r4, s') \<Longrightarrow> accounts s' = accounts s"
proof -
  show "process_payin_credit now ref pf conf s = Inr (r1, s') \<Longrightarrow> accounts s' = accounts s"
    by (erule payin_credit_cases) (auto simp: accounts_def dest!: wallet_add_owners)
  show "process_payout_deduction now i u a ref2 prov ph s = Inr (r2, s') \<Longrightarrow> accounts s' = accounts s"
    by (erule payout_deduction_cases) (auto simp: accounts_def dest!: wallet_add_owners)
  show "sql_admin_process_payout now i tid act pf adm s = Inr (r3, s') \<Longrightarrow> accounts s' = accounts s"
    by (erule admin_review_cases) (auto simp: accounts_def dest!: wallet_add_owners)
  show "process_internal_transfer now i i2 u a ph rs rr pct s = Inr (r4, s') \<Longrightarrow> accounts s' = accounts s"
    by (erule internal_transfer_cases) (auto simp: accounts_def dest!: wallet_add_owners)
qed

lemma accounts_users_update:
  assumes "users_update i f s = Inr s'" "\<And>u. u_id (f u) = u_id u" "\<And>u. u_role (f u) = u_role u"
  shows "accounts s' = accounts s"
proof -
  have "map (\<lambda>u. (u_id u, u_role u)) (update_where P f us) = map (\<lambda>u. (u_id u, u_role u)) us" for P us
    by (induction us) (simp_all add: assms(2,3))
  with users_update_Inr [OF assms(1)] show ?thesis by (simp add: accounts_def)
qed

lemma keeps_accounts_service:
  "keeps (\<lambda>s. accounts s = A) (declare_payin now i u user b)"
  "keeps (\<lambda>s. accounts s = A) (declare_payin_async now i u user b)"
  "keeps (\<lambda>s. accounts s = A) (payout_request now i u user ob)"
  "keeps (\<lambda>s. accounts s = A) (transfer_internal_endpoint now i i2 u u2 f user a ph)"
  unfolding declare_payin_def declare_payin_pending_def declare_payin_async_def payout_request_def request_payout_def
    transfer_internal_endpoint_def transfer_internal_def get_fee_percent_def Let_def
  by (auto split: option.splits payout_reply.splits transfer_reply.splits if_splits
      simp: outcome_simps insert_unless_proof_Inr ledger_insert_Inr
      intro!: keeps_intros keeps_notify_user dest: accounts_ledger_calls)

lemma keeps_accounts_admin:
  "keeps (\<lambda>s. accounts s = A) (process_payout_route now i admin tid act pf)"
  "keeps (\<lambda>s. accounts s = A) (process_payin_route now admin tid act pf)"
  "keeps (\<lambda>s. accounts s = A) (credit_user_wallet now i u admin uid a reason)"
  unfolding process_payout_route_def admin_process_payout_def process_payin_route_def finalize_payin_def
    credit_user_wallet_def admin_manual_credit_def Let_def
  by (auto split: option.splits review_reply.splits payin_reply.splits credit_reply.splits
      simp: outcome_simps ledger_update_Inr ledger_insert_Inr audit_set_ip_def Let_def
      intro!: keeps_intros dest: accounts_ledger_calls accounts_wallets_update)

lemma keeps_accounts_other:
  "keeps (\<lambda>s. accounts s = A) (update_me now user n)" "keeps (\<lambda>s. accounts s = A) (submit_kyc mx now i user doc selfie)"
  "keeps (\<lambda>s. accounts s = A) (register_device now i user t p)"
  "keeps (\<lambda>s. accounts s = A) (update_user_status now admin uid act)"
  "keeps (\<lambda>s. accounts s = A) (kyc_decide_jwt now admin sid d r)"
  "keeps (\<lambda>s. accounts s = A) (kyc_decide e now sec sid d r)"
  unfolding update_me_def refreshed_def submit_kyc_def register_device_def update_user_status_def
    kyc_decide_jwt_def kyc_decide_def kyc_apply_def Let_def
  by (auto split: option.splits if_splits intro!: keeps_intros
      simp: kyc_insert_Inr kyc_update_Inr devices_insert_def devices_assign_def accounts_users_update)

lemma keeps_accounts_settings:
  "keeps (\<lambda>s. accounts s = A) (update_fee_percent_route now admin p)"
  "keeps (\<lambda>s. accounts s = A) (update_payment_links_route now admin w og mt mv)"
proof -
  have loop: "keeps (\<lambda>s. accounts s = A) (set_payment_links_loop now links)" for links
    by (induction now links rule: set_payment_links_loop.induct)
       (auto split: option.splits simp: settings_upsert_total intro!: keeps_intros)
  show "keeps (\<lambda>s. accounts s = A) (update_fee_percent_route now admin p)"
    "keeps (\<lambda>s. accounts s = A) (update_payment_links_route now admin w og mt mv)"
    unfolding update_fee_percent_route_def set_fee_percent_def update_payment_links_route_def
      set_payment_links_def get_payment_links_def
    by (auto simp: settings_upsert_total intro!: keeps_intros loop)
qed

lemma accounts_public:
  assumes "request (serve_public v d c) s = (r, s')"
  shows "accounts s' = accounts s \<or>
    (\<exists>u j n. s' = s\<lparr>db_users := db_users s @ [u], db_wallets := db_wallets s @ [new_wallet n j (u_id u)]\<rparr> \<and>
       (u_role u = USER \<or> admins s = []))"
proof (cases c)
  case (Register b)
  with assms obtain q where q: "request (register (security_of v) (dr_now d) (dr_salt d) (dr_id1 d) (dr_id2 d) b) s = (q, s')"
    using request_answers_run by fastforce
  then show ?thesis
  proof (cases rule: register_cases)
    case (created p u)
    then have "s' = s\<lparr>db_users := db_users s @ [u], db_wallets := db_wallets s @ [new_wallet (dr_now d) (dr_id2 d) (u_id u)]\<rparr>"
      by simp
    with created(5) show ?thesis by blast
  qed simp
next
  case (Bootstrap ph pin sec)
  with assms obtain q where q: "request (bootstrap_admin (security_of v) (dr_now d) (dr_salt d) (dr_id1 d) (dr_id2 d) ph pin sec) s = (q, s')"
    using request_answers_run by fastforce
  then show ?thesis
  proof (cases rule: bootstrap_cases)
    case (created u tok)
    then have "s' = s\<lparr>db_users := db_users s @ [u], db_wallets := db_wallets s @ [new_wallet (dr_now d) (dr_id2 d) (u_id u)]\<rparr>"
      by simp
    with created(2) show ?thesis by blast
  qed simp
qed (use assms in \<open>auto elim!: request_keeps [where I = "\<lambda>t. accounts t = accounts s", rotated]
       intro!: keeps_answers keeps_elsewhere_reads keeps_auth_reads keeps_reads keeps_accounts_other\<close>)

lemma keeps_accounts_client: "keeps (\<lambda>s. accounts s = A) (serve_client v d user c)"
  by (cases c) (auto intro!: keeps_answers keeps_elsewhere_reads keeps_reads keeps_accounts_service keeps_bind
      keeps_accounts_other keeps_kyc_routes(2))

lemma keeps_accounts_adm: "keeps (\<lambda>s. accounts s = A) (serve_admin v d admin c)"
  by (cases c) (auto intro!: keeps_answers keeps_elsewhere_reads keeps_reads keeps_accounts_admin
      keeps_accounts_other keeps_accounts_settings)

lemma accounts_ok_new:
  assumes "accounts_ok s" "u_role u = USER \<or> admins s = []"
  shows "accounts_ok (s\<lparr>db_users := db_users s @ [u], db_wallets := db_wallets s @ [new_wallet n j (u_id u)]\<rparr>)"
  using assms by (auto simp: accounts_ok_def one_admin_def admins_def provisioned_def)

lemma handle_accounts_ok:
  assumes "accounts_ok s" "handle v d c s = (r, s')"
  shows "accounts_ok s'"
proof -
  obtain q s1 where q: "request (serve v d c) s = (q, s1)" by fastforce
  have "accounts_ok s1"
  proof (cases c)
    case (Public p)
    with q have "request (serve_public v d p) s = (q, s1)" by simp
    from accounts_public [OF this] show ?thesis
    proof (elim disjE exE conjE)
      assume "accounts s1 = accounts s"
      from accounts_ok_cong [OF this] assms(1) show ?thesis by simp
    qed (use accounts_ok_new [OF assms(1)] in simp_all)
  next
    case (Client t k)
    have "keeps (\<lambda>t. accounts t = accounts s) (serve v d c)"
      unfolding Client by (auto intro!: keeps_intros keeps_accounts_client)
    then have "accounts s1 = accounts s" by (rule request_keeps [OF _ q]) simp
    from accounts_ok_cong [OF this] assms(1) show ?thesis by simp
  next
    case (Administrator t k)
    have "keeps (\<lambda>t. accounts t = accounts s) (serve v d c)"
      unfolding Administrator by (auto intro!: keeps_intros keeps_accounts_adm)
    then have "accounts s1 = accounts s" by (rule request_keeps [OF _ q]) simp
    from accounts_ok_cong [OF this] assms(1) show ?thesis by simp
  qed
  moreover have "s' = s1 \<or> (\<exists>ts. s' = run_tasks v ts s1)" using assms(2) q by (auto elim!: handle_cases)
  moreover have "accounts (run_tasks v ts s1) = accounts s1" for ts by (simp add: accounts_def)
  ultimately show ?thesis using accounts_ok_cong [of s' s1] by auto
qed

end
