(* ===== verification/RouteProps.thy ===== *)
theory RouteProps
  imports Routes SystemAccounts
begin

text \<open>
  What holds for every HTTP request: the statuses there are, requests that fail have no effect, and
  who gets past the doors of the administration.
\<close>

section \<open>Statuses\<close>

named_theorems raises_intros

definition raises :: "nat set \<Rightarrow> 'a prog \<Rightarrow> bool" where
  "raises S p \<longleftrightarrow> (\<forall>\<sigma> c d. fst (p \<sigma>) = Inl (Http c d) \<longrightarrow> c \<in> S)"

lemma raises_simple [raises_intros]:
  "raises S (ret x)" "raises S (query f)" "raises S (statement g)" "raises S (exec h)" "raises S commit" "raises S rollback"
  "raises S (one_or_none rs)" "raises S (scalar_one r)" "c \<in> S \<Longrightarrow> raises S (http c d)"
  "(\<And>c d. e = Http c d \<Longrightarrow> c \<in> S) \<Longrightarrow> raises S (throw e)" "(\<And>c d. e = Http c d \<Longrightarrow> c \<in> S) \<Longrightarrow> raises S (guard b e)"
  by (auto simp: raises_def ret_def query_def statement_def exec_def commit_def rollback_def one_or_none_def scalar_one_def
      http_def throw_def guard_def split: list.splits option.splits sum.splits)

lemma raises_bind [raises_intros]: "raises S m \<Longrightarrow> (\<And>x. raises S (k x)) \<Longrightarrow> raises S (bindP m k)"
  by (auto simp: raises_def bindP_def split: prod.splits sum.splits) (metis fst_conv)+

lemma raises_attempt [raises_intros]: "(\<And>e. raises S (h e)) \<Longrightarrow> raises S (attempt m h)"
  by (auto simp: raises_def attempt_def split: prod.splits sum.splits)

lemma raises_cases [raises_intros]:
  "(b \<Longrightarrow> raises S p) \<Longrightarrow> (\<not> b \<Longrightarrow> raises S q) \<Longrightarrow> raises S (if b then p else q)"
  "(ov = None \<Longrightarrow> raises S p) \<Longrightarrow> (\<And>x. ov = Some x \<Longrightarrow> raises S (fo x)) \<Longrightarrow> raises S (case ov of None \<Rightarrow> p | Some x \<Rightarrow> fo x)"
  "(\<And>a b. pv = (a, b) \<Longrightarrow> raises S (fp a b)) \<Longrightarrow> raises S (case pv of (a, b) \<Rightarrow> fp a b)"
  by (auto split: option.splits prod.splits)

definition STATUSES :: "nat set" where
  "STATUSES = {200, 201, 202, 307, 400, 401, 403, 404, 405, 409, 413, 422, 500}"

lemma raises_links_loop: "raises S (set_payment_links_loop now links)"
  by (induction now links rule: set_payment_links_loop.induct) (auto split: option.splits intro!: raises_intros)

lemma raises_auth [raises_intros]:
  "raises STATUSES (get_current_user e now t)" "raises STATUSES (require_admin u)" "raises STATUSES (check_secret e sec)"
  unfolding get_current_user_def require_admin_def check_secret_def
  by (auto intro!: raises_intros simp: STATUSES_def)

lemma raises_notify [raises_intros]: "raises S (notify_user f u n)"
  unfolding notify_user_def by (rule raises_attempt) (rule raises_simple)

lemma raises_public: "raises STATUSES (serve_public v d c)"
  by (cases c; simp add: answers_def;
      auto simp: register_def login_def bootstrap_admin_def kyc_decide_def kyc_apply_def kyc_pending_page_def
        list_pending_transactions_def user_transaction_history_def users_html_page_def Let_def STATUSES_def [symmetric]
        intro!: raises_intros; simp add: STATUSES_def)

lemma raises_client: "raises STATUSES (serve_client v d user c)"
  by (cases c; simp add: answers_def;
      auto simp: update_me_def refreshed_def get_my_wallet_def declare_payin_def declare_payin_pending_def declare_payin_async_def
        payout_request_def request_payout_def get_current_fee_percent_def get_fee_percent_def get_current_payment_links_def
        get_payment_links_def transfer_internal_endpoint_def transfer_internal_def list_my_transactions_def submit_kyc_def
        kyc_status_def register_device_def Let_def
        intro!: raises_intros split: payout_reply.splits transfer_reply.splits; simp add: STATUSES_def)

lemma raises_admin: "raises STATUSES (serve_admin v d admin c)"
  by (cases c; simp add: answers_def answers_with_tasks_def;
      auto simp: dashboard_stats_def get_fee_percent_route_def get_fee_percent_def update_fee_percent_route_def set_fee_percent_def
        get_payment_links_route_def get_payment_links_def update_payment_links_route_def set_payment_links_def pending_payouts_def
        process_payout_route_def admin_process_payout_def list_transactions_def daily_stats_def list_users_def user_detail_def
        update_user_status_def credit_user_wallet_def admin_manual_credit_def kyc_pending_list_def kyc_decide_jwt_def kyc_apply_def
        pending_payins_def process_payin_route_def finalize_payin_def Let_def
        intro!: raises_intros raises_links_loop split: review_reply.splits payin_reply.splits credit_reply.splits;
      simp add: STATUSES_def)

lemma raises_serve: "raises STATUSES (serve v d c)"
proof (cases c)
  case (Client t k)
  have "raises STATUSES (guard b (Http 422 Validation_error))" for b
    by (rule raises_simple) (simp add: STATUSES_def)
  with Client show ?thesis by (auto intro!: raises_bind raises_auth raises_client)
qed (auto intro!: raises_bind raises_auth raises_public raises_admin)

lemma handle_error_status:
  assumes "handle v d c s = (Inl (Http n x), s')"
  shows "n \<in> STATUSES"
  using assms raises_serve [of v d c]
  by (auto simp: raises_def request_def elim!: handle_cases split: prod.splits) (metis fst_conv)

section \<open>What a check does\<close>

definition read_only :: "(security \<Rightarrow> unit prog) \<Rightarrow> bool" where
  "read_only p \<longleftrightarrow> (\<forall>e. reads (p e) \<and> raises STATUSES (p e))"

fun checked :: "'k parsed \<Rightarrow> bool" where
  "checked (Bad_id p) = read_only p"
| "checked _ = True"

fun checked_endpoint :: "endpoint \<Rightarrow> bool" where
  "checked_endpoint Docs = True"
| "checked_endpoint (Open_to_all x) = checked x"
| "checked_endpoint (Bearer x) = checked x"
| "checked_endpoint (Admin_bearer x) = checked x"

lemma reads_secret: "reads (check_secret e sec)"
  unfolding check_secret_def by (auto intro: reads_intros)

lemma read_only_checks [simp]:
  "read_only bad_uuid" "read_only (before_review a)" "read_only (before_decision dec)" "read_only (before_credit c)"
  "read_only (before_link sec dec)"
  unfolding read_only_def bad_uuid_def before_review_def before_decision_def before_credit_def before_link_def
  by (auto intro!: reads_intros reads_secret raises_intros simp: STATUSES_def [symmetric]) (auto simp: STATUSES_def)

lemma checked_simps [simp]:
  "checked (parsed f x)" "checked (with_id p i (\<lambda>j. Call_of (g j))) \<longleftrightarrow> i \<noteq> None \<or> read_only p"
  by (auto simp: parsed_def with_id_def split: option.splits)

lemma routes_checked: "r \<in> set app_routes \<Longrightarrow> checked_endpoint (ro_endpoint r uuid_of ps q b)"
  by (auto simp: app_routes_def docs_routes_def auth_routes_def wallet_routes_def admin_routes_def kyc_routes_def
      device_routes_def plain_def querying_def taking_def naming_def reviewing_def secret_and_def
      split: option.splits prod.splits if_splits)

section \<open>Doors\<close>

lemma current_user_outcome:
  assumes "wf_db s"
  obtains (rejected) "fst (get_current_user e now token (opened s)) = Inl (Http 401 Session_invalide)"
  | (found) c u where "fst (get_current_user e now token (opened s)) = Inr u"
      "jwt_decode e now token = Some c" "c_sub c = Some (u_id u)" "u \<in> set (db_users s)"
proof (cases "\<exists>c i. jwt_decode e now token = Some c \<and> c_sub c = Some i")
  case False
  then show ?thesis
    by (intro rejected) (auto simp: get_current_user_def http_def throw_def split: option.splits)
next
  case True
  then obtain c i where c: "jwt_decode e now token = Some c" "c_sub c = Some i" by blast
  let ?run = "fst (get_current_user e now token (opened s))"
  have "distinct (map u_id (db_users s))" using assms by (simp add: wf_db_def wf_users_def)
  then have "filter (\<lambda>u. u_id u = i) (db_users s) =
      (case find (\<lambda>u. u_id u = i) (db_users s) of None \<Rightarrow> [] | Some u \<Rightarrow> [u])"
    using filter_unique_key [of u_id "\<lambda>_. True" "db_users s" i] by simp
  then have run: "?run = (case find (\<lambda>u. u_id u = i) (db_users s) of
      None \<Rightarrow> Inl (Http 401 Session_invalide) | Some u \<Rightarrow> Inr u)"
    using c by (simp add: get_current_user_def bindP_def query_def statement_def one_or_none_def
        ret_def http_def throw_def opened_def split: option.splits)
  show ?thesis
  proof (cases "find (\<lambda>u. u_id u = i) (db_users s)")
    case None
    with run show ?thesis by (intro rejected) simp
  next
    case (Some u)
    with find_SomeD [OF Some] run c show ?thesis by (intro found) auto
  qed
qed

lemma admin_call_run:
  "request (serve v d (Administrator token c)) s =
     (case fst (get_current_user (security_of v) (dr_now d) token (opened s)) of Inl e \<Rightarrow> (Inl e, s)
      | Inr user \<Rightarrow> if u_role user \<noteq> ADMIN then (Inl (Http 403 Reserve_aux_administrateurs), s)
          else request (serve_admin v d user c) s)"
proof -
  have adm: "request (bindP (require_admin user) (\<lambda>a. serve_admin v d a c)) s =
      (if u_role user \<noteq> ADMIN then (Inl (Http 403 Reserve_aux_administrateurs), s)
       else request (serve_admin v d user c) s)" for user
    by (simp add: request_reads_bind [OF reads_auth(2)]) (simp add: require_admin_def http_def throw_def ret_def)
  show ?thesis
    by (simp only: serve.simps request_reads_bind [OF reads_auth(1)] adm)
qed

text \<open>A call of a dashboard route whose token does not decode, or names no account, answers 401; one
  whose account is not ADMIN answers 403; in each case nothing changes.\<close>

theorem admin_routes_need_admin:
  assumes "wf_db s"
    and "\<And>c u. jwt_decode (security_of v) (dr_now d) token = Some c \<Longrightarrow> c_sub c = Some (u_id u) \<Longrightarrow>
           u \<in> set (db_users s) \<Longrightarrow> u_role u \<noteq> ADMIN"
  shows "handle v d (Administrator token c) s = (Inl (Http 401 Session_invalide), s) \<or>
    handle v d (Administrator token c) s = (Inl (Http 403 Reserve_aux_administrateurs), s)"
  using assms(1)
proof (cases rule: current_user_outcome [where e = "security_of v" and now = "dr_now d" and token = token])
  case rejected
  then show ?thesis by (simp only: handle_def admin_call_run) simp
next
  case (found p u)
  from assms(2) [OF found(2-4)] found(1) show ?thesis by (simp only: handle_def admin_call_run) simp
qed

section \<open>Every endpoint\<close>

lemma checked_unmade: "checked x \<Longrightarrow> reads (unmade_call v x) \<and> raises STATUSES (unmade_call v x)"
  by (cases x) (auto simp: read_only_def STATUSES_def intro!: reads_intros raises_intros)

lemma reads_snd: "reads p \<Longrightarrow> snd (request p s) = s"
  by (simp add: reads_def request_def split: prod.splits) (metis opened_simps(2) snd_conv)

lemma reply_of_check:
  assumes "reads p" "raises STATUSES p"
  shows "snd (reply_of_check (request p s)) = s" "status_of_reply (fst (reply_of_check (request p s))) \<in> STATUSES"
proof -
  show "snd (reply_of_check (request p s)) = s" using reads_snd [OF assms(1)] by (simp add: reply_of_check_def)
  have "status_of_reply (reply_of_error e) \<in> STATUSES" if "fst (request p s) = Inl e" for e
    using that assms(2) by (cases e) (auto simp: raises_def request_def STATUSES_def split: prod.splits, metis fst_conv)
  then show "status_of_reply (fst (reply_of_check (request p s))) \<in> STATUSES"
    by (auto simp: reply_of_check_def STATUSES_def split: sum.splits)
qed

lemma reply_of_call:
  assumes "n \<in> {200, 201, 202}"
  shows "status_of_reply (fst (reply_of_call n (handle v d c s))) \<in> STATUSES"
    "300 \<le> status_of_reply (fst (reply_of_call n (handle v d c s))) \<Longrightarrow> snd (reply_of_call n (handle v d c s)) = s"
    "served v s (snd (reply_of_call n (handle v d c s)))"
proof -
  obtain r s' where h: "handle v d c s = (r, s')" by fastforce
  have same: "s' = s" if "r = Inl e" for e
    using h that serve_aon [of v d c] by (auto elim!: handle_cases simp: all_or_nothing_def)
  have st: "status_of_reply (reply_of_error e) \<in> STATUSES" if "r = Inl e" for e
    using h that by (cases e) (auto simp: STATUSES_def dest: handle_error_status)
  show "status_of_reply (fst (reply_of_call n (handle v d c s))) \<in> STATUSES"
    using st assms h by (auto simp: reply_of_call_def STATUSES_def split: sum.splits)
  show "300 \<le> status_of_reply (fst (reply_of_call n (handle v d c s))) \<Longrightarrow> snd (reply_of_call n (handle v d c s)) = s"
    using same assms h by (auto simp: reply_of_call_def split: sum.splits)
  show "served v s (snd (reply_of_call n (handle v d c s)))"
    using served.step [OF served.start h] h by (simp add: reply_of_call_def)
qed

definition fine :: "'c env \<Rightarrow> db \<Rightarrow> reply \<times> db \<Rightarrow> bool" where
  "fine v s rs \<longleftrightarrow> status_of_reply (fst rs) \<in> STATUSES \<and> (300 \<le> status_of_reply (fst rs) \<longrightarrow> snd rs = s) \<and> served v s (snd rs)"

lemma fine_same: "status_of_reply r \<in> STATUSES \<Longrightarrow> fine v s (r, s)"
  by (simp add: fine_def served.start)

lemma fine_check: "reads p \<Longrightarrow> raises STATUSES p \<Longrightarrow> fine v s (reply_of_check (request p s))"
  using reply_of_check [of p s] by (simp add: fine_def served.start)

lemma fine_call: "n \<in> {200, 201, 202} \<Longrightarrow> fine v s (reply_of_call n (handle v d c s))"
  by (simp add: fine_def reply_of_call)

lemma fine_token_check:
  assumes "checked x"
  shows "fine v s (reply_of_check (request (bindP (get_current_user e now t) (\<lambda>_. unmade_call v x)) s))"
    "fine v s (reply_of_check (request (bindP (get_current_user e now t) (\<lambda>u. bindP (require_admin u) (\<lambda>_. unmade_call v x))) s))"
  using checked_unmade [OF assms, of v]
  by (auto intro!: fine_check reads_intros(7) reads_auth raises_bind raises_auth)

lemma fine_endpoint:
  assumes "checked_endpoint ep" "n \<in> {200, 201, 202}"
  shows "fine v s (answer_endpoint v d n h ep s)"
proof -
  have deny: "fine v s (Not_authenticated, s)" "fine v s (Documentation, s)"
    by (simp_all add: fine_same STATUSES_def)
  show ?thesis
  proof (cases ep)
    case (Open_to_all x)
    with assms checked_unmade [of x v] show ?thesis by (cases x) (simp_all add: fine_check fine_call)
  next
    case (Bearer x)
    with assms deny fine_token_check(1) [of x v s] show ?thesis
      by (cases x) (simp_all add: fine_call split: option.split)
  next
    case (Admin_bearer x)
    with assms deny fine_token_check(2) [of x v s] show ?thesis
      by (cases x) (simp_all add: fine_call split: option.split)
  qed (simp add: deny)
qed

lemma route_status: "r \<in> set app_routes \<Longrightarrow> ro_status r \<in> {200, 201, 202}"
  by (auto simp: app_routes_def docs_routes_def auth_routes_def wallet_routes_def admin_routes_def kyc_routes_def
      device_routes_def plain_def querying_def taking_def naming_def)

lemma find_route_Found:
  assumes "find_route m p rs = Found r ps"
  shows "r \<in> set rs" "path_match (ro_pattern r) p = Some ps" "ro_method r = m"
  using assms by (auto simp: find_route_def matching_def split: option.splits if_splits dest!: find_SomeD)

lemma fine_respond: "fine v s (respond v uuid_of d rq s)"
proof (cases "find_route (wr_method rq) (wr_path rq) app_routes")
  case (Found r ps)
  have "fine v s (answer_endpoint v d (ro_status r) h (ro_endpoint r uuid_of ps q b) s)" for h q b
    by (rule fine_endpoint [OF routes_checked route_status]) (rule find_route_Found(1) [OF Found])+
  with Found show ?thesis by (simp add: respond_def fine_same STATUSES_def)
qed (simp_all add: respond_def fine_same STATUSES_def)

section \<open>The administration\<close>

fun secret_of :: "public_call \<Rightarrow> string option" where
  "secret_of (Kyc_decide_link sec i dec r) = Some sec"
| "secret_of (Kyc_page sec) = Some sec"
| "secret_of (Pending_transactions sec) = Some sec"
| "secret_of (User_history sec ref) = Some sec"
| "secret_of (Users_page sec q) = Some sec"
| "secret_of _ = None"

fun behind_door :: "query_args \<Rightarrow> endpoint \<Rightarrow> bool" where
  "behind_door q (Admin_bearer x) = True"
| "behind_door q (Open_to_all (Call_of c)) = (secret_of c \<noteq> None \<and> arg ''secret'' q = secret_of c)"
| "behind_door q (Open_to_all x) = True"
| "behind_door q _ = False"

lemma admin_doors:
  assumes "r \<in> set app_routes" "path_match (ro_pattern r) (''api'' # ''v1'' # ''admin'' # rest) = Some ps"
  shows "behind_door q (ro_endpoint r uuid_of ps q b)"
  using assms
  by (auto simp: app_routes_def docs_routes_def auth_routes_def wallet_routes_def admin_routes_def kyc_routes_def api_def
      device_routes_def plain_def querying_def taking_def naming_def reviewing_def secret_and_def parsed_def with_id_def
      split: option.splits if_splits)

lemma answers_throw: "answers f (throw y) = throw y"
  by (simp add: answers_def run_simps)

lemma secret_refused:
  assumes "secret_of c = Some sec" "bootstrap_secret (security_of v) = [] \<or> sec \<noteq> bootstrap_secret (security_of v)"
  shows "\<exists>x. serve_public v d c = throw x"
proof -
  obtain x where x: "check_secret (security_of v) sec = throw x"
    using assms(2) by (cases "bootstrap_secret (security_of v) = []") (auto simp: check_secret_def http_def)
  with assms(1) show ?thesis
    by (cases c) (auto simp: x answers_throw kyc_decide_def kyc_pending_page_def list_pending_transactions_def http_def
        user_transaction_history_def users_html_page_def run_simps)
qed

lemma secret_checked:
  assumes "secret_of c = Some sec" "handle v d (Public c) s = (Inr a, s')"
  shows "bootstrap_secret (security_of v) = sec \<and> sec \<noteq> []"
proof (rule ccontr)
  assume "\<not> ?thesis"
  then have "bootstrap_secret (security_of v) = [] \<or> sec \<noteq> bootstrap_secret (security_of v)" by auto
  from secret_refused [OF assms(1) this, of d] assms(2) show False
    by (auto simp: handle_def request_def throw_def)
qed

lemma admin_call_checked:
  assumes "wf_db s" "handle v d (Administrator token c) s = (Inr a, s')"
  shows "\<exists>p u. jwt_decode (security_of v) (dr_now d) token = Some p \<and> c_sub p = Some (u_id u) \<and>
    u \<in> set (db_users s) \<and> u_role u = ADMIN"
  using assms(1)
proof (cases rule: current_user_outcome [where e = "security_of v" and now = "dr_now d" and token = token])
  case rejected
  with assms(2) show ?thesis by (simp only: handle_def admin_call_run) simp
next
  case (found p u)
  with assms(2) have "u_role u = ADMIN" by (simp only: handle_def admin_call_run) (simp split: if_splits)
  with found show ?thesis by blast
qed

lemma respond_served: "served v s (snd (respond v uuid_of d rq s))"
  using fine_respond [of v s uuid_of d rq] by (simp add: fine_def)

end
