(* ===== verification/Interleaving.thy ===== *)
theory Interleaving
  imports Service
begin

text \<open>
  Requests that run at the same time. A \<open>script\<close> is a request's dealings with the database as a
  tree of statements, so that others can run between two of them; \<open>denote\<close> is the program that a
  script is when nobody interferes. In a \<open>system\<close> every session has its script, and the database
  is READ COMMITTED: a statement sees what is committed when it runs and what its own transaction
  has written. A transaction that has written keeps others from writing until it commits or ends
  (the rows it locked; here all rows, so that of the interleavings of PostgreSQL those are left out
  in which two transactions are between their first write and their commit).
\<close>

section \<open>Scripts\<close>

datatype 'a script =
    Finish "exn + 'a"
  | Select "db \<Rightarrow> 'a script"
  | Change "db \<Rightarrow> sql_error + 'a script \<times> db"
  | Commit "'a script"

primrec denote :: "'a script \<Rightarrow> 'a prog" where
  "denote (Finish r) = (\<lambda>\<sigma>. (r, \<sigma>))"
| "denote (Select f) = (\<lambda>\<sigma>. if aborted \<sigma> then (Inl In_failed_sql_transaction, \<sigma>) else denote (f (current \<sigma>)) \<sigma>)"
| "denote (Change f) = (\<lambda>\<sigma>.
     if aborted \<sigma> then (Inl In_failed_sql_transaction, \<sigma>)
     else case map_sum id (map_prod denote id) (f (current \<sigma>)) of
       Inl e \<Rightarrow> (Inl (Sql e), \<sigma>\<lparr>aborted := True\<rparr>)
     | Inr (p, s) \<Rightarrow> p (\<sigma>\<lparr>current := s\<rparr>))"
| "denote (Commit k) = (\<lambda>\<sigma>. denote k (snd (commit \<sigma>)))"

primrec bindS :: "'a script \<Rightarrow> ('a \<Rightarrow> 'b script) \<Rightarrow> 'b script" where
  "bindS (Finish r) k = (case r of Inl e \<Rightarrow> Finish (Inl e) | Inr x \<Rightarrow> k x)"
| "bindS (Select f) k = Select (\<lambda>s. bindS (f s) k)"
| "bindS (Change f) k = Change (\<lambda>s. map_sum id (map_prod (\<lambda>c. bindS c k) id) (f s))"
| "bindS (Commit c) k = Commit (bindS c k)"

definition retS :: "'a \<Rightarrow> 'a script" where
  "retS x = Finish (Inr x)"

definition httpS :: "nat \<Rightarrow> detail \<Rightarrow> 'a script" where
  "httpS code d = Finish (Inl (Http code d))"

definition failS :: "exn \<Rightarrow> 'a script" where
  "failS e = Finish (Inl e)"

definition queryS :: "(db \<Rightarrow> 'a) \<Rightarrow> 'a script" where
  "queryS f = Select (\<lambda>s. Finish (Inr (f s)))"

definition statementS :: "(db \<Rightarrow> sql_error + ('a \<times> db)) \<Rightarrow> 'a script" where
  "statementS f = Change (\<lambda>s. case f s of Inl e \<Rightarrow> Inl e | Inr (x, s') \<Rightarrow> Inr (Finish (Inr x), s'))"

definition execS :: "(db \<Rightarrow> sql_error + db) \<Rightarrow> unit script" where
  "execS f = statementS (\<lambda>s. bindE (f s) (\<lambda>s'. Inr ((), s')))"

definition commitS :: "unit script" where
  "commitS = Commit (Finish (Inr ()))"

definition one_or_noneS :: "'r list \<Rightarrow> 'r option script" where
  "one_or_noneS rs = (case rs of [] \<Rightarrow> retS None | [r] \<Rightarrow> retS (Some r) | _ \<Rightarrow> failS Multiple_results_found)"

lemma Change_simps [simp]:
  "denote (Change f) \<sigma> =
     (if aborted \<sigma> then (Inl In_failed_sql_transaction, \<sigma>)
      else case f (current \<sigma>) of Inl e \<Rightarrow> (Inl (Sql e), \<sigma>\<lparr>aborted := True\<rparr>)
        | Inr (c, s) \<Rightarrow> denote c (\<sigma>\<lparr>current := s\<rparr>))"
  "bindS (Change f) k = Change (\<lambda>s. case f s of Inl e \<Rightarrow> Inl e | Inr (c, s') \<Rightarrow> Inr (bindS c k, s'))"
  by (auto split: sum.splits prod.splits)

declare denote.simps(3) [simp del] bindS.simps(3) [simp del]

lemma script_induct [case_names Finish Select Change Commit]:
  assumes "\<And>r. P (Finish r)" "\<And>f. (\<And>s. P (f s)) \<Longrightarrow> P (Select f)"
    "\<And>f. (\<And>s c t. f s = Inr (c, t) \<Longrightarrow> P c) \<Longrightarrow> P (Change f)" "\<And>c. P c \<Longrightarrow> P (Commit c)"
  shows "P c"
proof (induction c)
  case (Change f)
  show ?case
  proof (rule assms(3))
    fix s c t assume "f s = Inr (c, t)"
    then show "P c"
      by (intro Change.IH [of "f s" "(c, t)"]) (auto simp: sum_set_defs prod_set_defs intro: range_eqI [of _ _ s])
  qed
qed (auto intro: assms)

lemma denote_bindS: "denote (bindS m k) = bindP (denote m) (\<lambda>x. denote (k x))"
proof (induction m rule: script_induct)
  case (Change f)
  show ?case
    by (rule ext) (auto simp: bindP_def Change split: sum.splits prod.splits)
qed (auto simp: bindP_def fun_eq_iff split: sum.splits)

lemma bindS_assoc: "bindS (bindS m f) g = bindS m (\<lambda>x. bindS (f x) g)"
  by (induction m rule: script_induct) (auto split: sum.splits intro!: ext)

lemma bindS_cases:
  "bindS (if b then p else q) k = (if b then bindS p k else bindS q k)"
  "bindS (case ov of None \<Rightarrow> p | Some x \<Rightarrow> fo x) k = (case ov of None \<Rightarrow> bindS p k | Some x \<Rightarrow> bindS (fo x) k)"
  by (simp_all split: option.splits)

lemma denote_base:
  "denote (retS x) = ret x" "denote (httpS c d) = http c d" "denote (failS e) = throw e" "denote (queryS f) = query f"
  "denote (statementS g) = statement g" "denote (execS h) = exec h" "denote commitS = commit"
  "denote (one_or_noneS rs) = one_or_none rs"
  by (auto simp: retS_def httpS_def failS_def queryS_def statementS_def execS_def commitS_def one_or_noneS_def
      ret_def http_def throw_def query_def statement_def exec_def commit_def one_or_none_def fun_eq_iff
      split: sum.splits prod.splits list.splits)

lemmas denote_simps = denote_bindS denote_base

section \<open>Sessions that interleave\<close>

record 'a system =
  store :: db
  writer :: "(nat \<times> db) option"
  running :: "'a script list"

definition all_begin :: "db \<Rightarrow> 'a script list \<Rightarrow> 'a system" where
  "all_begin s cs = \<lparr>store = s, writer = None, running = cs\<rparr>"

definition seen_by :: "nat \<Rightarrow> 'a system \<Rightarrow> db" where
  "seen_by i y = (case writer y of Some (j, w) \<Rightarrow> if j = i then w else store y | None \<Rightarrow> store y)"

definition others_write :: "nat \<Rightarrow> 'a system \<Rightarrow> bool" where
  "others_write i y = (case writer y of Some (j, w) \<Rightarrow> j \<noteq> i | None \<Rightarrow> False)"

definition release :: "nat \<Rightarrow> 'a system \<Rightarrow> 'a system" where
  "release i y = (if others_write i y then y else y\<lparr>writer := None\<rparr>)"

definition continue_with :: "nat \<Rightarrow> 'a script \<Rightarrow> 'a system \<Rightarrow> 'a system" where
  "continue_with i k y = y\<lparr>running := (running y)[i := k]\<rparr>"

text \<open>
  The next statement of session \<open>i\<close>; a session that must wait for a lock stays where it is. A
  session that ends gives up what it has not committed.
\<close>

definition advance :: "nat \<Rightarrow> 'a system \<Rightarrow> 'a system" where
  "advance i y =
     (if length (running y) \<le> i then y
      else case running y ! i of
        Finish r \<Rightarrow> release i y
      | Select f \<Rightarrow> continue_with i (f (seen_by i y)) y
      | Change f \<Rightarrow>
          if others_write i y then y
          else (case f (seen_by i y) of
              Inl e \<Rightarrow> continue_with i (Finish (Inl (Sql e))) (release i y)
            | Inr (k, s) \<Rightarrow> continue_with i k (y\<lparr>writer := Some (i, s)\<rparr>))
      | Commit k \<Rightarrow> continue_with i k (release i (y\<lparr>store := seen_by i y\<rparr>)))"

inductive interleaved :: "'a system \<Rightarrow> 'a system \<Rightarrow> bool" where
  here: "interleaved y y"
| turn: "interleaved y y' \<Longrightarrow> interleaved y (advance i y')"

definition turns :: "nat list \<Rightarrow> 'a system \<Rightarrow> 'a system" where
  "turns is y = fold advance is y"

lemma interleaved_turns: "interleaved y (turns is y)"
proof -
  have "interleaved y (fold advance is y')" if "interleaved y y'" for y'
    using that by (induction "is" arbitrary: y') (auto intro: interleaved.intros)
  then show ?thesis by (simp add: turns_def interleaved.here)
qed

section \<open>Invariants under interleaving\<close>

text \<open>
  \<open>keeping I c\<close>: wherever the script \<open>c\<close> commits, the database satisfies \<open>I\<close>, if what others
  commit meanwhile does. \<open>pending I c w\<close>: the same in the middle of a transaction that sees \<open>w\<close>.
\<close>

named_theorems script_intros

inductive keeping :: "(db \<Rightarrow> bool) \<Rightarrow> 'a script \<Rightarrow> bool"
  and pending :: "(db \<Rightarrow> bool) \<Rightarrow> 'a script \<Rightarrow> db \<Rightarrow> bool"
  for I where
  "keeping I (Finish r)"
| "(\<And>s. I s \<Longrightarrow> keeping I (f s)) \<Longrightarrow> keeping I (Select f)"
| "(\<And>s k s'. I s \<Longrightarrow> f s = Inr (k, s') \<Longrightarrow> pending I k s') \<Longrightarrow> keeping I (Change f)"
| "keeping I k \<Longrightarrow> keeping I (Commit k)"
| "pending I (Finish r) w"
| "pending I (f w) w \<Longrightarrow> pending I (Select f) w"
| "(\<And>k w'. f w = Inr (k, w') \<Longrightarrow> pending I k w') \<Longrightarrow> pending I (Change f) w"
| "I w \<Longrightarrow> keeping I k \<Longrightarrow> pending I (Commit k) w"

inductive_cases keeping_elims: "keeping I (Select f)" "keeping I (Change f)" "keeping I (Commit k)"
inductive_cases pending_elims: "pending I (Select f) w" "pending I (Change f) w" "pending I (Commit k) w"

definition well_at :: "(db \<Rightarrow> bool) \<Rightarrow> (nat \<times> db) option \<Rightarrow> 'a script list \<Rightarrow> nat \<Rightarrow> bool" where
  "well_at I wr cs j =
     (case wr of Some (i, w) \<Rightarrow> if i = j then pending I (cs ! j) w else keeping I (cs ! j)
      | None \<Rightarrow> keeping I (cs ! j))"

definition running_well :: "(db \<Rightarrow> bool) \<Rightarrow> 'a system \<Rightarrow> bool" where
  "running_well I y \<longleftrightarrow> I (store y) \<and> (\<forall>j < length (running y). well_at I (writer y) (running y) j)"

lemma running_well_begin: "I s \<Longrightarrow> (\<And>c. c \<in> set cs \<Longrightarrow> keeping I c) \<Longrightarrow> running_well I (all_begin s cs)"
  by (simp add: running_well_def all_begin_def well_at_def)

lemma running_well_step:
  assumes "running_well I y" "i < length (running y)" "running y' = (running y)[i := k]" "I (store y')"
    and "\<And>j. j \<noteq> i \<Longrightarrow> writer y' = None \<or> fst (the (writer y')) \<noteq> j \<or> writer y' = writer y"
    and "\<And>j. j \<noteq> i \<Longrightarrow> writer y = None \<or> fst (the (writer y)) \<noteq> j \<or> writer y' = writer y"
    and "well_at I (writer y') ((running y)[i := k]) i"
  shows "running_well I y'"
proof -
  have "well_at I (writer y') ((running y)[i := k]) j" if "j < length (running y)" for j
  proof (cases "j = i")
    case True
    with assms show ?thesis by simp
  next
    case False
    then have "well_at I (writer y) (running y) j" using assms(1) that by (simp add: running_well_def)
    with False assms(5,6) [OF False] show ?thesis
      by (auto simp: well_at_def split: option.splits if_splits)
  qed
  with assms show ?thesis by (simp add: running_well_def)
qed

lemma running_well_turn:
  assumes w: "running_well I y"
  shows "running_well I (advance i y)"
proof (cases "i < length (running y)")
  case i: True
  note at = w [unfolded running_well_def, THEN conjunct2, rule_format, OF i]
  have st: "I (store y)" using w by (simp add: running_well_def)
  show ?thesis
  proof (cases "running y ! i")
    case (Finish r)
    have same: "(running y)[i := Finish r] = running y" using Finish by (metis list_update_id)
    show ?thesis
      by (rule running_well_step [OF w i, where k = "Finish r"])
         (use i Finish same at st in \<open>auto simp: advance_def release_def others_write_def well_at_def
            intro: keeping_pending.intros split: option.splits if_splits\<close>)
  next
    case (Select f)
    show ?thesis
      by (rule running_well_step [OF w i, where k = "f (seen_by i y)"])
         (use i Select at st in \<open>auto simp: advance_def continue_with_def seen_by_def well_at_def
            elim: keeping_elims pending_elims split: option.splits if_splits\<close>)
  next
    case (Change f)
    show ?thesis
    proof (cases "others_write i y")
      case True
      with w i Change show ?thesis by (simp add: advance_def)
    next
      case False
      show ?thesis
      proof (cases "f (seen_by i y)")
        case (Inl e)
        show ?thesis
          by (rule running_well_step [OF w i, where k = "Finish (Inl (Sql e))"])
             (use i Change Inl False st in \<open>auto simp: advance_def release_def continue_with_def others_write_def well_at_def
                intro: keeping_pending.intros split: option.splits if_splits\<close>)
      next
        case (Inr q)
        obtain k s where q: "q = (k, s)" by fastforce
        show ?thesis
          by (rule running_well_step [OF w i, where k = k])
             (use i Change Inr q False at st in \<open>auto simp: advance_def continue_with_def others_write_def well_at_def seen_by_def
                elim: keeping_elims pending_elims split: option.splits if_splits\<close>)
      qed
    qed
  next
    case (Commit k)
    show ?thesis
      by (rule running_well_step [OF w i, where k = k])
         (use i Commit at st in \<open>auto simp: advance_def release_def continue_with_def others_write_def well_at_def seen_by_def
            elim: keeping_elims pending_elims split: option.splits if_splits\<close>)
  qed
qed (use w in \<open>simp add: advance_def\<close>)

lemma interleaved_keeps:
  "interleaved y y' \<Longrightarrow> running_well I y \<Longrightarrow> running_well I y'"
  by (induction rule: interleaved.induct) (auto intro: running_well_turn)

text \<open>The rules by which a script's text is gone through.\<close>

lemma keeping_bind_reads [script_intros]:
  "keeping I (retS x)" "keeping I (httpS c d)" "keeping I (failS e)" "keeping I (Finish r)"
  "keeping I (k x) \<Longrightarrow> keeping I (bindS (retS x) k)" "keeping I (bindS (failS e) k)" "keeping I (bindS (httpS c d) k)"
  "(\<And>s. I s \<Longrightarrow> keeping I (k (f s))) \<Longrightarrow> keeping I (bindS (queryS f) k)"
  "(\<And>r. keeping I (ko r)) \<Longrightarrow> keeping I (bindS (one_or_noneS rs) ko)"
  "keeping I (ku ()) \<Longrightarrow> keeping I (bindS commitS ku)"
  by (auto simp: retS_def httpS_def failS_def queryS_def commitS_def one_or_noneS_def split: list.splits
      intro!: keeping_pending.intros)

lemma keeping_bind_changes [script_intros]:
  "(\<And>s x s'. I s \<Longrightarrow> g s = Inr (x, s') \<Longrightarrow> pending I (k x) s') \<Longrightarrow> keeping I (bindS (statementS g) k)"
  "(\<And>s s'. I s \<Longrightarrow> h s = Inr s' \<Longrightarrow> pending I (ku ()) s') \<Longrightarrow> keeping I (bindS (execS h) ku)"
  by (auto simp: statementS_def execS_def bindE_def intro!: keeping_pending.intros split: sum.splits)

lemma pending_bind [script_intros]:
  "pending I (retS x) w" "pending I (httpS c d) w" "pending I (failS e) w" "pending I (bindS (failS e) k) w"
  "pending I (k x) w \<Longrightarrow> pending I (bindS (retS x) k) w"
  "pending I (kf (f w)) w \<Longrightarrow> pending I (bindS (queryS f) kf) w"
  "(\<And>x w'. g w = Inr (x, w') \<Longrightarrow> pending I (kg x) w') \<Longrightarrow> pending I (bindS (statementS g) kg) w"
  "(\<And>w'. h w = Inr w' \<Longrightarrow> pending I (ku ()) w') \<Longrightarrow> pending I (bindS (execS h) ku) w"
  "I w \<Longrightarrow> keeping I (ku ()) \<Longrightarrow> pending I (bindS commitS ku) w"
  "I w \<Longrightarrow> pending I commitS w"
  by (auto simp: retS_def httpS_def failS_def queryS_def commitS_def statementS_def execS_def bindE_def split: sum.splits
      intro!: keeping_pending.intros)

lemma script_cases [script_intros]:
  "(b \<Longrightarrow> keeping I p) \<Longrightarrow> (\<not> b \<Longrightarrow> keeping I q) \<Longrightarrow> keeping I (if b then p else q)"
  "(ov = None \<Longrightarrow> keeping I p) \<Longrightarrow> (\<And>x. ov = Some x \<Longrightarrow> keeping I (fo x)) \<Longrightarrow> keeping I (case ov of None \<Rightarrow> p | Some x \<Rightarrow> fo x)"
  "(b \<Longrightarrow> pending I p w) \<Longrightarrow> (\<not> b \<Longrightarrow> pending I q w) \<Longrightarrow> pending I (if b then p else q) w"
  "(ov = None \<Longrightarrow> pending I p w) \<Longrightarrow> (\<And>x. ov = Some x \<Longrightarrow> pending I (fo x) w) \<Longrightarrow> pending I (case ov of None \<Rightarrow> p | Some x \<Rightarrow> fo x) w"
  by (auto split: option.splits)

section \<open>Running alone\<close>

lemma continue_simps [simp]:
  "seen_by i (continue_with j k y) = seen_by i y" "others_write i (continue_with j k y) = others_write i y"
  "running (continue_with j k y) = (running y)[j := k]" "store (continue_with j k y) = store y"
  by (simp_all add: seen_by_def others_write_def continue_with_def split: option.splits)

lemma then_advance:
  assumes "advance i y = y1" "\<exists>n. (advance i ^^ n) y1 = z"
  shows "\<exists>n. (advance i ^^ n) y = z"
proof -
  obtain n where "(advance i ^^ n) y1 = z" using assms(2) by blast
  then have "(advance i ^^ Suc n) y = z" using assms(1) by (simp add: funpow_swap1)
  then show ?thesis by blast
qed

lemma advance_alone:
  assumes "i < length (running y)" "\<not> others_write i y" "\<not> aborted \<sigma>"
    "committed \<sigma> = store y" "current \<sigma> = seen_by i y"
  shows "\<exists>n. (advance i ^^ n) y =
    y\<lparr>store := committed (snd (denote (running y ! i) \<sigma>)), writer := None,
      running := (running y)[i := Finish (fst (denote (running y ! i) \<sigma>))]\<rparr>"
proof -
  have "\<exists>n. (advance i ^^ n) y = y\<lparr>store := committed (snd (denote c \<sigma>)), writer := None, running := (running y)[i := Finish (fst (denote c \<sigma>))]\<rparr>"
    if "running y ! i = c" for c
    using that assms
  proof (induction c arbitrary: y \<sigma> rule: script_induct)
    case (Finish r)
    from Finish.prems(1,2) have "(running y)[i := Finish r] = running y" by (simp add: list_update_same_conv)
    with Finish.prems have adv: "advance i y = y\<lparr>writer := None, running := (running y)[i := Finish r]\<rparr>"
      by (cases y) (simp add: advance_def release_def)
    show ?case by (intro exI [of _ 1]) (use adv Finish.prems in simp)
  next
    case (Select f)
    let ?y = "continue_with i (f (seen_by i y)) y"
    have "advance i y = ?y" using Select.prems by (simp add: advance_def)
    moreover have "\<exists>n. (advance i ^^ n) ?y = ?y\<lparr>store := committed (snd (denote (f (seen_by i y)) \<sigma>)), writer := None,
        running := (running ?y)[i := Finish (fst (denote (f (seen_by i y)) \<sigma>))]\<rparr>"
      by (rule Select.IH) (use Select.prems in simp_all)
    ultimately show ?case
      using Select.prems by (rule_tac then_advance) (simp_all add: continue_with_def)
  next
    case (Change f)
    have adv: "advance i y = (case f (seen_by i y) of
        Inl e \<Rightarrow> continue_with i (Finish (Inl (Sql e))) (y\<lparr>writer := None\<rparr>)
      | Inr (k, s) \<Rightarrow> continue_with i k (y\<lparr>writer := Some (i, s)\<rparr>))"
      using Change.prems by (simp add: advance_def release_def split: sum.splits)
    show ?case
    proof (cases "f (seen_by i y)")
      case (Inl e)
      with adv Change.prems show ?thesis by (intro exI [of _ 1]) (simp add: continue_with_def)
    next
      case (Inr q)
      obtain k s where q: "q = (k, s)" by fastforce
      let ?y = "continue_with i k (y\<lparr>writer := Some (i, s)\<rparr>)"
      have "\<exists>n. (advance i ^^ n) ?y = ?y\<lparr>store := committed (snd (denote k (\<sigma>\<lparr>current := s\<rparr>))), writer := None,
          running := (running ?y)[i := Finish (fst (denote k (\<sigma>\<lparr>current := s\<rparr>)))]\<rparr>"
        by (rule Change.IH [of "seen_by i y" k s])
           (use Change.prems Inr q in \<open>simp_all add: continue_with_def others_write_def seen_by_def\<close>)
      with adv Inr q Change.prems show ?thesis by (rule_tac then_advance) (simp_all add: continue_with_def)
    qed
  next
    case (Commit k)
    let ?y = "continue_with i k (y\<lparr>store := seen_by i y, writer := None\<rparr>)"
    let ?r = "\<sigma>\<lparr>committed := current \<sigma>\<rparr>"
    have "advance i y = ?y" using Commit.prems
      by (simp add: advance_def release_def others_write_def)
    moreover have "\<exists>n. (advance i ^^ n) ?y = ?y\<lparr>store := committed (snd (denote k ?r)), writer := None,
        running := (running ?y)[i := Finish (fst (denote k ?r))]\<rparr>"
      by (rule Commit.IH) (use Commit.prems in \<open>simp_all add: continue_with_def others_write_def seen_by_def\<close>)
    ultimately show ?case
      using Commit.prems by (rule_tac then_advance) (simp_all add: continue_with_def commit_def)
  qed
  then show ?thesis by simp
qed

text \<open>One request after the other, and the answers they get.\<close>

primrec serially :: "'a script list \<Rightarrow> db \<Rightarrow> (exn + 'a) list \<times> db" where
  "serially [] s = ([], s)"
| "serially (c # cs) s = (let (r, s') = request (denote c) s; (rs, s'') = serially cs s' in (r # rs, s''))"

lemma interleaved_trans: "interleaved y y' \<Longrightarrow> interleaved y' y'' \<Longrightarrow> interleaved y y''"
  by (rotate_tac) (induction rule: interleaved.induct, auto intro: interleaved.intros)

lemma interleaved_funpow: "interleaved y ((advance i ^^ n) y)"
  by (induction n) (auto intro: interleaved.intros)

lemma serially_reached:
  assumes "running y = map Finish rs @ cs" "writer y = None"
  shows "\<exists>y'. interleaved y y' \<and> writer y' = None \<and> store y' = snd (serially cs (store y)) \<and>
    running y' = map Finish (rs @ fst (serially cs (store y)))"
  using assms
proof (induction cs arbitrary: y rs)
  case Nil
  then show ?case by (intro exI [of _ y]) (auto intro: interleaved.here)
next
  case (Cons c cs)
  let ?i = "length rs"
  obtain r s' where r: "request (denote c) (store y) = (r, s')" by fastforce
  have c: "running y ! ?i = c" "?i < length (running y)" using Cons.prems(1) by (simp_all add: nth_append)
  obtain n where n: "(advance ?i ^^ n) y = y\<lparr>store := s', writer := None, running := (running y)[?i := Finish r]\<rparr>"
    using advance_alone [OF c(2), of "opened (store y)"] Cons.prems(2) r c(1)
    by (auto simp: others_write_def seen_by_def request_def split: prod.splits)
  let ?y = "y\<lparr>store := s', writer := None, running := (running y)[?i := Finish r]\<rparr>"
  have "running ?y = map Finish (rs @ [r]) @ cs"
    using Cons.prems(1) list_update_length [of "map Finish rs" c cs "Finish r"] by simp
  from Cons.IH [OF this] obtain y' where
    "interleaved ?y y'" "writer y' = None" "store y' = snd (serially cs s')" "running y' = map Finish ((rs @ [r]) @ fst (serially cs s'))"
    by auto
  moreover have "interleaved y y'"
    using interleaved_trans [OF interleaved_funpow [where y = y and i = ?i and n = n, unfolded n] calculation(1)] .
  ultimately show ?case using r by (intro exI [of _ y']) (simp split: prod.splits)
qed

section \<open>No deadlock\<close>

text \<open>Whatever has happened, all sessions can still be answered: the one that writes first, then the
  others. (A script has no loops; what it waits for is the one transaction that has written.)\<close>

definition writer_known :: "'a system \<Rightarrow> bool" where
  "writer_known y \<longleftrightarrow> (\<forall>i w. writer y = Some (i, w) \<longrightarrow> i < length (running y))"

lemma interleaved_known: "interleaved y y' \<Longrightarrow> writer_known y \<Longrightarrow> writer_known y'"
  by (induction rule: interleaved.induct)
     (auto simp: writer_known_def advance_def release_def continue_with_def split: script.splits sum.splits)

lemma one_answered:
  assumes "i < length (running y)" "\<not> others_write i y"
  shows "\<exists>y' r. interleaved y y' \<and> writer y' = None \<and> running y' = (running y)[i := Finish r]"
proof -
  let ?\<sigma> = "\<lparr>committed = store y, current = seen_by i y, aborted = False\<rparr>"
  let ?r = "fst (denote (running y ! i) ?\<sigma>)"
  let ?y' = "y\<lparr>store := committed (snd (denote (running y ! i) ?\<sigma>)), writer := None, running := (running y)[i := Finish ?r]\<rparr>"
  from advance_alone [OF assms, of ?\<sigma>] obtain n where "(advance i ^^ n) y = ?y'" by auto
  then have "interleaved y ?y'" using interleaved_funpow [where y = y and i = i and n = n] by simp
  then show ?thesis by (intro exI [of _ ?y'] exI [of _ ?r]) simp
qed

lemma first_answered:
  assumes "writer y = None" "n \<le> length (running y)"
  shows "\<exists>y'. interleaved y y' \<and> writer y' = None \<and> length (running y') = length (running y) \<and>
    (\<forall>i < n. \<exists>r. running y' ! i = Finish r)"
  using assms(2)
proof (induction n)
  case 0
  with assms(1) show ?case by (auto intro: interleaved.here)
next
  case (Suc n)
  then obtain y1 where y1: "interleaved y y1" "writer y1 = None" "length (running y1) = length (running y)"
    "\<forall>i < n. \<exists>r. running y1 ! i = Finish r" by auto
  with Suc.prems obtain y2 r where "interleaved y1 y2" "writer y2 = None" "running y2 = (running y1)[n := Finish r]"
    using one_answered [of n y1] by (auto simp: others_write_def)
  with y1 Suc.prems show ?case
    by (intro exI [of _ y2]) (auto simp: nth_list_update less_Suc_eq intro: interleaved_trans)
qed

lemma always_answered:
  assumes "interleaved (all_begin s cs) y"
  shows "\<exists>y' rs. interleaved y y' \<and> running y' = map Finish rs"
proof -
  have "writer_known y" using interleaved_known [OF assms] by (simp add: writer_known_def all_begin_def)
  then have "\<exists>y1. interleaved y y1 \<and> writer y1 = None"
    using one_answered [of "fst (the (writer y))" y]
    by (cases "writer y") (auto simp: writer_known_def others_write_def intro: interleaved.here)
  then obtain y1 where y1: "interleaved y y1" "writer y1 = None" by blast
  then obtain y' where y': "interleaved y1 y'" "\<forall>i < length (running y'). \<exists>r. running y' ! i = Finish r"
    using first_answered [of y1 "length (running y1)"] by auto
  then have "\<forall>c \<in> set (running y'). \<exists>r. c = Finish r" by (auto simp: in_set_conv_nth)
  then have "\<exists>rs. running y' = map Finish rs" by (simp add: ex_map_conv)
  with y1(1) y'(1) show ?thesis by (blast intro: interleaved_trans)
qed

end
