(* ===== verification/Concurrency.thy ===== *)
theory Concurrency
  imports Interleaving SystemAccounts
begin

text \<open>
  The operations that create accounts, move money, decide deposits and submit identity files, as
  scripts whose statements interleave with those of others. \<open>script_of\<close> has the text of each of these
  functions of \<open>api_auth.py\<close>, \<open>wallet_service.py\<close>, \<open>api_admin.py\<close> and \<open>api_kyc.py\<close> a second time,
  statement by statement; \<open>script_is_program\<close> shows that alone it is the program \<open>program_of\<close>, the
  definition of \<open>Auth\<close>, \<open>WalletService\<close>, \<open>Admin\<close> or \<open>Kyc\<close>.
\<close>

section \<open>Scripts of accounts\<close>

definition register_script ::
  "security \<Rightarrow> timestamp \<Rightarrow> nat \<Rightarrow> uuid \<Rightarrow> uuid \<Rightarrow> register_body \<Rightarrow> token_response script" where
  "register_script e now salt i j body =
     (case register_request body of
        None \<Rightarrow> httpS 422 Validation_error
      | Some payload \<Rightarrow>
          bindS (queryS (\<lambda>s. filter (\<lambda>u. u_phone_number u = rb_phone_number payload) (db_users s))) (\<lambda>rows.
          bindS (one_or_noneS rows) (\<lambda>existing.
          if existing \<noteq> None then httpS 400 Numero_deja_enregistre
          else
            let user = new_user now i (rb_phone_number payload)
                  (case rb_full_name payload of None \<Rightarrow> ''Utilisateur'' | Some n \<Rightarrow> if n = [] then ''Utilisateur'' else n)
                  (hash_pin e salt (rb_pin_code payload)) USER in
            bindS (execS (users_insert user)) (\<lambda>_.
            bindS (execS (wallets_insert (new_wallet now j (u_id user)))) (\<lambda>_.
            bindS commitS (\<lambda>_.
            retS \<lparr>access_token_of = create_access_token e now (u_id user) (role_value (u_role user)),
                  token_role = role_value (u_role user)\<rparr>))))))"

definition bootstrap_script ::
  "security \<Rightarrow> timestamp \<Rightarrow> nat \<Rightarrow> uuid \<Rightarrow> uuid \<Rightarrow> string \<Rightarrow> string \<Rightarrow> string \<Rightarrow> token_response script" where
  "bootstrap_script e now salt i j admin_phone admin_pin secret =
     (if secret \<noteq> bootstrap_secret e then httpS 403 Secret_de_bootstrap_invalide
      else
        bindS (queryS (\<lambda>s. filter (\<lambda>u. u_role u = ADMIN) (db_users s))) (\<lambda>rows.
        bindS (one_or_noneS rows) (\<lambda>existing_admin.
        if existing_admin \<noteq> None then httpS 409 Admin_existe_deja
        else
          let admin = new_user now i admin_phone ''Administrateur'' (hash_pin e salt admin_pin) ADMIN in
          bindS (execS (users_insert admin)) (\<lambda>_.
          bindS (execS (wallets_insert (new_wallet now j (u_id admin)))) (\<lambda>_.
          bindS commitS (\<lambda>_.
          retS \<lparr>access_token_of = create_access_token e now (u_id admin) (role_value ADMIN),
                token_role = role_value ADMIN\<rparr>))))))"

section \<open>Scripts of money\<close>

definition declare_script ::
  "timestamp \<Rightarrow> uuid \<Rightarrow> 128 word \<Rightarrow> uuid \<Rightarrow> rat \<Rightarrow> string \<Rightarrow> string \<Rightarrow> string option \<Rightarrow> string
   \<Rightarrow> declared script" where
  "declare_script now i u uid amount provider phone proof via =
     (let reference = generate_reference ''PI'' u; provider_enum = upper provider in
      bindS (execS (\<lambda>s.
        bindE (cast_provider provider_enum) (\<lambda>prov.
        bindE (to_numeric amount) (\<lambda>a.
        ledger_insert_unless_proof
          (pending_payin_row now i reference uid prov a phone proof [(''declared_via'', JStr via)]) s)))) (\<lambda>_.
      bindS (queryS (tx_by_reference reference)) (\<lambda>row.
      bindS commitS (\<lambda>_.
      case row of
        None \<Rightarrow>
          bindS (statementS (\<lambda>s. bindE (cast_provider provider_enum) (\<lambda>prov.
            Inr (find (same_proof prov proof) (db_ledger s), s)))) (\<lambda>existing.
          retS \<lparr>dp_success = False, dp_message = Doublon_detecte,
                dp_reference = map_option t_reference existing,
                dp_transaction_id = map_option t_id existing\<rparr>)
      | Some r \<Rightarrow>
          retS \<lparr>dp_success = True, dp_message = Declaration_enregistree,
                dp_reference = Some (t_reference r), dp_transaction_id = Some (t_id r)\<rparr>))))"

definition finalize_script :: "timestamp \<Rightarrow> string \<Rightarrow> string option \<Rightarrow> rat option \<Rightarrow> payin_reply script" where
  "finalize_script now ref proof confirmed =
     bindS (statementS (process_payin_credit now ref proof confirmed)) (\<lambda>r.
     bindS commitS (\<lambda>_. retS r))"

definition payout_script ::
  "timestamp \<Rightarrow> uuid \<Rightarrow> 128 word \<Rightarrow> uuid \<Rightarrow> rat \<Rightarrow> string \<Rightarrow> string \<Rightarrow> payout_reply script" where
  "payout_script now i u uid amount provider phone =
     (let reference = generate_reference ''PO'' u in
      bindS (statementS (\<lambda>s. bindE (cast_provider (upper provider)) (\<lambda>prov.
        process_payout_deduction now i uid amount reference prov phone s))) (\<lambda>r.
      bindS commitS (\<lambda>_. retS r)))"

definition review_script ::
  "timestamp \<Rightarrow> uuid \<Rightarrow> uuid \<Rightarrow> string \<Rightarrow> string option \<Rightarrow> uuid \<Rightarrow> string option \<Rightarrow> review_reply script" where
  "review_script now i tid action proof admin ip =
     bindS (statementS (sql_admin_process_payout now i tid action proof admin)) (\<lambda>payload.
     bindS commitS (\<lambda>_.
     if ip \<noteq> None \<and> ip \<noteq> Some []
     then bindS (execS (audit_set_ip admin tid (the ip))) (\<lambda>_. bindS commitS (\<lambda>_. retS payload))
     else retS payload))"

definition fee_script :: "decimal script" where
  "fee_script =
     bindS (queryS (setting ''fee_percent'')) (\<lambda>row.
     case row of
       None \<Rightarrow> retS (Dec 8 0)
     | Some v \<Rightarrow> (case dec_parse v of None \<Rightarrow> failS Invalid_operation | Some d \<Rightarrow> retS d))"

definition set_fee_script :: "timestamp \<Rightarrow> decimal \<Rightarrow> unit script" where
  "set_fee_script now percent =
     bindS (execS (settings_upsert now ''fee_percent'' (dec_str percent))) (\<lambda>_. commitS)"

definition transfer_script ::
  "timestamp \<Rightarrow> uuid \<Rightarrow> uuid \<Rightarrow> 128 word \<Rightarrow> 128 word \<Rightarrow> uuid \<Rightarrow> rat \<Rightarrow> string \<Rightarrow> transfer_reply script" where
  "transfer_script now i1 i2 u1 u2 sender amount phone =
     (let sender_reference = generate_reference ''IT'' u1;
          recipient_reference = generate_reference ''IT'' u2 in
      bindS fee_script (\<lambda>fee_percent.
      bindS (statementS (process_internal_transfer now i1 i2 sender amount phone
               sender_reference recipient_reference (dec_val fee_percent))) (\<lambda>r.
      bindS commitS (\<lambda>_. retS r))))"

definition manual_credit_script ::
  "timestamp \<Rightarrow> uuid \<Rightarrow> 128 word \<Rightarrow> uuid \<Rightarrow> rat \<Rightarrow> string \<Rightarrow> uuid \<Rightarrow> credit_reply script" where
  "manual_credit_script now i u uid amount reason admin =
     (if amount \<le> 0 then retS (Credit_refused Montant_non_positif)
      else
        let reference = generate_reference ''MC'' u in
        bindS (statementS (\<lambda>s. bindE (wallets_update uid amount now s) (\<lambda>s'. Inr (wallet_of uid s', s')))) (\<lambda>row.
        case row of
          None \<Rightarrow> retS (Credit_refused Portefeuille_introuvable)
        | Some w \<Rightarrow>
            bindS (execS (\<lambda>s. bindE (to_numeric amount) (\<lambda>a.
              ledger_insert (manual_credit_row now i reference uid a reason admin) s))) (\<lambda>_.
            bindS commitS (\<lambda>_.
            retS (Credit_done Compte_recharge reference (w_balance w))))))"

section \<open>Scripts of routes\<close>

text \<open>\<open>process_payin_route\<close>, \<open>submit_kyc\<close>, \<open>update_me\<close> and \<open>set_payment_links\<close>.\<close>

definition process_payin_script ::
  "timestamp \<Rightarrow> user_row \<Rightarrow> uuid \<Rightarrow> string \<Rightarrow> string option \<Rightarrow> (payin_decision \<times> tasks) script" where
  "process_payin_script now admin tid action proof =
     (if upper action \<notin> {''APPROVE'', ''REJECT''} then httpS 400 Action_invalide
      else if upper action = ''REJECT'' then
        (let hit = (\<lambda>t. t_id t = tid \<and> t_status t = PENDING \<and> t_type t = PAY_IN) in
         bindS (statementS (\<lambda>s. bindE (ledger_update hit (mark_failed now) s) (\<lambda>s'. Inr (find hit (db_ledger s), s')))) (\<lambda>row.
         bindS commitS (\<lambda>_.
         case row of
           None \<Rightarrow> httpS 404 Depot_introuvable_ou_deja_traite
         | Some t \<Rightarrow> retS (Payin_rejected (t_reference t), []))))
      else
        bindS (queryS (\<lambda>s. find (\<lambda>t. t_id t = tid \<and> t_type t = PAY_IN) (db_ledger s))) (\<lambda>tx_row.
        case tx_row of
          None \<Rightarrow> httpS 404 Depot_introuvable
        | Some t \<Rightarrow>
            bindS (finalize_script now (t_reference t)
                (Some (case proof of None \<Rightarrow> manual_proof admin | Some p \<Rightarrow> if p = [] then manual_proof admin else p))
                (Some (cents (t_amount t)))) (\<lambda>result.
            case result of
              Payin_refused m \<Rightarrow> httpS 400 (Of_service m)
            | Payin_credited x a b \<Rightarrow>
                retS (Payin_finalized result,
                  [(t_user_id t, \<lparr>n_title = Wallet_recharge, n_body = Ajoute (cents (t_amount t)),
                     n_data = [(''type'', DStr ''wallet_credited''), (''reference'', DStr (t_reference t))]\<rparr>)]))))"

definition submit_kyc_script ::
  "nat \<Rightarrow> timestamp \<Rightarrow> uuid \<Rightarrow> user_row \<Rightarrow> string \<Rightarrow> string option \<Rightarrow> unit script" where
  "submit_kyc_script mx now i user doc selfie =
     (if length doc < 10 then httpS 422 Validation_error
      else if mx < length doc \<or> (\<exists>x \<in> set_option selfie. mx < length x)
      then httpS 413 Image_trop_volumineuse
      else
        bindS (queryS (\<lambda>s. filter (\<lambda>k. k_user_id k = u_id user \<and> k_status k \<in> {KYC_PENDING, KYC_APPROVED}) (db_kyc s))) (\<lambda>rows.
        bindS (one_or_noneS rows) (\<lambda>existing.
        case existing of
          Some k \<Rightarrow> httpS 409 (Dossier_kyc_deja (k_status k))
        | None \<Rightarrow>
            bindS (execS (kyc_insert (new_submission now i (u_id user) doc selfie))) (\<lambda>_.
            commitS))))"

definition refreshed_script :: "uuid \<Rightarrow> user_row script" where
  "refreshed_script uid =
     bindS (queryS (\<lambda>s. find (\<lambda>u. u_id u = uid) (db_users s))) (\<lambda>row.
     case row of None \<Rightarrow> failS Other_exception | Some u \<Rightarrow> retS u)"

definition update_me_script :: "timestamp \<Rightarrow> user_row \<Rightarrow> string option \<Rightarrow> me_response script" where
  "update_me_script now user full_name =
     bindS (case full_name of
         None \<Rightarrow> retS ()
       | Some name \<Rightarrow>
           let cleaned = strip name in
           if cleaned = [] then httpS 400 Nom_vide
           else if cleaned = u_full_name user then retS ()
           else execS (users_update (u_id user) (\<lambda>r. r\<lparr>u_full_name := cleaned, u_updated_at := now\<rparr>))) (\<lambda>_.
     bindS commitS (\<lambda>_.
     bindS (refreshed_script (u_id user)) (\<lambda>u. retS (get_me u))))"

fun links_loop_script :: "timestamp \<Rightarrow> (string \<times> string option) list \<Rightarrow> unit script" where
  "links_loop_script now [] = retS ()"
| "links_loop_script now ((name, v) # links) =
     (case map_of PAYMENT_LINK_KEYS name of
        None \<Rightarrow> links_loop_script now links
      | Some k \<Rightarrow>
          (case v of None \<Rightarrow> links_loop_script now links
           | Some x \<Rightarrow> bindS (execS (settings_upsert now k x)) (\<lambda>_. links_loop_script now links)))"

definition set_links_script :: "timestamp \<Rightarrow> (string \<times> string option) list \<Rightarrow> unit script" where
  "set_links_script now links = bindS (links_loop_script now links) (\<lambda>_. commitS)"

section \<open>Operations\<close>

datatype operation =
    Registering draws register_body
  | Bootstrapping draws string string string
  | Declaring draws uuid rat string string "string option" string
  | Finalizing draws string "string option" "rat option"
  | Withdrawing draws uuid rat string string
  | Reviewing draws uuid string "string option" uuid "string option"
  | Transferring draws uuid rat string
  | Crediting draws uuid rat string uuid
  | Setting_fee draws decimal
  | Deciding_payin draws user_row uuid string "string option"
  | Submitting draws nat user_row string "string option"
  | Renaming draws user_row "string option"
  | Linking draws "(string \<times> string option) list"

datatype outcome =
    O_token token_response
  | O_declared declared
  | O_payin payin_reply
  | O_payout payout_reply
  | O_review review_reply
  | O_transfer transfer_reply
  | O_credit credit_reply
  | O_decided "payin_decision \<times> tasks"
  | O_me me_response
  | O_set

definition mapS :: "('a \<Rightarrow> 'b) \<Rightarrow> 'a script \<Rightarrow> 'b script" where
  "mapS f c = bindS c (\<lambda>x. retS (f x))"

fun script_of :: "security \<Rightarrow> operation \<Rightarrow> outcome script" where
  "script_of e (Registering d b) = mapS O_token (register_script e (dr_now d) (dr_salt d) (dr_id1 d) (dr_id2 d) b)"
| "script_of e (Bootstrapping d ph pin sec) =
     mapS O_token (bootstrap_script e (dr_now d) (dr_salt d) (dr_id1 d) (dr_id2 d) ph pin sec)"
| "script_of e (Declaring d uid a prov ph proof via) =
     mapS O_declared (declare_script (dr_now d) (dr_id1 d) (dr_uuid1 d) uid a prov ph proof via)"
| "script_of e (Finalizing d ref proof confirmed) = mapS O_payin (finalize_script (dr_now d) ref proof confirmed)"
| "script_of e (Withdrawing d uid a prov ph) =
     mapS O_payout (payout_script (dr_now d) (dr_id1 d) (dr_uuid1 d) uid a prov ph)"
| "script_of e (Reviewing d tid act proof admin ip) =
     mapS O_review (review_script (dr_now d) (dr_id1 d) tid act proof admin ip)"
| "script_of e (Transferring d sender a ph) =
     mapS O_transfer (transfer_script (dr_now d) (dr_id1 d) (dr_id2 d) (dr_uuid1 d) (dr_uuid2 d) sender a ph)"
| "script_of e (Crediting d uid a reason admin) =
     mapS O_credit (manual_credit_script (dr_now d) (dr_id1 d) (dr_uuid1 d) uid a reason admin)"
| "script_of e (Setting_fee d p) = mapS (\<lambda>_. O_set) (set_fee_script (dr_now d) p)"
| "script_of e (Deciding_payin d admin tid act proof) =
     mapS O_decided (process_payin_script (dr_now d) admin tid act proof)"
| "script_of e (Submitting d mx user doc selfie) =
     mapS (\<lambda>_. O_set) (submit_kyc_script mx (dr_now d) (dr_id1 d) user doc selfie)"
| "script_of e (Renaming d user name) = mapS O_me (update_me_script (dr_now d) user name)"
| "script_of e (Linking d links) = mapS (\<lambda>_. O_set) (set_links_script (dr_now d) links)"

fun program_of :: "security \<Rightarrow> operation \<Rightarrow> outcome prog" where
  "program_of e (Registering d b) =
     bindP (register e (dr_now d) (dr_salt d) (dr_id1 d) (dr_id2 d) b) (\<lambda>x. ret (O_token x))"
| "program_of e (Bootstrapping d ph pin sec) =
     bindP (bootstrap_admin e (dr_now d) (dr_salt d) (dr_id1 d) (dr_id2 d) ph pin sec) (\<lambda>x. ret (O_token x))"
| "program_of e (Declaring d uid a prov ph proof via) =
     bindP (declare_payin_pending (dr_now d) (dr_id1 d) (dr_uuid1 d) uid a prov ph proof via) (\<lambda>x. ret (O_declared x))"
| "program_of e (Finalizing d ref proof confirmed) =
     bindP (finalize_payin (dr_now d) ref proof confirmed) (\<lambda>x. ret (O_payin x))"
| "program_of e (Withdrawing d uid a prov ph) =
     bindP (request_payout (dr_now d) (dr_id1 d) (dr_uuid1 d) uid a prov ph) (\<lambda>x. ret (O_payout x))"
| "program_of e (Reviewing d tid act proof admin ip) =
     bindP (admin_process_payout (dr_now d) (dr_id1 d) tid act proof admin ip) (\<lambda>x. ret (O_review x))"
| "program_of e (Transferring d sender a ph) =
     bindP (transfer_internal (dr_now d) (dr_id1 d) (dr_id2 d) (dr_uuid1 d) (dr_uuid2 d) sender a ph) (\<lambda>x. ret (O_transfer x))"
| "program_of e (Crediting d uid a reason admin) =
     bindP (admin_manual_credit (dr_now d) (dr_id1 d) (dr_uuid1 d) uid a reason admin) (\<lambda>x. ret (O_credit x))"
| "program_of e (Setting_fee d p) = bindP (set_fee_percent (dr_now d) p) (\<lambda>_. ret O_set)"
| "program_of e (Deciding_payin d admin tid act proof) =
     bindP (process_payin_route (dr_now d) admin tid act proof) (\<lambda>x. ret (O_decided x))"
| "program_of e (Submitting d mx user doc selfie) =
     bindP (submit_kyc mx (dr_now d) (dr_id1 d) user doc selfie) (\<lambda>_. ret O_set)"
| "program_of e (Renaming d user name) = bindP (update_me (dr_now d) user name) (\<lambda>x. ret (O_me x))"
| "program_of e (Linking d links) = bindP (set_payment_links (dr_now d) links) (\<lambda>_. ret O_set)"

lemma denote_cases:
  "denote (if b then p else q) = (if b then denote p else denote q)"
  "denote (case ov of None \<Rightarrow> p | Some x \<Rightarrow> fo x) = (case ov of None \<Rightarrow> denote p | Some x \<Rightarrow> denote (fo x))"
  "denote (case pr of Payin_refused m \<Rightarrow> fr m | Payin_credited x a b \<Rightarrow> fc x a b) =
     (case pr of Payin_refused m \<Rightarrow> denote (fr m) | Payin_credited x a b \<Rightarrow> denote (fc x a b))"
  by (auto split: option.splits payin_reply.splits)

lemma denote_links: "denote (links_loop_script now links) = set_payment_links_loop now links"
  by (induction now links rule: links_loop_script.induct) (auto simp: denote_simps denote_cases split: option.splits)

lemma script_is_program: "denote (script_of e op) = program_of e op"
proof (cases op)
  case (Transferring d sender a ph)
  have "denote fee_script = get_fee_percent"
    by (simp add: fee_script_def get_fee_percent_def denote_simps denote_cases cong: option.case_cong)
  with Transferring show ?thesis
    by (simp add: mapS_def transfer_script_def transfer_internal_def denote_simps)
next
  case (Renaming d user name)
  have "denote (refreshed_script uid) = refreshed uid" for uid
    by (simp add: refreshed_script_def refreshed_def denote_simps denote_cases cong: option.case_cong)
  with Renaming show ?thesis
    by (simp add: mapS_def update_me_script_def update_me_def denote_simps denote_cases Let_def cong: option.case_cong if_cong)
qed (simp_all add: mapS_def denote_simps denote_cases Let_def cong: option.case_cong if_cong payin_reply.case_cong
    add: register_script_def register_def bootstrap_script_def bootstrap_admin_def declare_script_def
      declare_payin_pending_def finalize_script_def finalize_payin_def payout_script_def request_payout_def
      review_script_def admin_process_payout_def manual_credit_script_def admin_manual_credit_def
      set_fee_script_def set_fee_percent_def process_payin_script_def process_payin_route_def submit_kyc_script_def
      submit_kyc_def set_links_script_def set_payment_links_def denote_links)

section \<open>What every statement keeps\<close>

text \<open>
  The rows of the ledger are labelled: those whose reference begins with PI- or MC- are the deposits
  and manual credits, and those with an id in \<open>R\<close>, the ones that are reviewed as withdrawals, are
  withdrawals.
\<close>

definition payin_reference :: "string \<Rightarrow> bool" where
  "payin_reference ref \<longleftrightarrow> starts_with ''PI-'' ref \<or> starts_with ''MC-'' ref"

definition labelled :: "uuid set \<Rightarrow> ledger_row list \<Rightarrow> bool" where
  "labelled R ts \<longleftrightarrow> (\<forall>t \<in> set ts. (t_id t \<in> R \<longrightarrow> t_type t = PAY_OUT) \<and>
     payin_reference (t_reference t) = (t_type t = PAY_IN))"

definition good :: "uuid set \<Rightarrow> db \<Rightarrow> bool" where
  "good R s \<longleftrightarrow> sound s \<and> labelled R (db_ledger s)"

lemma labelled_append [simp]: "labelled R (ts @ ts') = (labelled R ts \<and> labelled R ts')"
  by (auto simp: labelled_def)

lemma labelled_Cons [simp]:
  "labelled R [] = True" "labelled R (t # ts) = ((t_id t \<in> R \<longrightarrow> t_type t = PAY_OUT) \<and>
     payin_reference (t_reference t) = (t_type t = PAY_IN) \<and> labelled R ts)"
  by (auto simp: labelled_def)

lemma labelled_update:
  "labelled R ts \<Longrightarrow> (\<And>t. t_id (f t) = t_id t \<and> t_type (f t) = t_type t \<and> t_reference (f t) = t_reference t) \<Longrightarrow>
   labelled R (update_where P f ts)"
  by (induction ts) auto

lemma payin_reference_simps [simp]:
  "payin_reference (generate_reference ''PI'' u)" "payin_reference (generate_reference ''MC'' u)"
  "payin_reference (generate_reference ''PO'' u) = False" "payin_reference (generate_reference ''IT'' u) = False"
  by (simp_all add: payin_reference_def generate_reference_def starts_with_def)

lemma good_credit:
  assumes g: "good R s" and ref: "payin_reference ref" and run: "process_payin_credit now ref proof conf s = Inr (r, s')"
  shows "good R s'"
proof -
  have so: "sound s" and la: "labelled R (db_ledger s)" using g by (simp_all add: good_def)
  have "proper (Credit_payin ref proof conf) s"
    using la ref by (auto simp: labelled_def dest!: tx_by_reference_SomeD split: option.splits)
  then have "books_balance (\<lambda>_. 0) s'"
    using books_credit [OF _ _ _ run] so by (simp add: sound_def)
  moreover have "db_settings s' = db_settings s" "labelled R (db_ledger s')"
    using run la by (cases rule: payin_credit_cases; auto intro!: labelled_update)+
  ultimately show ?thesis
    using so payin_credit_wf [OF _ run] fee_cong [of s' s] by (simp add: good_def sound_def)
qed

lemma good_deduct:
  assumes g: "good R s" and a: "0 < a" "100 * a \<noteq> of_int \<lfloor>100 * a\<rfloor> + 1/2"
    and run: "process_payout_deduction now i u a (generate_reference ''PO'' x) prov ph s = Inr (r, s')"
  shows "good R s'"
proof -
  have "labelled R (db_ledger s')"
    using run g by (cases rule: payout_deduction_cases) (auto simp: good_def)
  then show ?thesis using sound_deduct [OF _ a run] g by (simp add: good_def)
qed

lemma good_review:
  assumes g: "good R s" and tid: "tid \<in> R" and run: "sql_admin_process_payout now i tid act proof adm s = Inr (r, s')"
  shows "good R s'"
proof -
  have so: "sound s" and la: "labelled R (db_ledger s)" using g by (simp_all add: good_def)
  have "proper (Review_payout i tid act proof adm) s"
    using la tid by (auto simp: labelled_def dest!: tx_by_id_SomeD split: option.splits)
  then have "books_balance (\<lambda>_. 0) s'"
    using books_review [OF _ _ _ run] so by (simp add: sound_def)
  moreover have "db_settings s' = db_settings s" "labelled R (db_ledger s')"
    using run la by (cases rule: admin_review_cases; auto intro!: labelled_update)+
  ultimately show ?thesis
    using so admin_review_wf [OF _ run] fee_cong [of s' s] by (simp add: good_def sound_def)
qed

lemma good_transfer:
  assumes g: "good R s" and pct: "0 \<le> pct" and fresh: "i1 \<notin> R" "i2 \<notin> R"
    and run: "process_internal_transfer now i1 i2 u a ph (generate_reference ''IT'' x1) (generate_reference ''IT'' x2) pct s = Inr (r, s')"
  shows "good R s'"
proof -
  have so: "sound s" and la: "labelled R (db_ledger s)" using g by (simp_all add: good_def)
  have "db_settings s' = db_settings s" "labelled R (db_ledger s')"
    using run la fresh by (cases rule: internal_transfer_cases; auto)+
  then show ?thesis
    using so books_transfer [OF _ _ pct run, of "\<lambda>_. 0"] internal_transfer_wf [OF _ run] fee_cong [of s' s]
    by (simp add: good_def sound_def)
qed

lemma good_declare:
  assumes "good R s" "ledger_insert_unless_proof (pending_payin_row now i (generate_reference ''PI'' x) uid prov a ph proof m) s = Inr s'" "i \<notin> R"
  shows "good R s'"
proof (cases "s' = s")
  case False
  then have ins: "ledger_insert (pending_payin_row now i (generate_reference ''PI'' x) uid prov a ph proof m) s = Inr s'"
    using assms(2) by (auto simp: insert_unless_proof_Inr split: if_splits)
  moreover have "sound s'" using sound_declare [OF _ ins] assms(1) by (simp add: good_def)
  ultimately show ?thesis
    using assms(1,3) by (auto simp: good_def ledger_insert_Inr pending_payin_row_def)
qed (use assms in simp)

lemma good_manual_credit:
  assumes g: "good R s" and i: "i \<notin> R" and a: "\<not> a \<le> 0"
    and run: "wallets_update uid a now s = Inr s1" "wallet_of uid s1 = Some w" "to_numeric a = Inr c"
      "ledger_insert (manual_credit_row now i (generate_reference ''MC'' u) uid c reason admin) s1 = Inr s2"
  shows "good R s2"
proof -
  have "request (admin_manual_credit now i u uid a reason admin) s =
      (Inr (Credit_done Compte_recharge (generate_reference ''MC'' u) (w_balance w)), s2)"
    using run a by (simp add: request_def admin_manual_credit_def Let_def bindP_def statement_def exec_def commit_def ret_def)
  from sound_manual_credit [OF _ this] g have "sound s2" by (simp add: good_def)
  moreover have "db_ledger s2 = db_ledger s @ [manual_credit_row now i (generate_reference ''MC'' u) uid c reason admin]"
    using run by (auto simp: ledger_insert_Inr wallets_update_Inr)
  ultimately show ?thesis
    using g i by (auto simp: good_def manual_credit_row_def)
qed

lemma good_new_account:
  assumes g: "good R s"
    and run: "users_insert (new_user n i ph nm h ro) s = Inr s1" "wallets_insert (new_wallet now j i) s1 = Inr s2"
  shows "good R s2"
proof -
  have wf: "wf_db s2"
    using g wf_wallets_insert [OF wf_users_insert [OF _ run(1)] run(2)] by (simp add: good_def sound_def)
  have "sound s2"
    by (rule sound_new_account [OF _ wf, of s i now j])
       (use g run in \<open>auto simp: good_def users_insert_Inr wallets_insert_Inr\<close>)
  with g run show ?thesis by (auto simp: good_def users_insert_Inr wallets_insert_Inr)
qed

lemma good_set_fee: "good R s \<Longrightarrow> 0 \<le> dec_val p \<Longrightarrow> good R (put_setting now ''fee_percent'' (dec_str p) s)"
  by (simp add: good_def sound_put_fee)

lemma good_audit_ip: "good R s \<Longrightarrow> audit_set_ip adm tid ip s = Inr s' \<Longrightarrow> good R s'"
  using sound_frame [of s s'] wf_audit_set_ip [of s adm tid ip s']
  by (auto simp: good_def sound_def audit_set_ip_def Let_def split: if_splits)

lemma good_mark_failed:
  assumes g: "good R s" and run: "ledger_update (\<lambda>t. t_id t = tid \<and> t_status t = PENDING \<and> t_type t = PAY_IN) (mark_failed now) s = Inr s'"
  shows "good R s'"
proof -
  let ?hit = "\<lambda>t. t_id t = tid \<and> t_status t = PENDING \<and> t_type t = PAY_IN"
  have s': "s' = s\<lparr>db_ledger := update_where ?hit (mark_failed now) (db_ledger s)\<rparr>"
    using run by (simp add: ledger_update_Inr)
  have "owned u (update_where ?hit (mark_failed now) ts) = owned u ts" for u ts
    by (induction ts) (auto simp: mark_failed_def tx_effect_def)
  with s' g wf_mark_failed [OF _ run] fee_cong [of s' s] show ?thesis
    by (auto simp: good_def sound_def books_balance_def mark_failed_def intro!: labelled_update)
qed

lemma good_elsewhere:
  assumes "good R s" "wf_db s'" "elsewhere s s'"
  shows "good R s'"
  using assms sound_frame [of s s'] by (auto simp: good_def elsewhere_def)

lemma good_kyc_insert: "good R s \<Longrightarrow> kyc_insert k s = Inr s' \<Longrightarrow> good R s'"
  by (rule good_elsewhere) (auto simp: good_def sound_def elsewhere_def kyc_insert_Inr intro: wf_kyc_statements)

lemma good_rename:
  "good R s \<Longrightarrow> users_update uid (\<lambda>r. r\<lparr>u_full_name := n, u_updated_at := now\<rparr>) s = Inr s' \<Longrightarrow> good R s'"
  by (rule good_elsewhere, assumption, rule wf_users_update [where s = s], simp add: good_def sound_def, assumption)
     (auto simp: elsewhere_def dest!: users_update_Inr)

lemma good_put_link: "good R s \<Longrightarrow> map_of PAYMENT_LINK_KEYS name = Some k \<Longrightarrow> good R (put_setting now k x s)"
  using sound_put_setting [of s k now x]
  by (auto simp: good_def PAYMENT_LINK_KEYS_def split: if_splits)

section \<open>The books under interleaving\<close>

text \<open>
  What the schemas and the routes check before an operation is called (positive amounts, a fee
  that is not negative, a confirmation names a deposit), the two exceptions of \<open>proper_call\<close>, and
  ids that are drawn anew.
\<close>

fun op_ok :: "uuid set \<Rightarrow> operation \<Rightarrow> bool" where
  "op_ok R (Declaring d uid a prov ph proof via) = (dr_id1 d \<notin> R)"
| "op_ok R (Finalizing d ref proof conf) = payin_reference ref"
| "op_ok R (Withdrawing d uid a prov ph) = (0 < a \<and> 100 * a \<noteq> of_int \<lfloor>100 * a\<rfloor> + 1/2)"
| "op_ok R (Reviewing d tid act proof adm ip) = (tid \<in> R)"
| "op_ok R (Transferring d sender a ph) = (dr_id1 d \<notin> R \<and> dr_id2 d \<notin> R)"
| "op_ok R (Crediting d uid a reason adm) = (dr_id1 d \<notin> R)"
| "op_ok R (Setting_fee d p) = (0 \<le> dec_val p)"
| "op_ok R _ = True"

lemma keeping_fee_script:
  assumes "\<And>d. 0 \<le> dec_val d \<Longrightarrow> keeping (good R) (k d)"
  shows "keeping (good R) (bindS fee_script k)"
  unfolding fee_script_def bindS_assoc
proof (rule keeping_bind_reads)
  fix s assume "good R s"
  then have fee: "fee_ok s" by (simp add: good_def sound_def)
  have "0 \<le> dec_val d" if "setting ''fee_percent'' s = Some v" "dec_parse v = Some d" for v d
    using fee that by (simp add: fee_ok_def configured_fee_def)
  then show "keeping (good R) (bindS (case setting ''fee_percent'' s of None \<Rightarrow> retS (Dec 8 0)
      | Some v \<Rightarrow> (case dec_parse v of None \<Rightarrow> failS Invalid_operation | Some d \<Rightarrow> retS d)) k)"
    using assms [of "Dec 8 0"] assms
    by (auto simp: retS_def failS_def dec_val_def split: option.splits intro: script_intros)
qed

lemma keeping_links:
  assumes "keeping (good R) (k ())" "\<And>w. good R w \<Longrightarrow> pending (good R) (k ()) w"
  shows "keeping (good R) (bindS (links_loop_script now links) k) \<and>
    (good R w \<longrightarrow> pending (good R) (bindS (links_loop_script now links) k) w)"
  using assms
proof (induction now links arbitrary: w rule: links_loop_script.induct)
  case (2 now name v links)
  show ?case
  proof (cases "map_of PAYMENT_LINK_KEYS name = None \<or> v = None")
    case True
    then show ?thesis using 2 by (auto split: option.splits)
  next
    case False
    then obtain key x where kx: "map_of PAYMENT_LINK_KEYS name = Some key" "v = Some x" by auto
    have more: "pending (good R) (bindS (links_loop_script now links) k) w" if "good R w" for w
      using 2(3) [OF kx 2(4,5), of w] that by simp
    with kx show ?thesis
      by (simp add: bindS_assoc)
         (auto simp: settings_upsert_total intro!: script_intros more good_put_link [OF _ kx(1)])
  qed
qed (auto intro: script_intros)

lemma keeping_operation:
  assumes "op_ok R op"
  shows "keeping (good R) (script_of e op)"
proof (cases op)
  case (Registering d b)
  show ?thesis
    unfolding Registering script_of.simps mapS_def register_script_def Let_def
    by (cases "register_request b")
       (auto simp: bindS_assoc bindS_cases intro!: script_intros intro: good_new_account split: if_splits option.splits)
next
  case (Transferring d sender a ph)
  with assms show ?thesis
    unfolding Transferring script_of.simps mapS_def transfer_script_def Let_def bindS_assoc bindS_cases
    by (auto intro!: keeping_fee_script script_intros intro: good_transfer)
next
  case (Declaring d uid a prov ph pf via)
  with assms show ?thesis
    unfolding Declaring script_of.simps mapS_def declare_script_def Let_def bindS_assoc bindS_cases
    by (auto simp: outcome_simps intro!: script_intros intro: good_declare)
next
  case (Reviewing d tid act pf adm ip)
  with assms show ?thesis
    unfolding Reviewing script_of.simps mapS_def review_script_def Let_def bindS_assoc bindS_cases
    by (auto intro!: script_intros intro: good_review good_audit_ip)
next
  case (Crediting d uid a reason adm)
  with assms show ?thesis
    unfolding Crediting script_of.simps mapS_def manual_credit_script_def Let_def bindS_assoc bindS_cases
    by (auto simp: outcome_simps intro!: script_intros) (rule good_manual_credit; assumption)
next
  case (Deciding_payin d admin tid act pf)
  have "payin_reference (t_reference t)" if "good R s" "find (\<lambda>t. t_id t = tid \<and> t_type t = PAY_IN) (db_ledger s) = Some t" for s t
    using that by (auto simp: good_def labelled_def find_Some_iff)
  then show ?thesis
    unfolding Deciding_payin script_of.simps mapS_def process_payin_script_def finalize_script_def Let_def bindS_assoc bindS_cases
    by (auto simp: outcome_simps split: payin_reply.splits intro!: script_intros intro: good_mark_failed good_credit)
next
  case (Submitting d mx user doc selfie)
  show ?thesis
    unfolding Submitting script_of.simps mapS_def submit_kyc_script_def bindS_assoc bindS_cases
    by (auto intro!: script_intros intro: good_kyc_insert)
next
  case (Renaming d user name)
  show ?thesis
    unfolding Renaming script_of.simps mapS_def update_me_script_def refreshed_script_def Let_def bindS_assoc bindS_cases
    by (auto intro!: script_intros intro: good_rename)
next
  case (Linking d links)
  show ?thesis
    unfolding Linking script_of.simps mapS_def set_links_script_def bindS_assoc
    by (rule keeping_links [THEN conjunct1]) (auto intro!: script_intros)
qed (use assms in \<open>auto simp: mapS_def bootstrap_script_def finalize_script_def payout_script_def set_fee_script_def Let_def bindS_assoc bindS_cases outcome_simps settings_upsert_total
    intro!: script_intros intro: good_new_account good_credit good_deduct good_set_fee\<close>)

lemma operations_well:
  "good R s \<Longrightarrow> list_all (op_ok R) ops \<Longrightarrow> running_well (good R) (all_begin s (map (script_of e) ops))"
  by (rule running_well_begin) (auto simp: list_all_iff intro: keeping_operation)

lemma good_balances:
  assumes "good R s"
  shows "wf_db s \<and> (\<forall>u b. balance s u = Some b \<longrightarrow> b = owned u (db_ledger s) \<and> 0 \<le> b)"
proof -
  have "sound s" using assms by (simp add: good_def)
  moreover from this have "\<forall>w \<in> set (db_wallets s). 0 \<le> w_balance w"
    by (auto simp: sound_def wf_db_def wf_wallets_def list_all_iff)
  ultimately show ?thesis
    by (auto simp: sound_def books_balance_def balance_def balance_in_def find_Some_iff)
qed

text \<open>The books balance however requests interleave. Any number of registrations, renamings,
  declarations, confirmations, approvals and rejections of deposits, withdrawals, reviews, transfers, manual credits,
  changes of the settings and submissions of identity files run at the same time, each stopped between any two of its statements: whatever is committed at any
  moment satisfies the constraints of the schema, every wallet holds exactly what the ledger says, and
  none is overdrawn. (Withdrawals have no half cents, and what is reviewed is a withdrawal: \<open>op_ok\<close>.)\<close>

theorem interleaved_books_balance:
  assumes "interleaved (all_begin s (map (script_of e) ops)) y"
    and "sound s" "labelled R (db_ledger s)" "list_all (op_ok R) ops"
  shows "wf_db (store y) \<and>
    (\<forall>u b. balance (store y) u = Some b \<longrightarrow> b = owned u (db_ledger (store y)) \<and> 0 \<le> b)"
proof -
  have "good R s" using assms(2,3) by (simp add: good_def)
  from interleaved_keeps [OF assms(1) operations_well [OF this assms(4)]]
  have "good R (store y)" by (simp add: running_well_def)
  then show ?thesis by (rule good_balances)
qed

definition waiting_db :: db where
  "waiting_db = sample_db\<lparr>db_wallets := [sample_wallet 1 0, sample_wallet 2 0],
     db_ledger := [sample_tx 100 ''PI-1'' 1 PAY_IN ORANGE 5000 None]\<rparr>"

definition sample_draw :: "nat \<Rightarrow> draws" where
  "sample_draw n = \<lparr>dr_now = 10 * n, dr_salt = n, dr_id1 = 200 * n, dr_id2 = 200 * n + 1,
     dr_uuid1 = 0, dr_uuid2 = 79228162514264337593543950336\<rparr>"

text \<open>The deposit is confirmed twice at the same time, and the client withdraws meanwhile.\<close>

definition busy_operations :: "operation list" where
  "busy_operations =
     [Finalizing (sample_draw 1) ''PI-1'' (Some ''OM1'') None, Finalizing (sample_draw 2) ''PI-1'' (Some ''OM1'') None,
      Withdrawing (sample_draw 3) 1 30 ''wave'' ''0701'', Withdrawing (sample_draw 4) 1 30 ''wave'' ''0701'']"

lemma sound_waiting_db: "sound waiting_db"
proof -
  have "wf_db waiting_db" "configured_fee waiting_db = Some (Dec 8 0)" by code_simp+
  then show ?thesis
    by (auto simp: sound_def fee_ok_def dec_val_def books_balance_def balance_def balance_in_def waiting_db_def sample_tx_def
        sample_wallet_def tx_effect_def split: if_splits)
qed

theorem interleaved_books_balance_witness:
  "balance (store (turns [0, 1, 0, 2, 1, 2, 1, 3, 2, 2, 3, 3, 1, 3] (all_begin waiting_db (map (script_of sample_security) busy_operations)))) 1
   = Some 2000"
proof -
  let ?y = "turns [0, 1, 0, 2, 1, 2, 1, 3, 2, 2, 3, 3, 1, 3] (all_begin waiting_db (map (script_of sample_security) busy_operations))"
  have ok: "list_all (op_ok {}) busy_operations"
    by (simp add: busy_operations_def payin_reference_def starts_with_def)
  have lab: "labelled {} (db_ledger waiting_db)"
    by (simp add: waiting_db_def sample_tx_def payin_reference_def starts_with_def)
  have "balance (store ?y) 1 \<noteq> None \<and> owned 1 (db_ledger (store ?y)) = 2000" by code_simp
  with interleaved_books_balance [OF interleaved_turns sound_waiting_db lab ok] show ?thesis by auto
qed

section \<open>What the machine of interleavings contains\<close>

text \<open>One request after the other, each the program of the component theories.\<close>

primrec in_turn :: "security \<Rightarrow> operation list \<Rightarrow> db \<Rightarrow> (exn + outcome) list \<times> db" where
  "in_turn e [] s = ([], s)"
| "in_turn e (op # ops) s =
     (let (r, s') = request (program_of e op) s; (rs, s'') = in_turn e ops s' in (r # rs, s''))"

lemma serially_in_turn: "serially (map (script_of e) ops) s = in_turn e ops s"
  by (induction ops arbitrary: s) (simp_all add: script_is_program)


section \<open>Two administrators\<close>

lemma bootstrap_run:
  assumes "request (bootstrap_admin e now salt i j ph pin sec) s = (Inr tok, s')"
  defines "u \<equiv> new_user now i ph ''Administrateur'' (hash_pin e salt pin) ADMIN"
  shows "sec = bootstrap_secret e" "filter (\<lambda>u. u_role u = ADMIN) (db_users s) = []"
    "users_insert u s = Inr (s\<lparr>db_users := db_users s @ [u]\<rparr>)"
    "wallets_insert (new_wallet now j i) (s\<lparr>db_users := db_users s @ [u]\<rparr>)
     = Inr (s\<lparr>db_users := db_users s @ [u], db_wallets := db_wallets s @ [new_wallet now j i]\<rparr>)"
    "tok = \<lparr>access_token_of = create_access_token e now i (role_value ADMIN), token_role = role_value ADMIN\<rparr>"
  using assms
  by (auto simp: request_def bootstrap_admin_def http_def throw_def bindP_def query_def statement_def exec_def commit_def
      one_or_none_def ret_def Let_def users_insert_Inr wallets_insert_Inr outcome_simps
      split: if_splits list.splits sum.splits dest!: users_insert_Inr [THEN iffD1] wallets_insert_Inr [THEN iffD1])

lemma admins_two_new:
  "filter (\<lambda>u. u_role u = ADMIN) us = [] \<Longrightarrow>
   filter (\<lambda>u. u_role u = ADMIN) (us @ [new_user n1 i1 ph1 nm1 h1 ADMIN, new_user n2 i2 ph2 nm2 h2 ADMIN])
   = [new_user n1 i1 ph1 nm1 h1 ADMIN, new_user n2 i2 ph2 nm2 h2 ADMIN]"
  by simp

text \<open>C25: two bootstraps at once make two administrators. Whenever two bootstrap requests with
  different phone numbers would each succeed alone, they can interleave so that both succeed, because
  nothing but the SELECT before the INSERT keeps a second administrator out; from then on the bootstrap
  route answers with an internal error instead of 409.\<close>

theorem bootstrap_race:
  assumes "request (bootstrap_admin e (dr_now d1) (dr_salt d1) (dr_id1 d1) (dr_id2 d1) ph1 pin1 sec) s = (Inr tok1, s1)"
    and "request (bootstrap_admin e (dr_now d2) (dr_salt d2) (dr_id1 d2) (dr_id2 d2) ph2 pin2 sec) s = (Inr tok2, s2)"
    and "ph1 \<noteq> ph2" "dr_id1 d1 \<noteq> dr_id1 d2" "dr_id2 d1 \<noteq> dr_id2 d2"
  shows "\<exists>y. interleaved (all_begin s (map (script_of e) [Bootstrapping d1 ph1 pin1 sec, Bootstrapping d2 ph2 pin2 sec])) y \<and>
    running y = [Finish (Inr (O_token tok1)), Finish (Inr (O_token tok2))] \<and> length (admins (store y)) = 2 \<and>
    request (bootstrap_admin e now salt i j ph pin sec) (store y) = (Inl Multiple_results_found, store y)"
proof -
  note b1 = bootstrap_run [OF assms(1)] and b2 = bootstrap_run [OF assms(2)]
  let ?u1 = "new_user (dr_now d1) (dr_id1 d1) ph1 ''Administrateur'' (hash_pin e (dr_salt d1) pin1) ADMIN"
  let ?u2 = "new_user (dr_now d2) (dr_id1 d2) ph2 ''Administrateur'' (hash_pin e (dr_salt d2) pin2) ADMIN"
  let ?w1 = "new_wallet (dr_now d1) (dr_id2 d1) (dr_id1 d1)"
  let ?w2 = "new_wallet (dr_now d2) (dr_id2 d2) (dr_id1 d2)"
  let ?t1 = "s\<lparr>db_users := db_users s @ [?u1], db_wallets := db_wallets s @ [?w1]\<rparr>"
  let ?t2 = "s\<lparr>db_users := db_users s @ [?u1, ?u2], db_wallets := db_wallets s @ [?w1]\<rparr>"
  let ?t3 = "s\<lparr>db_users := db_users s @ [?u1, ?u2], db_wallets := db_wallets s @ [?w1, ?w2]\<rparr>"
  have ins: "users_insert ?u2 ?t1 = Inr ?t2" "wallets_insert ?w2 ?t2 = Inr ?t3"
    using b1(3,4) b2(3,4) assms(3-5) by (auto simp: users_insert_Inr wallets_insert_Inr user_exists_iff)
  let ?y0 = "all_begin s (map (script_of e) [Bootstrapping d1 ph1 pin1 sec, Bootstrapping d2 ph2 pin2 sec])"
  have fin: "turns [0, 1, 0, 0, 0, 1, 1, 1] ?y0 = \<lparr>store = ?t3, writer = None,
      running = [Finish (Inr (O_token tok1)), Finish (Inr (O_token tok2))]\<rparr>"
    using b1 b2 ins
    by (simp add: turns_def all_begin_def advance_def continue_with_def release_def others_write_def seen_by_def
        mapS_def bootstrap_script_def queryS_def execS_def statementS_def commitS_def one_or_noneS_def retS_def Let_def)
  have adm: "filter (\<lambda>u. u_role u = ADMIN) (db_users ?t3) = [?u1, ?u2]"
    using b1(2) by simp
  then have "request (bootstrap_admin e now salt i j ph pin sec) ?t3 = (Inl Multiple_results_found, ?t3)"
    using b1(1) by (simp add: request_def bootstrap_admin_def bindP_def query_def statement_def one_or_none_def throw_def)
  with fin adm interleaved_turns [of ?y0 "[0, 1, 0, 0, 0, 1, 1, 1]"] show ?thesis
    by (intro exI [of _ "turns [0, 1, 0, 0, 0, 1, 1, 1] ?y0"]) (simp add: admins_def)
qed

theorem bootstrap_race_witness:
  "\<exists>y. interleaved (all_begin empty_db (map (script_of sample_security)
      [Bootstrapping (sample_draw 1) ''0799'' ''1234'' ''s3cret'', Bootstrapping (sample_draw 2) ''0798'' ''4321'' ''s3cret''])) y \<and>
    length (admins (store y)) = 2"
proof -
  let ?m1 = "request (bootstrap_admin sample_security 10 1 200 201 ''0799'' ''1234'' ''s3cret'') empty_db"
  let ?m2 = "request (bootstrap_admin sample_security 20 2 400 401 ''0798'' ''4321'' ''s3cret'') empty_db"
  let ?t1 = "\<lparr>access_token_of = create_access_token sample_security 10 200 ''ADMIN'', token_role = ''ADMIN''\<rparr>"
  let ?t2 = "\<lparr>access_token_of = create_access_token sample_security 20 400 ''ADMIN'', token_role = ''ADMIN''\<rparr>"
  have "fst ?m1 = Inr ?t1" "fst ?m2 = Inr ?t2" by code_simp+
  then have "?m1 = (Inr ?t1, snd ?m1)" "?m2 = (Inr ?t2, snd ?m2)" by (simp_all add: prod_eq_iff)
  then show ?thesis
    using bootstrap_race [of sample_security "sample_draw 1" "''0799''" "''1234''" "''s3cret''" empty_db ?t1 "snd ?m1"
        "sample_draw 2" "''0798''" "''4321''" ?t2 "snd ?m2"]
    by (simp add: sample_draw_def) blast
qed

end
