(* ===== verification/Serializable.thy ===== *)
theory Serializable
  imports Concurrency
begin

text \<open>
  Serializability of the operations that move money. In a \<open>one_shot\<close> script all that is read before
  the first write is fixed by the condition \<open>J\<close>, and nothing is done after the one commit. Sessions of
  such scripts leave, however they interleave, what they leave one after the other in the order in which
  they commit, and get the same answers.
\<close>

section \<open>One transaction, fixed reads\<close>

inductive closing :: "(db \<Rightarrow> bool) \<Rightarrow> 'a script \<Rightarrow> db \<Rightarrow> bool" for J where
  "closing J (Finish r) w"
| "closing J (f w) w \<Longrightarrow> closing J (Select f) w"
| "(\<And>k w'. f w = Inr (k, w') \<Longrightarrow> closing J k w') \<Longrightarrow> closing J (Change f) w"
| "J w \<Longrightarrow> closing J (Commit (Finish r)) w"

definition fixed_by :: "(db \<Rightarrow> bool) \<Rightarrow> (db \<Rightarrow> 'a) \<Rightarrow> bool" where
  "fixed_by J f \<longleftrightarrow> (\<forall>s s'. J s \<longrightarrow> J s' \<longrightarrow> f s = f s')"

inductive one_shot :: "(db \<Rightarrow> bool) \<Rightarrow> 'a script \<Rightarrow> bool" for J where
  "one_shot J (Finish r)"
| "fixed_by J f \<Longrightarrow> (\<And>s. J s \<Longrightarrow> one_shot J (f s)) \<Longrightarrow> one_shot J (Select f)"
| "(\<And>s k s'. J s \<Longrightarrow> f s = Inr (k, s') \<Longrightarrow> closing J k s') \<Longrightarrow> one_shot J (Change f)"

inductive_cases closing_elims: "closing J (Select f) w" "closing J (Change f) w" "closing J (Commit k) w"
inductive_cases one_shot_elims: "one_shot J (Select f)" "one_shot J (Change f)" "one_shot J (Commit k)"

named_theorems one_shot_intros

lemma bindS_ends [simp]:
  "bindS (retS x) k = k x" "bindS (failS e) ke = failS e" "bindS (httpS c d) ke = httpS c d"
  by (simp_all add: retS_def failS_def httpS_def)

lemma one_shot_ends [one_shot_intros]:
  "one_shot J (retS x)" "one_shot J (failS e)" "one_shot J (httpS c d)"
  by (simp_all add: retS_def httpS_def failS_def one_shot.intros)

lemma one_shot_bind [one_shot_intros]:
  "fixed_by J q \<Longrightarrow> (\<And>s. J s \<Longrightarrow> one_shot J (kq (q s))) \<Longrightarrow> one_shot J (bindS (queryS q) kq)"
  "(\<And>s x s'. J s \<Longrightarrow> g s = Inr (x, s') \<Longrightarrow> closing J (kg x) s') \<Longrightarrow> one_shot J (bindS (statementS g) kg)"
  "(\<And>s s'. J s \<Longrightarrow> h s = Inr s' \<Longrightarrow> closing J (ku ()) s') \<Longrightarrow> one_shot J (bindS (execS h) ku)"
proof -
  assume q: "fixed_by J q" "\<And>s. J s \<Longrightarrow> one_shot J (kq (q s))"
  have "fixed_by J (\<lambda>s. kq (q s))" using q(1) unfolding fixed_by_def by metis
  with q(2) show "one_shot J (bindS (queryS q) kq)" by (simp add: queryS_def one_shot.intros)
next
  assume "\<And>s x s'. J s \<Longrightarrow> g s = Inr (x, s') \<Longrightarrow> closing J (kg x) s'"
  then show "one_shot J (bindS (statementS g) kg)"
    unfolding statementS_def by (auto intro!: one_shot.intros(3) split: sum.splits)
next
  assume "\<And>s s'. J s \<Longrightarrow> h s = Inr s' \<Longrightarrow> closing J (ku ()) s'"
  then show "one_shot J (bindS (execS h) ku)"
    unfolding execS_def statementS_def by (auto simp: bindE_def intro!: one_shot.intros(3) split: sum.splits)
qed

lemma closing_bind [one_shot_intros]:
  "closing J (retS x) w" "closing J (failS e) w" "closing J (httpS c d) w"
  "(\<And>s'. h w = Inr s' \<Longrightarrow> closing J (ku ()) s') \<Longrightarrow> closing J (bindS (execS h) ku) w"
  "J w \<Longrightarrow> closing J commitS w"
  "J w \<Longrightarrow> closing J (bindS commitS (\<lambda>_. retS y)) w" "J w \<Longrightarrow> closing J (bindS commitS (\<lambda>_. httpS c d)) w"
  by (auto simp: retS_def httpS_def failS_def commitS_def statementS_def execS_def bindE_def
      intro!: closing.intros split: sum.splits)

section \<open>The order of the commits\<close>

definition in_transaction :: "db \<Rightarrow> db \<Rightarrow> session" where
  "in_transaction s w = \<lparr>committed = s, current = w, aborted = False\<rparr>"

text \<open>A session that has written nothing, and one in the middle of its transaction.\<close>

definition fresh_session :: "(db \<Rightarrow> bool) \<Rightarrow> 'a script \<Rightarrow> 'a script \<Rightarrow> bool" where
  "fresh_session J c0 c \<longleftrightarrow> one_shot J c \<and> (\<forall>s. J s \<longrightarrow> request (denote c) s = request (denote c0) s)"

definition writing_session :: "(db \<Rightarrow> bool) \<Rightarrow> 'a script \<Rightarrow> db \<Rightarrow> db \<Rightarrow> 'a script \<Rightarrow> bool" where
  "writing_session J c0 s w c \<longleftrightarrow> closing J c w \<and>
     request (denote c0) s = (fst (denote c (in_transaction s w)), committed (snd (denote c (in_transaction s w))))"

definition answers_so_far :: "'a script list \<Rightarrow> nat list \<Rightarrow> db \<Rightarrow> (exn + 'a) list \<times> db" where
  "answers_so_far cs ended s = serially (map ((!) cs) ended) s"

definition serialized :: "(db \<Rightarrow> bool) \<Rightarrow> 'a script list \<Rightarrow> db \<Rightarrow> nat list \<Rightarrow> 'a system \<Rightarrow> bool" where
  "serialized J cs s0 ended y \<longleftrightarrow>
     length (running y) = length cs \<and> J (store y) \<and> distinct ended \<and> set ended \<subseteq> {..<length cs} \<and>
     answers_so_far cs ended s0 = (map (\<lambda>i. case running y ! i of Finish r \<Rightarrow> r) ended, store y) \<and>
     (\<forall>i \<in> set ended. \<exists>r. running y ! i = Finish r) \<and>
     (case writer y of None \<Rightarrow> True | Some (j, w) \<Rightarrow> j < length cs \<and> j \<notin> set ended \<and> writing_session J (cs ! j) (store y) w (running y ! j)) \<and>
     (\<forall>i < length cs. i \<notin> set ended \<longrightarrow> (\<forall>w. writer y \<noteq> Some (i, w)) \<longrightarrow> fresh_session J (cs ! i) (running y ! i))"

lemma serially_append:
  "serially (cs @ ds) s = (fst (serially cs s) @ fst (serially ds (snd (serially cs s))), snd (serially ds (snd (serially cs s))))"
  by (induction cs arbitrary: s) (simp_all split: prod.splits)

lemma answers_snoc:
  assumes "answers_so_far cs ended s0 = (rs, s)" "request (denote (cs ! i)) s = (r, s')"
  shows "answers_so_far cs (ended @ [i]) s0 = (rs @ [r], s')"
  using assms by (simp add: answers_so_far_def serially_append)

lemma serialized_begin:
  assumes "J s" "\<And>c. c \<in> set cs \<Longrightarrow> one_shot J c"
  shows "serialized J cs s [] (all_begin s cs)"
  using assms by (simp add: serialized_def all_begin_def answers_so_far_def fresh_session_def)

text \<open>A session that ends enters the list.\<close>

lemma serialized_end:
  assumes z: "serialized J cs s0 ended y" and i: "i < length cs" "i \<notin> set ended"
    and req: "request (denote (cs ! i)) (store y) = (r, s')" and "J s'"
    and w: "writer y = None \<or> (\<exists>w. writer y = Some (i, w))"
  shows "serialized J cs s0 (ended @ [i]) (y\<lparr>store := s', writer := None, running := (running y)[i := Finish r]\<rparr>)"
proof -
  have len: "length (running y) = length cs" and ans: "answers_so_far cs ended s0 = (map (\<lambda>i. case running y ! i of Finish r \<Rightarrow> r) ended, store y)"
    using z by (auto simp: serialized_def)
  have "(running y)[i := Finish r] ! j = running y ! j" if "j \<in> set ended" for j
    using that i(2) by (metis nth_list_update_neq)
  then have "map (\<lambda>j. case (running y)[i := Finish r] ! j of Finish r \<Rightarrow> r) ended = map (\<lambda>i. case running y ! i of Finish r \<Rightarrow> r) ended"
    by simp
  moreover have "fresh_session J (cs ! j) (running y ! j)" if "j < length cs" "j \<notin> set ended" "j \<noteq> i" for j
    using z w that by (auto simp: serialized_def)
  ultimately show ?thesis
    using z i len answers_snoc [OF ans req] \<open>J s'\<close> by (auto simp: serialized_def nth_list_update)
qed

lemma serialized_turn:
  assumes z: "serialized J cs s0 ended y"
  shows "\<exists>ended'. serialized J cs s0 ended' (advance i y)"
proof (cases "i < length cs \<and> i \<notin> set ended")
  case False
  have "advance i y = y"
  proof (cases "i < length cs")
    case True
    with False z obtain r where r: "running y ! i = Finish r" "i \<in> set ended" by (auto simp: serialized_def)
    with z have "writer y = None \<or> others_write i y"
      by (auto simp: serialized_def others_write_def split: option.splits)
    with r show ?thesis by (cases y) (auto simp: advance_def release_def)
  qed (use z in \<open>simp add: serialized_def advance_def\<close>)
  with z show ?thesis by auto
next
  case True
  then have i: "i < length cs" "i \<notin> set ended" by simp_all
  have len: "length (running y) = length cs" and st: "J (store y)" using z by (auto simp: serialized_def)
  show ?thesis
  proof (cases "\<exists>w. writer y = Some (i, w)")
    case True
    then obtain w where w: "writer y = Some (i, w)" by blast
    then have ws: "closing J (running y ! i) w"
      and req: "request (denote (cs ! i)) (store y) = (fst (denote (running y ! i) (in_transaction (store y) w)),
        committed (snd (denote (running y ! i) (in_transaction (store y) w))))"
      using z by (auto simp: serialized_def writing_session_def)
    have ow: "\<not> others_write i y" "seen_by i y = w" using w by (simp_all add: others_write_def seen_by_def)
    have fin: "serialized J cs s0 (ended @ [i]) (y\<lparr>store := s', writer := None, running := (running y)[i := Finish r]\<rparr>)"
      if "request (denote (cs ! i)) (store y) = (r, s')" "J s'" for r s'
      using serialized_end [OF z i that] w by blast
    have go: "serialized J cs s0 ended (y\<lparr>writer := Some (i, w'), running := (running y)[i := k]\<rparr>)"
      if "writing_session J (cs ! i) (store y) w' k" for w' k
      using z w i len that by (auto simp: serialized_def nth_list_update intro!: map_cong)
    show ?thesis
    proof (cases "running y ! i")
      case (Finish r)
      have "advance i y = y\<lparr>store := store y, writer := None, running := (running y)[i := Finish r]\<rparr>"
        using Finish i(1) len ow list_update_id [of "running y" i] by (cases y) (simp add: advance_def release_def)
      with fin [of r "store y"] req Finish st show ?thesis by (auto simp: in_transaction_def)
    next
      case (Select f)
      have "writing_session J (cs ! i) (store y) w (f w)"
        using ws req Select by (auto simp: writing_session_def in_transaction_def elim: closing_elims)
      from go [OF this] Select i(1) len ow w show ?thesis
        by (intro exI [of _ ended]) (cases y, simp add: advance_def continue_with_def)
    next
      case (Change f)
      show ?thesis
      proof (cases "f w")
        case (Inl e)
        with Change i(1) len ow have "advance i y = y\<lparr>store := store y, writer := None, running := (running y)[i := Finish (Inl (Sql e))]\<rparr>"
          by (cases y) (simp add: advance_def release_def continue_with_def)
        with fin [of "Inl (Sql e)" "store y"] req Change Inl st show ?thesis by (auto simp: in_transaction_def)
      next
        case (Inr q)
        obtain k s where q: "q = (k, s)" by fastforce
        have "writing_session J (cs ! i) (store y) s k"
          using ws req Change Inr q by (auto simp: writing_session_def in_transaction_def elim: closing_elims)
        from go [OF this] Change Inr q i(1) len ow show ?thesis
          by (intro exI [of _ ended]) (cases y, simp add: advance_def continue_with_def)
      qed
    next
      case (Commit k)
      with ws obtain r where r: "k = Finish r" "J w" by (auto elim: closing_elims)
      with Commit i(1) len ow w have "advance i y = y\<lparr>store := w, writer := None, running := (running y)[i := Finish r]\<rparr>"
        by (cases y) (simp add: advance_def release_def continue_with_def others_write_def seen_by_def)
      with fin [of r w] req Commit r show ?thesis by (auto simp: in_transaction_def commit_def)
    qed
  next
    case False
    then have fr: "one_shot J (running y ! i)" and req: "\<And>s. J s \<Longrightarrow> request (denote (running y ! i)) s = request (denote (cs ! i)) s"
      using z i by (auto simp: serialized_def fresh_session_def)
    have seen: "seen_by i y = store y" using False by (auto simp: seen_by_def split: option.splits)
    have ow: "others_write i y \<longleftrightarrow> writer y \<noteq> None" using False by (auto simp: others_write_def split: option.splits)
    show ?thesis
    proof (cases "running y ! i")
      case (Finish r)
      have "advance i y = y"
        using Finish i(1) len ow by (cases y; cases "writer y") (auto simp: advance_def release_def)
      with z show ?thesis by auto
    next
      case (Select f)
      have "fixed_by J f" "one_shot J (f (store y))" using fr st unfolding Select by (auto elim: one_shot_elims)
      then have same: "f s = f (store y)" "one_shot J (f (store y))" if "J s" for s
        using st that unfolding fixed_by_def by blast+
      have "fresh_session J (cs ! i) (f (store y))"
        unfolding fresh_session_def
      proof (intro conjI allI impI)
        fix s assume "J s"
        then show "request (denote (f (store y))) s = request (denote (cs ! i)) s"
          using req [of s] same(1) [of s] by (simp add: Select request_def opened_def)
      qed (use same(2) st in blast)
      then have "serialized J cs s0 ended (y\<lparr>running := (running y)[i := f (store y)]\<rparr>)"
        using z i len False by (auto simp: serialized_def nth_list_update intro!: map_cong split: option.splits)
      then show ?thesis using Select i(1) len seen by (intro exI [of _ ended]) (simp add: advance_def continue_with_def)
    next
      case (Change f)
      show ?thesis
      proof (cases "others_write i y")
        case True
        with z Change len i show ?thesis by (auto simp: advance_def)
      next
        case no: False
        with ow have none: "writer y = None" by blast
        have rq: "request (denote (cs ! i)) (store y) = (case f (store y) of Inl e \<Rightarrow> (Inl (Sql e), store y)
            | Inr (c, s) \<Rightarrow> (fst (denote c (in_transaction (store y) s)), committed (snd (denote c (in_transaction (store y) s)))))"
          using req [OF st] by (simp add: Change request_def opened_def in_transaction_def split: sum.splits prod.splits)
        show ?thesis
        proof (cases "f (store y)")
          case (Inl e)
          with Change i(1) len no seen none have "advance i y = y\<lparr>store := store y, writer := None, running := (running y)[i := Finish (Inl (Sql e))]\<rparr>"
            by (cases y) (simp add: advance_def release_def continue_with_def)
          with serialized_end [OF z i, of "Inl (Sql e)" "store y"] rq Inl st none show ?thesis by auto
        next
          case (Inr q)
          obtain k s where q: "q = (k, s)" by fastforce
          have "closing J k s" using fr Change Inr q st by (auto elim!: one_shot_elims)
          then have "writing_session J (cs ! i) (store y) s k" using rq Inr q by (simp add: writing_session_def)
          then have "serialized J cs s0 ended (y\<lparr>writer := Some (i, s), running := (running y)[i := k]\<rparr>)"
            using z i len none by (auto simp: serialized_def nth_list_update intro!: map_cong)
          then show ?thesis using Change Inr q i(1) len no seen
            by (intro exI [of _ ended]) (cases y, simp add: advance_def continue_with_def)
        qed
      qed
    next
      case (Commit k)
      with fr show ?thesis by (auto elim: one_shot_elims)
    qed
  qed
qed

lemma interleaved_serialized:
  "interleaved y y' \<Longrightarrow> serialized J cs s0 ended y \<Longrightarrow> \<exists>ended'. serialized J cs s0 ended' y'"
  by (induction rule: interleaved.induct) (auto dest: serialized_turn)

lemma no_effect_serially:
  assumes "\<And>i. i \<in> set is \<Longrightarrow> request (denote (cs ! i)) s = (f i, s)"
  shows "serially (map ((!) cs) is) s = (map f is, s)"
  using assms by (induction "is") auto

text \<open>When all sessions have ended, those that wrote nothing are put last.\<close>

lemma ended_serially:
  assumes z: "serialized J cs s0 ended y" and fin: "running y = map Finish rs"
  shows "\<exists>order. distinct order \<and> set order = {..<length cs} \<and>
    serially (map ((!) cs) order) s0 = (map ((!) rs) order, store y)"
proof -
  define rest where "rest = filter (\<lambda>i. i \<notin> set ended) [0..<length cs]"
  have len: "length rs = length cs" using z fin by (simp add: serialized_def)
  have sub: "set ended \<subseteq> {..<length cs}" and dist: "distinct ended" and st: "J (store y)" using z by (auto simp: serialized_def)
  have "map (\<lambda>i. case running y ! i of Finish r \<Rightarrow> r) ended = map ((!) rs) ended"
    using sub fin len by (auto intro!: map_cong)
  then have one: "serially (map ((!) cs) ended) s0 = (map ((!) rs) ended, store y)"
    using z by (simp add: serialized_def answers_so_far_def)
  have "request (denote (cs ! i)) (store y) = (rs ! i, store y)" if "i \<in> set rest" for i
  proof -
    have i: "i < length cs" "i \<notin> set ended" "running y ! i = Finish (rs ! i)" using that fin len by (auto simp: rest_def)
    show ?thesis
    proof (cases "\<exists>w. writer y = Some (i, w)")
      case True
      with z i show ?thesis by (auto simp: serialized_def writing_session_def in_transaction_def)
    next
      case False
      with z i have "fresh_session J (cs ! i) (Finish (rs ! i))" by (auto simp: serialized_def)
      with st show ?thesis by (simp add: fresh_session_def request_def opened_def)
    qed
  qed
  from no_effect_serially [OF this] one
  have "serially (map ((!) cs) (ended @ rest)) s0 = (map ((!) rs) (ended @ rest), store y)"
    by (simp add: serially_append)
  moreover have "distinct (ended @ rest)" "set (ended @ rest) = {..<length cs}"
    using dist sub by (auto simp: rest_def)
  ultimately show ?thesis by blast
qed

section \<open>The operations on money\<close>

text \<open>A review without the address of the administrator (the route never passes one), and of the
  decisions on deposits the rejections: an approval reads the deposit before its transaction.\<close>

fun moves_money :: "operation \<Rightarrow> bool" where
  "moves_money (Finalizing d ref proof conf) = True"
| "moves_money (Withdrawing d uid a prov ph) = True"
| "moves_money (Reviewing d tid act proof adm ip) = (ip = None \<or> ip = Some [])"
| "moves_money (Transferring d sender a ph) = True"
| "moves_money (Crediting d uid a reason adm) = True"
| "moves_money (Deciding_payin d adm tid act proof) = (upper act \<noteq> ''APPROVE'')"
| "moves_money _ = False"

lemma settings_kept:
  "process_payin_credit now ref proof conf s = Inr (r1, s') \<Longrightarrow> db_settings s' = db_settings s"
  "process_payout_deduction now i u a ref prov ph s = Inr (r2, s') \<Longrightarrow> db_settings s' = db_settings s"
  "sql_admin_process_payout now i tid act proof adm s = Inr (r3, s') \<Longrightarrow> db_settings s' = db_settings s"
  "process_internal_transfer now i1 i2 u a ph r4 r5 pct s = Inr (r6, s') \<Longrightarrow> db_settings s' = db_settings s"
  "ledger_update P f s = Inr s' \<Longrightarrow> db_settings s' = db_settings s"
  "wallets_update u a now s = Inr s' \<Longrightarrow> db_settings s' = db_settings s"
  "ledger_insert t s = Inr s' \<Longrightarrow> db_settings s' = db_settings s"
proof -
  show "process_payin_credit now ref proof conf s = Inr (r1, s') \<Longrightarrow> db_settings s' = db_settings s"
    by (cases rule: payin_credit_cases) auto
  show "process_payout_deduction now i u a ref prov ph s = Inr (r2, s') \<Longrightarrow> db_settings s' = db_settings s"
    by (cases rule: payout_deduction_cases) auto
  show "sql_admin_process_payout now i tid act proof adm s = Inr (r3, s') \<Longrightarrow> db_settings s' = db_settings s"
    by (cases rule: admin_review_cases) auto
  show "process_internal_transfer now i1 i2 u a ph r4 r5 pct s = Inr (r6, s') \<Longrightarrow> db_settings s' = db_settings s"
    by (cases rule: internal_transfer_cases) auto
qed (auto simp: ledger_update_Inr wallets_update_Inr ledger_insert_Inr)

lemma one_shot_fee:
  assumes "\<And>d. one_shot (\<lambda>s. db_settings s = S) (k d)"
  shows "one_shot (\<lambda>s. db_settings s = S) (bindS fee_script k)"
  unfolding fee_script_def bindS_assoc
proof (rule one_shot_bind)
  show "fixed_by (\<lambda>s. db_settings s = S) (setting ''fee_percent'')"
    by (simp add: fixed_by_def setting_def)
  fix s
  show "one_shot (\<lambda>s. db_settings s = S) (bindS (case setting ''fee_percent'' s of None \<Rightarrow> retS (Dec 8 0)
      | Some v \<Rightarrow> (case dec_parse v of None \<Rightarrow> failS Invalid_operation | Some d \<Rightarrow> retS d)) k)"
    using assms by (auto split: option.splits intro: one_shot_intros)
qed

lemma one_shot_operation:
  assumes "moves_money op"
  shows "one_shot (\<lambda>s. db_settings s = S) (script_of e op)"
proof (cases op)
  case (Transferring d sender a ph)
  show ?thesis
    unfolding Transferring script_of.simps mapS_def transfer_script_def Let_def bindS_assoc
    by (auto intro!: one_shot_fee one_shot_intros dest: settings_kept)
next
  case (Crediting d uid a reason adm)
  show ?thesis
    unfolding Crediting script_of.simps mapS_def manual_credit_script_def Let_def bindS_assoc bindS_cases
    by (auto simp: outcome_simps split: option.splits intro!: one_shot_intros dest!: settings_kept)
next
  case (Reviewing d tid act pf adm ip)
  with assms show ?thesis
    by (auto simp: mapS_def review_script_def bindS_assoc bindS_cases intro!: one_shot_intros dest!: settings_kept)
next
  case (Deciding_payin d adm tid act pf)
  with assms show ?thesis
    by (auto simp: mapS_def process_payin_script_def bindS_assoc bindS_cases outcome_simps Let_def
        intro!: one_shot_intros dest!: settings_kept split: option.splits)
qed (use assms in \<open>auto simp: mapS_def finalize_script_def payout_script_def Let_def bindS_assoc outcome_simps
    intro!: one_shot_intros dest!: settings_kept\<close>)

lemma serial_order:
  assumes "interleaved (all_begin s (map (script_of e) ops)) y" "list_all moves_money ops" "running y = map Finish rs"
  shows "\<exists>order. distinct order \<and> set order = {..<length ops} \<and>
    in_turn e (map ((!) ops) order) s = (map ((!) rs) order, store y)"
proof -
  let ?cs = "map (script_of e) ops"
  have "serialized (\<lambda>t. db_settings t = db_settings s) ?cs s [] (all_begin s ?cs)"
    using assms(2) by (auto simp: list_all_iff intro!: serialized_begin one_shot_operation)
  from interleaved_serialized [OF assms(1) this] obtain ended where
    "serialized (\<lambda>t. db_settings t = db_settings s) ?cs s ended y" by blast
  from ended_serially [OF this assms(3)] obtain order where
    order: "distinct order" "set order = {..<length ops}" "serially (map ((!) ?cs) order) s = (map ((!) rs) order, store y)"
    by auto
  have same: "map ((!) ?cs) order = map (script_of e) (map ((!) ops) order)" using order(2) by auto
  have "in_turn e (map ((!) ops) order) s = (map ((!) rs) order, store y)"
    using order(3) unfolding same serially_in_turn .
  with order show ?thesis by blast
qed


definition busy_turns :: "outcome system" where
  "busy_turns = turns [0, 1, 0, 2, 1, 2, 1, 3, 2, 2, 3, 3, 1, 3, 3] (all_begin waiting_db (map (script_of sample_security) busy_operations))"


end
