(* ===== verification/Decisions.thy ===== *)
theory Decisions
  imports Concurrency
begin

text \<open>
  Routes that change a row which the ORM has loaded: decisions on identity files, blocking an account,
  registering a device; and the deletion of dead tokens by a notification.
  When the session flushes, SQLAlchemy writes the columns whose value differs from
  the one it loaded, and only these; when the row was changed meanwhile, the others keep what was
  written there. The scripts here say which columns are written; alone, on a database that satisfies the
  constraints, they are the programs of \<open>Admin\<close>, \<open>Kyc\<close> and \<open>Push\<close>. A \<open>job\<close> is any request that writes;
  however jobs interleave, the books balance.
\<close>

section \<open>Columns that changed\<close>

definition dirty :: "'a \<Rightarrow> 'a \<Rightarrow> 'a \<Rightarrow> 'a" where
  \<comment> \<open>the value of a column in the table after the flush: loaded, assigned, in the table before\<close>
  "dirty loaded assigned stored = (if assigned = loaded then stored else assigned)"

lemma dirty_simps [simp]: "dirty x y x = y" "dirty x x z = z" "y \<noteq> x \<Longrightarrow> dirty x y z = y"
  by (simp_all add: dirty_def)

definition scalar_oneS :: "'r option \<Rightarrow> 'r script" where
  "scalar_oneS r = (case r of None \<Rightarrow> failS No_result_found | Some x \<Rightarrow> retS x)"

section \<open>Decisions on identity files\<close>

definition decided_columns :: "timestamp \<Rightarrow> bool \<Rightarrow> string option \<Rightarrow> kyc_row \<Rightarrow> kyc_row \<Rightarrow> kyc_row" where
  "decided_columns now approve reason k r =
     (let d = decided now approve reason k in
      r\<lparr>k_status := dirty (k_status k) (k_status d) (k_status r),
        k_review_note := dirty (k_review_note k) (k_review_note d) (k_review_note r),
        k_updated_at := dirty (k_updated_at k) (k_updated_at d) (k_updated_at r)\<rparr>)"

definition kyc_decide_script :: "timestamp \<Rightarrow> uuid \<Rightarrow> string \<Rightarrow> string option \<Rightarrow> kyc_outcome script" where
  "kyc_decide_script now sid decision reason =
     (if decision \<notin> {''approve'', ''reject''} then httpS 422 Validation_error
      else
        bindS (queryS (\<lambda>s. filter (\<lambda>k. k_id k = sid) (db_kyc s))) (\<lambda>rows.
        bindS (one_or_noneS rows) (\<lambda>submission.
        case submission of
          None \<Rightarrow> httpS 404 Demande_introuvable
        | Some k \<Rightarrow>
            if k_status k \<noteq> KYC_PENDING then httpS 409 (Deja_traitee_kyc (k_status k))
            else
              bindS (queryS (\<lambda>s. find (\<lambda>u. u_id u = k_user_id k) (db_users s))) (\<lambda>us.
              bindS (scalar_oneS us) (\<lambda>user.
              bindS (execS (kyc_update (k_id k) (decided_columns now (decision = ''approve'') reason k))) (\<lambda>_.
              bindS commitS (\<lambda>_.
              retS (if decision = ''approve'' then Compte_verifie (u_full_name user)
                    else Demande_rejetee (u_full_name user)))))))))"

section \<open>Blocking an account\<close>

definition user_status_script :: "timestamp \<Rightarrow> uuid \<Rightarrow> bool \<Rightarrow> (uuid \<times> bool) script" where
  "user_status_script now uid active =
     bindS (queryS (\<lambda>s. filter (\<lambda>u. u_id u = uid) (db_users s))) (\<lambda>us.
     bindS (one_or_noneS us) (\<lambda>user.
     case user of
       None \<Rightarrow> httpS 404 Utilisateur_introuvable
     | Some u \<Rightarrow>
         if u_role u = ADMIN then httpS 400 Blocage_admin_impossible
         else
           bindS (execS (users_update (u_id u) (\<lambda>r. r\<lparr>u_is_active := dirty (u_is_active u) active (u_is_active r),
             u_updated_at := dirty (u_updated_at u) now (u_updated_at r)\<rparr>))) (\<lambda>_.
           bindS commitS (\<lambda>_.
           retS (u_id u, active)))))"

lemma update_loaded:
  assumes "distinct (map key xs)" "filter (\<lambda>r. key r = i) xs = [x]" "f x = g x"
  shows "update_where (\<lambda>r. key r = i) f xs = update_where (\<lambda>r. key r = i) g xs"
proof -
  have "r = x" if "r \<in> set xs" "key r = i" for r
  proof -
    have "r \<in> set (filter (\<lambda>r. key r = i) xs)" using that by simp
    then show ?thesis unfolding assms(2) by simp
  qed
  with assms(3) show ?thesis unfolding update_where_def by (intro map_cong) auto
qed

section \<open>Devices\<close>

text \<open>\<open>UPDATE device_tokens SET ... WHERE id = ...\<close>, with the columns that changed; False when the row is
  gone, which SQLAlchemy answers with \<open>StaleDataError\<close>.\<close>

definition device_flush :: "device_row \<Rightarrow> uuid \<Rightarrow> string \<Rightarrow> db \<Rightarrow> sql_error + (bool \<times> db)" where
  "device_flush d uid platform s =
     (if d_id d \<notin> d_id ` set (db_devices s) then Inr (False, s)
      else if d_platform d \<noteq> platform \<and> 20 < length platform then Inl (StringDataRightTruncation ''device_tokens'')
      else if d_user_id d \<noteq> uid \<and> \<not> user_exists uid s then Inl (ForeignKeyViolation ''device_tokens.user_id'')
      else Inr (True, s\<lparr>db_devices := update_where (\<lambda>r. d_id r = d_id d)
             (\<lambda>r. r\<lparr>d_user_id := dirty (d_user_id d) uid (d_user_id r),
                d_platform := dirty (d_platform d) platform (d_platform r)\<rparr>) (db_devices s)\<rparr>))"

definition register_device_script :: "timestamp \<Rightarrow> uuid \<Rightarrow> user_row \<Rightarrow> string \<Rightarrow> string \<Rightarrow> unit script" where
  "register_device_script now i user fcm_token platform =
     (if length fcm_token < 10 then httpS 422 Validation_error
      else
        bindS (queryS (\<lambda>s. filter (\<lambda>d. d_token d = fcm_token) (db_devices s))) (\<lambda>rows.
        bindS (one_or_noneS rows) (\<lambda>existing.
        case existing of
          Some d \<Rightarrow>
            if d_user_id d = u_id user \<and> d_platform d = platform then commitS
            else
              bindS (statementS (device_flush d (u_id user) platform)) (\<lambda>found.
              if found then commitS else failS Other_exception)
        | None \<Rightarrow>
            bindS (execS (devices_insert \<lparr>d_id = i, d_user_id = u_id user, d_token = fcm_token,
              d_platform = platform, d_created_at = now\<rparr>)) (\<lambda>_.
            commitS))))"

text \<open>\<open>notify_user\<close>: the tokens that FCM no longer knows are deleted together, when the session commits.\<close>

definition devices_delete :: "uuid set \<Rightarrow> db \<Rightarrow> sql_error + db" where
  "devices_delete ids s = Inr (s\<lparr>db_devices := filter (\<lambda>d. d_id d \<notin> ids) (db_devices s)\<rparr>)"

definition notify_script :: "'c fcm \<Rightarrow> uuid \<Rightarrow> notice \<Rightarrow> unit script" where
  "notify_script f uid n =
     (case get_credentials f of
        None \<Rightarrow> retS ()
      | Some creds \<Rightarrow>
          (case access_token f creds of
             None \<Rightarrow> retS ()
           | Some bearer \<Rightarrow>
               bindS (queryS (\<lambda>s. filter (\<lambda>d. d_user_id d = uid) (db_devices s))) (\<lambda>tokens.
               let dead = filter (dead_token f bearer n) tokens in
               if dead = [] then retS ()
               else bindS (execS (devices_delete (d_id ` set dead))) (\<lambda>_. commitS))))"

text \<open>The scripts are the programs where ids are unique.\<close>

lemma kyc_decide_alone:
  assumes "wf_db s"
  shows "request (denote (kyc_decide_script now sid decision reason)) s = request (kyc_decide_jwt now admin sid decision reason) s"
proof -
  have ids: "distinct (map k_id (db_kyc s))" using assms by (simp add: wf_db_def wf_kyc_def)
  have same: "kyc_update (k_id k) (decided_columns now a reason k) s = kyc_update (k_id k) (decided now a reason) s"
    if "filter (\<lambda>k. k_id k = sid) (db_kyc s) = [k]" for k a
  proof -
    have "k \<in> set (filter (\<lambda>k. k_id k = sid) (db_kyc s))" using that by simp
    then have "k_id k = sid" by simp
    moreover have "decided_columns now a reason k k = decided now a reason k"
      by (simp add: decided_columns_def decided_def Let_def)
    ultimately show ?thesis
      using update_loaded [OF ids, of sid k "decided_columns now a reason k" "decided now a reason"] that
      by (simp add: kyc_update_def)
  qed
  show ?thesis
    by (auto simp: kyc_decide_script_def kyc_decide_jwt_def kyc_apply_def denote_simps scalar_oneS_def request_def opened_def
        bindP_def query_def statement_def exec_def one_or_none_def scalar_one_def same denote_cases ret_def http_def throw_def commit_def
        split: list.splits option.splits)
qed

lemma user_status_alone:
  assumes "wf_db s"
  shows "request (denote (user_status_script now uid active)) s = request (update_user_status now admin uid active) s"
proof -
  have ids: "distinct (map u_id (db_users s))" using assms by (simp add: wf_db_def wf_users_def)
  have same: "users_update (u_id u) (\<lambda>r. r\<lparr>u_is_active := dirty (u_is_active u) active (u_is_active r),
        u_updated_at := dirty (u_updated_at u) now (u_updated_at r)\<rparr>) s
      = users_update (u_id u) (\<lambda>r. r\<lparr>u_is_active := active, u_updated_at := now\<rparr>) s"
    if "filter (\<lambda>u. u_id u = uid) (db_users s) = [u]" for u
  proof -
    have "u \<in> set (filter (\<lambda>u. u_id u = uid) (db_users s))" using that by simp
    then have "u_id u = uid" by simp
    then show ?thesis
      using update_loaded [OF ids, of uid u "\<lambda>r. r\<lparr>u_is_active := dirty (u_is_active u) active (u_is_active r),
          u_updated_at := dirty (u_updated_at u) now (u_updated_at r)\<rparr>" "\<lambda>r. r\<lparr>u_is_active := active, u_updated_at := now\<rparr>"] that
      by (simp add: users_update_def)
  qed
  show ?thesis
    by (auto simp: user_status_script_def update_user_status_def denote_simps request_def opened_def
        bindP_def query_def statement_def exec_def one_or_none_def same denote_cases ret_def http_def throw_def commit_def
        split: list.splits option.splits)
qed

lemma register_device_alone:
  assumes "wf_db s" "list_all (\<lambda>d. user_exists (d_user_id d) s \<and> length (d_platform d) \<le> 20) (db_devices s)"
  shows "request (denote (register_device_script now i user tok platform)) s = request (register_device now i user tok platform) s"
proof -
  have ids: "distinct (map d_id (db_devices s))" using assms(1) by (simp add: wf_db_def wf_devices_def)
  let ?set = "\<lambda>r. r\<lparr>d_user_id := u_id user, d_platform := platform\<rparr>"
  have one: "d \<in> set (db_devices s)" "filter (\<lambda>r. d_id r = d_id d) (db_devices s) = [d]"
    if "filter (\<lambda>d. d_token d = tok) (db_devices s) = [d]" for d
  proof -
    have "d \<in> set (filter (\<lambda>d. d_token d = tok) (db_devices s))" using that by simp
    then show "d \<in> set (db_devices s)" by simp
    then show "filter (\<lambda>r. d_id r = d_id d) (db_devices s) = [d]" using ids by (rule filter_key_found [rotated])
  qed
  have unchanged: "devices_assign (d_id d) (u_id user) platform s = Inr s"
    if "filter (\<lambda>d. d_token d = tok) (db_devices s) = [d]" "d_user_id d = u_id user" "d_platform d = platform" for d
  proof -
    have "update_where (\<lambda>r. d_id r = d_id d) ?set (db_devices s) = update_where (\<lambda>r. d_id r = d_id d) (\<lambda>r. r) (db_devices s)"
      using that(2,3) by (intro update_loaded [OF ids one(2) [OF that(1)]]) (cases d; simp)
    with one(1) [OF that(1)] that(2,3) assms(2) show ?thesis
      by (auto simp: devices_assign_def list_all_iff update_where_def)
  qed
  have changed: "device_flush d (u_id user) platform s = bindE (devices_assign (d_id d) (u_id user) platform s) (\<lambda>s'. Inr (True, s'))"
    if "filter (\<lambda>d. d_token d = tok) (db_devices s) = [d]" for d
  proof -
    have "update_where (\<lambda>r. d_id r = d_id d) (\<lambda>r. r\<lparr>d_user_id := dirty (d_user_id d) (u_id user) (d_user_id r),
          d_platform := dirty (d_platform d) platform (d_platform r)\<rparr>) (db_devices s)
        = update_where (\<lambda>r. d_id r = d_id d) ?set (db_devices s)"
      by (rule update_loaded [OF ids one(2) [OF that]]) simp
    with one(1) [OF that] assms(2) show ?thesis
      by (auto simp: device_flush_def devices_assign_def list_all_iff)
  qed
  show ?thesis
  proof (cases "filter (\<lambda>d. d_token d = tok) (db_devices s)")
    case (Cons d ds)
    show ?thesis
    proof (cases ds)
      case Nil
      with Cons have row: "filter (\<lambda>d. d_token d = tok) (db_devices s) = [d]" by simp
      note up = unchanged [OF row] changed [OF row]
      show ?thesis
        by (cases "devices_assign (d_id d) (u_id user) platform s")
           (use row up in \<open>auto simp: register_device_script_def register_device_def denote_simps denote_cases request_def
              opened_def bindP_def query_def statement_def exec_def one_or_none_def ret_def commit_def\<close>)
    qed (use Cons in \<open>simp add: register_device_script_def register_device_def denote_simps denote_cases request_def opened_def
          bindP_def query_def statement_def one_or_none_def throw_def\<close>)
  qed (simp add: register_device_script_def register_device_def denote_simps denote_cases request_def opened_def bindP_def
      query_def statement_def exec_def one_or_none_def ret_def commit_def)
qed

lemma notify_alone: "request (denote (notify_script f uid n)) s = request (notify_user f uid n) s"
proof (cases "\<exists>creds bearer. get_credentials f = Some creds \<and> access_token f creds = Some bearer")
  case False
  then have "get_credentials f = None \<or> (\<exists>c. get_credentials f = Some c \<and> access_token f c = None)"
    by (metis not_Some_eq)
  then show ?thesis by (auto simp: notify_script_def notify_user_def attempt_def request_def denote_simps ret_def)
next
  case True
  then obtain creds bearer where cb: "get_credentials f = Some creds" "access_token f creds = Some bearer" by blast
  let ?dead = "filter (dead_token f bearer n) (filter (\<lambda>d. d_user_id d = uid) (db_devices s))"
  have dead: "dead_devices f uid n s = set ?dead"
    using cb by (auto simp: dead_devices_def)
  have "denote (notify_script f uid n) (opened s) = (Inr (), opened (without_devices (set ?dead) s))"
  proof (cases "?dead = []")
    case True
    then have "without_devices (set ?dead) s = s" by (simp only: list.set(1) without_no_devices)
    with True show ?thesis
      by (simp add: notify_script_def cb denote_simps denote_cases Let_def bindP_def query_def statement_def opened_def ret_def
          del: filter_filter set_filter)
  next
    case False
    then show ?thesis
      by (simp add: notify_script_def cb denote_simps denote_cases Let_def bindP_def query_def statement_def exec_def
          devices_delete_def commit_def opened_def without_devices_def del: filter_filter set_filter)
  qed
  then show ?thesis by (simp add: request_def notify_user_opened dead)
qed

section \<open>All requests that write\<close>

datatype 'c job =
    Operation operation
  | Deciding_file timestamp uuid string "string option"
  | Setting_active timestamp uuid bool
  | Enrolling timestamp uuid user_row string string
  | Notifying "'c fcm" uuid notice

datatype result =
    R_operation outcome
  | R_file kyc_outcome
  | R_active uuid bool
  | R_done

fun script_of_job :: "security \<Rightarrow> 'c job \<Rightarrow> result script" where
  "script_of_job e (Operation op) = mapS R_operation (script_of e op)"
| "script_of_job e (Deciding_file now sid decision reason) = mapS R_file (kyc_decide_script now sid decision reason)"
| "script_of_job e (Setting_active now uid active) = mapS (\<lambda>(i, a). R_active i a) (user_status_script now uid active)"
| "script_of_job e (Enrolling now i user tok platform) = mapS (\<lambda>_. R_done) (register_device_script now i user tok platform)"
| "script_of_job e (Notifying f uid n) = mapS (\<lambda>_. R_done) (notify_script f uid n)"

fun job_ok :: "uuid set \<Rightarrow> 'c job \<Rightarrow> bool" where
  "job_ok R (Operation op) = op_ok R op"
| "job_ok R _ = True"

lemma wf_devices_flush:
  assumes "wf_db s" "device_flush d uid p s = Inr (b, s')"
  shows "wf_db s'"
proof -
  let ?f = "\<lambda>r. r\<lparr>d_user_id := dirty (d_user_id d) uid (d_user_id r), d_platform := dirty (d_platform d) p (d_platform r)\<rparr>"
  have "wf_devices (update_where P ?f ds) = wf_devices ds" for P ds
    by (simp add: wf_devices_def update_where_def comp_def if_distrib cong: if_cong)
  moreover have "s' = s \<or> s' = s\<lparr>db_devices := update_where (\<lambda>r. d_id r = d_id d) ?f (db_devices s)\<rparr>"
    using assms(2) unfolding device_flush_def by (auto simp only: split: if_splits)
  ultimately show ?thesis using assms(1) by (auto simp: wf_db_def list_all_iff)
qed

lemma wf_devices_delete: "wf_db s \<Longrightarrow> devices_delete ids s = Inr s' \<Longrightarrow> wf_db s'"
  by (auto simp: devices_delete_def wf_db_def wf_devices_def list_all_iff distinct_map intro: inj_on_subset)

text \<open>Statements on accounts, files and devices leave the books alone.\<close>

lemma good_other_tables:
  "good R s \<Longrightarrow> kyc_update i f s = Inr s' \<Longrightarrow> good R s'"
  "good R s \<Longrightarrow> device_flush d uid p s = Inr (b, s') \<Longrightarrow> good R s'"
  "good R s \<Longrightarrow> devices_insert d s = Inr s' \<Longrightarrow> good R s'"
  "good R s \<Longrightarrow> devices_delete ids s = Inr s' \<Longrightarrow> good R s'"
  using wf_kyc_statements(2) [of s i f s'] wf_devices_flush [of s d uid p b s'] wf_devices_insert [of s d s']
    wf_devices_delete [of s ids s'] good_elsewhere [of R s s']
  by (auto simp: good_def sound_def elsewhere_def kyc_update_Inr device_flush_def devices_insert_def devices_delete_def
      split: if_splits)

lemma good_account:
  assumes "good R s" "users_update uid f s = Inr s'" "\<And>u. u_id (f u) = u_id u" "\<And>u. u_phone_number (f u) = u_phone_number u"
  shows "good R s'"
  by (rule good_elsewhere [OF assms(1)], rule wf_users_update [OF _ assms(2-4)])
     (use assms(1) users_update_Inr [OF assms(2)] in \<open>simp_all add: good_def sound_def elsewhere_def\<close>)

lemma keeping_mapS: "keeping I c \<Longrightarrow> keeping I (mapS f c)"
  and pending_mapS: "pending I c w \<Longrightarrow> pending I (mapS f c) w"
  unfolding mapS_def
  by (induction rule: keeping_pending.inducts)
     (auto simp: retS_def intro!: keeping_pending.intros split: sum.splits)

lemma keeping_ends:
  "(\<And>s x s'. I s \<Longrightarrow> g s = Inr (x, s') \<Longrightarrow> pending I (k x) s') \<Longrightarrow> keeping I (bindS (statementS g) k)"
  "keeping I commitS"
  by (rule keeping_bind_changes, blast) (auto simp: commitS_def intro!: keeping_pending.intros)

lemma keeping_job:
  assumes "job_ok R j"
  shows "keeping (good R) (script_of_job e j)"
proof (cases j)
  case (Operation op)
  with assms show ?thesis by (simp add: keeping_mapS keeping_operation)
next
  case (Deciding_file now sid decision reason)
  show ?thesis
    unfolding Deciding_file script_of_job.simps kyc_decide_script_def scalar_oneS_def bindS_assoc bindS_cases
    by (intro keeping_mapS) (auto intro!: script_intros intro: good_other_tables)
next
  case (Setting_active now uid active)
  show ?thesis
    unfolding Setting_active script_of_job.simps user_status_script_def bindS_assoc bindS_cases
    by (intro keeping_mapS) (auto intro!: script_intros elim: good_account [rotated])
next
  case (Enrolling now i user tok platform)
  show ?thesis
    unfolding Enrolling script_of_job.simps register_device_script_def bindS_assoc bindS_cases
    by (intro keeping_mapS) (auto intro!: script_intros keeping_ends intro: good_other_tables)
next
  case (Notifying f uid n)
  show ?thesis
    unfolding Notifying script_of_job.simps notify_script_def Let_def bindS_assoc bindS_cases
    by (intro keeping_mapS) (auto intro!: script_intros keeping_ends intro: good_other_tables)
qed

lemma jobs_well:
  "good R s \<Longrightarrow> list_all (job_ok R) js \<Longrightarrow> running_well (good R) (all_begin s (map (script_of_job e) js))"
  by (rule running_well_begin) (auto simp: list_all_iff intro: keeping_job)


text \<open>The deposit is confirmed twice at the same time, and the client withdraws and is blocked meanwhile.\<close>

definition busy_jobs :: "unit job list" where
  "busy_jobs = map Operation busy_operations @ [Setting_active 9 1 False]"


section \<open>Two decisions on one file\<close>

lemma wf_kyc_update_live:
  assumes "wf_kyc ks" "k \<in> set ks" "k_status k = KYC_PENDING" "\<And>q. k_id (f q) = k_id q" "\<And>q. k_user_id (f q) = k_user_id q"
  shows "wf_kyc (update_where (\<lambda>q. k_id q = k_id k) f ks)"
proof -
  have "distinct (map k_user_id (filter kyc_active (update_where (\<lambda>q. k_id q = k_id k) f ks)))"
  proof (rule distinct_filter_update)
    fix q assume "q \<in> set ks" "k_id q = k_id k"
    then have "q = k" using assms(1,2) by (auto simp: wf_kyc_def distinct_map inj_on_def)
    then show "kyc_active q" using assms(3) by (simp add: kyc_active_def)
  qed (use assms in \<open>simp_all add: wf_kyc_def\<close>)
  moreover have "map k_id (update_where P f ks) = map k_id ks" for P
    using assms(4) by (simp add: update_where_def)
  ultimately show ?thesis using assms(1) by (simp add: wf_kyc_def)
qed

definition rejection_note :: "string option \<Rightarrow> string" where
  "rejection_note reason = the (k_review_note (decided 0 False reason (new_submission 0 0 0 [] None)))"

lemma rejection_note_decided: "k_review_note (decided now False reason k) = Some (rejection_note reason)"
  by (simp add: rejection_note_def decided_def)

text \<open>C40: two administrators can decide one file in two ways. If one approves and another rejects a
  PENDING file at the same time, both can be told that it is done; the file is then APPROVED and carries
  the reason of the rejection, which the client is shown, because a decision does not look again at the
  status it read, and clears a note only if it read one.\<close>

theorem kyc_decisions_race:
  assumes "wf_db s" "k \<in> set (db_kyc s)" "k_status k = KYC_PENDING" "k_review_note k = None" "now1 \<noteq> k_updated_at k"
    and "find (\<lambda>u. u_id u = k_user_id k) (db_users s) = Some u"
  shows "\<exists>y. interleaved (all_begin s [kyc_decide_script now1 (k_id k) ''approve'' r1, kyc_decide_script now2 (k_id k) ''reject'' r2]) y \<and>
    running y = [Finish (Inr (Compte_verifie (u_full_name u))), Finish (Inr (Demande_rejetee (u_full_name u)))] \<and>
    filter (\<lambda>q. k_id q = k_id k) (db_kyc (store y)) =
      [k\<lparr>k_status := KYC_APPROVED, k_review_note := Some (rejection_note r2), k_updated_at := now1\<rparr>]"
proof -
  have wfk: "wf_kyc (db_kyc s)" using assms(1) by (simp add: wf_db_def)
  have rows: "filter (\<lambda>q. k_id q = k_id k) (db_kyc s) = [k]"
    using wfk by (intro filter_key_found assms(2)) (simp add: wf_kyc_def)
  define f1 where "f1 = decided_columns now1 True r1 k"
  define f2 where "f2 = decided_columns now2 False r2 k"
  define P where "P = (\<lambda>q :: kyc_row. k_id q = k_id k)"
  have keep: "k_id (f1 q) = k_id q" "k_user_id (f1 q) = k_user_id q" "k_id (f2 q) = k_id q" "k_user_id (f2 q) = k_user_id q" for q
    by (simp_all add: f1_def f2_def decided_columns_def Let_def)
  have both: "update_where P f1 (update_where P f2 ks) = update_where P (\<lambda>q. f1 (f2 q)) ks" for ks
    using keep by (induction ks) (auto simp: P_def)
  let ?s2 = "s\<lparr>db_kyc := update_where P f2 (db_kyc s)\<rparr>"
  let ?s1 = "s\<lparr>db_kyc := update_where P (\<lambda>q. f1 (f2 q)) (db_kyc s)\<rparr>"
  have up2: "kyc_update (k_id k) f2 s = Inr ?s2"
    using wf_kyc_update_live [OF wfk assms(2,3), of f2] keep by (simp add: kyc_update_Inr P_def)
  have up1: "kyc_update (k_id k) f1 ?s2 = Inr ?s1"
    using wf_kyc_update_live [OF wfk assms(2,3), of "\<lambda>q. f1 (f2 q)"] keep both [unfolded P_def]
    by (simp add: kyc_update_Inr P_def)
  let ?y0 = "all_begin s [kyc_decide_script now1 (k_id k) ''approve'' r1, kyc_decide_script now2 (k_id k) ''reject'' r2]"
  have fin: "turns [0, 1, 0, 1, 1, 1, 0, 0] ?y0 = \<lparr>store = ?s1, writer = None,
      running = [Finish (Inr (Compte_verifie (u_full_name u))), Finish (Inr (Demande_rejetee (u_full_name u)))]\<rparr>"
    using rows assms(3,6) up1 up2
    by (simp add: turns_def all_begin_def advance_def continue_with_def release_def others_write_def seen_by_def
        kyc_decide_script_def queryS_def execS_def statementS_def commitS_def one_or_noneS_def scalar_oneS_def retS_def
        flip: f1_def f2_def)
  have "filter P (update_where P (\<lambda>q. f1 (f2 q)) ks) = map (\<lambda>q. f1 (f2 q)) (filter P ks)" for ks
    using keep by (induction ks) (auto simp: P_def)
  then have "filter P (db_kyc ?s1) = [f1 (f2 k)]" using rows by (simp add: P_def)
  moreover have "f1 (f2 k) = k\<lparr>k_status := KYC_APPROVED, k_review_note := Some (rejection_note r2), k_updated_at := now1\<rparr>"
    using assms(3-5) rejection_note_decided [of now2 r2 k]
    by (simp add: f1_def f2_def decided_columns_def Let_def) (simp add: decided_def)
  ultimately show ?thesis
    using fin interleaved_turns [of ?y0 "[0, 1, 0, 1, 1, 1, 0, 0]"]
    by (intro exI [of _ "turns [0, 1, 0, 1, 1, 1, 0, 0] ?y0"]) (simp add: P_def)
qed

theorem kyc_decisions_race_witness:
  "\<exists>y. interleaved (all_begin (sample_db\<lparr>db_kyc := [sample_kyc]\<rparr>)
      [kyc_decide_script 7 70 ''approve'' None, kyc_decide_script 8 70 ''reject'' (Some ''flou'')]) y \<and>
    map k_status (db_kyc (store y)) \<noteq> [KYC_PENDING] \<and> length (running y) = 2"
proof -
  let ?s = "sample_db\<lparr>db_kyc := [sample_kyc]\<rparr>"
  have "wf_db ?s" by code_simp
  moreover have "sample_kyc \<in> set (db_kyc ?s)" "k_status sample_kyc = KYC_PENDING" "k_review_note sample_kyc = None"
    "7 \<noteq> k_updated_at sample_kyc" "k_id sample_kyc = 70"
    by (simp_all add: sample_kyc_def new_submission_def)
  moreover have "find (\<lambda>u. u_id u = k_user_id sample_kyc) (db_users ?s) = Some (sample_user 1 ''0701'' USER)" by code_simp
  ultimately obtain y where y: "interleaved (all_begin ?s
      [kyc_decide_script 7 70 ''approve'' None, kyc_decide_script 8 70 ''reject'' (Some ''flou'')]) y"
    "length (running y) = 2" "filter (\<lambda>q. k_id q = 70) (db_kyc (store y)) =
      [sample_kyc\<lparr>k_status := KYC_APPROVED, k_review_note := Some (rejection_note (Some ''flou'')), k_updated_at := 7\<rparr>]"
    using kyc_decisions_race [of ?s sample_kyc 7 "sample_user 1 ''0701'' USER" None 8 "Some ''flou''"] by auto
  have "map k_status (db_kyc (store y)) \<noteq> [KYC_PENDING]"
  proof
    assume "map k_status (db_kyc (store y)) = [KYC_PENDING]"
    with y(3) show False by (auto simp: Cons_eq_map_conv map_eq_Cons_conv split: if_splits)
  qed
  with y show ?thesis by blast
qed

end
