(* ===== verification/Config.thy ===== *)
theory Config
  imports Schemas AuthContract AdminContract
begin

text \<open>
  \<open>app/config.py\<close>: the settings of a deployment from the environment and the file \<open>.env\<close>, as
  pydantic-settings reads them: names in any case, the environment before the file, the file before
  the default, unknown names ignored; a field without default that is nowhere, or a text that is no
  integer, stops the service at its start. \<open>configured\<close> carries the settings into the environment of
  the routes.
\<close>

record settings =
  DATABASE_URL :: string
  JWT_SECRET_KEY :: string
  JWT_ALGORITHM :: string
  JWT_EXPIRE_MINUTES :: int
  ADMIN_BOOTSTRAP_SECRET :: string
  WEBHOOK_SECRET :: string
  SMS_LISTENER_TOKEN :: string
  WAVE_MERCHANT_PHONE :: string
  WAVE_MERCHANT_NAME :: string
  ORANGE_MERCHANT_PHONE :: string
  ORANGE_MERCHANT_NAME :: string
  APP_HOST :: string
  APP_PORT :: int
  KYC_MAX_IMAGE_BASE64_CHARS :: int
  FIREBASE_PROJECT_ID :: string
  FIREBASE_SERVICE_ACCOUNT_JSON :: string

type_synonym variables = "(string \<times> string) list"

definition variable :: "string \<Rightarrow> variables \<Rightarrow> string option" where
  \<comment> \<open>of two names that differ in case only the later one counts\<close>
  "variable name vs = map_of (rev (map (\<lambda>(k, x). (lower k, x)) vs)) (lower name)"

definition lookup_setting :: "variables \<Rightarrow> variables \<Rightarrow> string \<Rightarrow> string option" where
  "lookup_setting environ env_file name =
     (case variable name environ of Some x \<Rightarrow> Some x | None \<Rightarrow> variable name env_file)"

definition text_setting :: "variables \<Rightarrow> variables \<Rightarrow> string \<Rightarrow> string \<Rightarrow> string" where
  "text_setting environ env_file name d = (case lookup_setting environ env_file name of None \<Rightarrow> d | Some x \<Rightarrow> x)"

definition int_setting :: "variables \<Rightarrow> variables \<Rightarrow> string \<Rightarrow> int \<Rightarrow> int option" where
  "int_setting environ env_file name d =
     (case lookup_setting environ env_file name of None \<Rightarrow> Some d | Some x \<Rightarrow> int_of_text x)"

definition load_settings :: "variables \<Rightarrow> variables \<Rightarrow> settings option" where
  "load_settings environ env_file =
     (let required = lookup_setting environ env_file; text_of = text_setting environ env_file;
          int_of = int_setting environ env_file in
      and_then (required ''DATABASE_URL'') (\<lambda>url.
      and_then (required ''JWT_SECRET_KEY'') (\<lambda>key.
      and_then (int_of ''JWT_EXPIRE_MINUTES'' 43200) (\<lambda>minutes.
      and_then (required ''ADMIN_BOOTSTRAP_SECRET'') (\<lambda>secret.
      and_then (required ''WEBHOOK_SECRET'') (\<lambda>hook.
      and_then (required ''SMS_LISTENER_TOKEN'') (\<lambda>sms.
      and_then (int_of ''APP_PORT'' 8000) (\<lambda>port.
      and_then (int_of ''KYC_MAX_IMAGE_BASE64_CHARS'' 6000000) (\<lambda>chars.
      Some \<lparr>DATABASE_URL = url, JWT_SECRET_KEY = key, JWT_ALGORITHM = text_of ''JWT_ALGORITHM'' ''HS256'',
        JWT_EXPIRE_MINUTES = minutes, ADMIN_BOOTSTRAP_SECRET = secret, WEBHOOK_SECRET = hook,
        SMS_LISTENER_TOKEN = sms,
        WAVE_MERCHANT_PHONE = text_of ''WAVE_MERCHANT_PHONE'' ''+221770000000'',
        WAVE_MERCHANT_NAME = text_of ''WAVE_MERCHANT_NAME'' (''Ayak'' @ [CHR 0x27] @ ''bine Wave''),
        ORANGE_MERCHANT_PHONE = text_of ''ORANGE_MERCHANT_PHONE'' ''+221780000000'',
        ORANGE_MERCHANT_NAME = text_of ''ORANGE_MERCHANT_NAME'' (''Ayak'' @ [CHR 0x27] @ ''bine Orange''),
        APP_HOST = text_of ''APP_HOST'' ''0.0.0.0'', APP_PORT = port, KYC_MAX_IMAGE_BASE64_CHARS = chars,
        FIREBASE_PROJECT_ID = text_of ''FIREBASE_PROJECT_ID'' [],
        FIREBASE_SERVICE_ACCOUNT_JSON = text_of ''FIREBASE_SERVICE_ACCOUNT_JSON'' []\<rparr>)))))))))"

text \<open>\<open>lru_cache\<close>: what was loaded once is not loaded again, a failure is.\<close>

definition get_settings :: "variables \<Rightarrow> variables \<Rightarrow> settings option \<Rightarrow> settings option \<times> settings option" where
  "get_settings environ env_file cache =
     (case cache of Some c \<Rightarrow> (Some c, cache)
      | None \<Rightarrow> (load_settings environ env_file, load_settings environ env_file))"

lemma get_settings_cached:
  "get_settings environ env_file cache = (Some c, cache') \<Longrightarrow> get_settings environ' env_file' cache' = (Some c, cache')"
  by (auto simp: get_settings_def split: option.splits)

definition configured :: "settings \<Rightarrow> 'c env \<Rightarrow> 'c env" where
  "configured c v = v\<lparr>
     security_of := (security_of v)\<lparr>expire_minutes := nat (JWT_EXPIRE_MINUTES c), bootstrap_secret := ADMIN_BOOTSTRAP_SECRET c\<rparr>,
     fcm_of := (fcm_of v)\<lparr>project_id := FIREBASE_PROJECT_ID c, service_account_json := FIREBASE_SERVICE_ACCOUNT_JSON c\<rparr>,
     max_chars := nat (KYC_MAX_IMAGE_BASE64_CHARS c)\<rparr>"

text \<open>An empty bootstrap secret closes the wrong door. A variable that is set to nothing counts as
  set, so the service starts; every browser route of the administration then refuses whatever secret it
  is given, but the route that creates the first administrator accepts the empty secret from anyone, as
  long as there is no administrator and the number and the ids are new.\<close>

theorem empty_secret_opens_bootstrap:
  assumes "variable ''ADMIN_BOOTSTRAP_SECRET'' environ = Some []" "load_settings environ env_file = Some c"
    and "admins s = []" "length ph \<le> 20" "ph \<notin> u_phone_number ` set (db_users s)"
    and "i \<notin> u_id ` set (db_users s)" "j \<notin> w_id ` set (db_wallets s)" "i \<notin> w_user_id ` set (db_wallets s)"
    and "length (pwd_hash (security_of v) salt pin) \<le> 255"
  defines "e \<equiv> security_of (configured c v)"
  shows "check_secret e sec = http 403 Route_admin_non_configuree \<and>
    (\<exists>tok s'. request (bootstrap_admin e now salt i j ph pin []) s = (Inr tok, s') \<and> map u_id (admins s') = [i])"
proof -
  have secret: "bootstrap_secret e = []"
    using assms(1,2) unfolding e_def
    by (auto simp: load_settings_def Let_def and_then_Some lookup_setting_def configured_def)
  let ?u = "new_user now i ph ''Administrateur'' (hash_pin e salt pin) ADMIN"
  let ?s1 = "s\<lparr>db_users := db_users s @ [?u]\<rparr>"
  let ?s2 = "s\<lparr>db_users := db_users s @ [?u], db_wallets := db_wallets s @ [new_wallet now j i]\<rparr>"
  have ins: "users_insert ?u s = Inr ?s1"
    using assms(4-6,9) by (simp add: users_insert_Inr hash_pin_def e_def configured_def)
  moreover have "wallets_insert (new_wallet now j i) ?s1 = Inr ?s2"
    using assms(7,8) by (simp add: wallets_insert_Inr user_exists_iff)
  ultimately have "fst (request (bootstrap_admin e now salt i j ph pin []) s) \<noteq> Inl x \<and>
      snd (request (bootstrap_admin e now salt i j ph pin []) s) = ?s2" for x
    using assms(3) secret
    by (simp add: request_def bootstrap_admin_def admins_def bindP_def query_def statement_def exec_def commit_def
        one_or_none_def ret_def Let_def)
  moreover have "map u_id (admins ?s2) = [i]" using assms(3) by (simp add: admins_def)
  moreover have "check_secret e sec = http 403 Route_admin_non_configuree" using secret by (simp add: check_secret_def)
  ultimately show ?thesis
    by (cases "request (bootstrap_admin e now salt i j ph pin []) s"; cases "fst (request (bootstrap_admin e now salt i j ph pin []) s)") auto
qed

definition open_environ :: variables where
  "open_environ = [(''DATABASE_URL'', ''postgres://db''), (''jwt_secret_key'', ''k''), (''ADMIN_BOOTSTRAP_SECRET'', []),
     (''WEBHOOK_SECRET'', ''w''), (''SMS_LISTENER_TOKEN'', ''t''), (''APP_PORT'', ''9000'')]"

definition open_env :: "unit env" where
  "open_env = \<lparr>security_of = sample_security, fcm_of = sample_fcm, max_chars = 1000, today_start = 0\<rparr>"

theorem empty_secret_opens_bootstrap_witness:
  "case load_settings open_environ [] of None \<Rightarrow> False
   | Some c \<Rightarrow> \<exists>tok s'. request (bootstrap_admin (security_of (configured c open_env)) 7 5 3 60 ''0799'' ''1234'' []) empty_db = (Inr tok, s')"
proof -
  have "load_settings open_environ [] \<noteq> None" by code_simp
  then obtain c where c: "load_settings open_environ [] = Some c" by blast
  have "variable ''ADMIN_BOOTSTRAP_SECRET'' open_environ = Some []" by code_simp
  moreover have "length (pwd_hash (security_of open_env) 5 ''1234'') \<le> 255" by code_simp
  ultimately have "\<exists>tok s'. request (bootstrap_admin (security_of (configured c open_env)) 7 5 3 60 ''0799'' ''1234'' []) empty_db = (Inr tok, s')"
    using empty_secret_opens_bootstrap [of open_environ "[]" c empty_db "''0799''" 3 60 open_env 5 "''1234''" "[]" 7] c
    by (auto simp: empty_db_def admins_def)
  with c show ?thesis by simp
qed

end
