(* ===== verification/Pages.thy ===== *)
theory Pages
  imports AdminContract
begin

text \<open>
  The two pages that \<open>app/api_admin.py\<close> builds for the browser. A page is a list of pieces: a
  fixed part of the template, named by a label, or a text that is put between two of them. The
  texts of the fixed parts are the parameter of \<open>render\<close>.
\<close>

datatype piece = Markup string | Inserted string

definition render :: "(string \<Rightarrow> string) \<Rightarrow> piece list \<Rightarrow> string" where
  "render markup page = concat (map (\<lambda>p. case p of Markup l \<Rightarrow> markup l | Inserted x \<Rightarrow> x) page)"

section \<open>Amounts\<close>

text \<open>\<open>f"{Decimal(balance or 0):,.0f}"\<close> of hundredths: rounded half to even, with commas.\<close>

definition units_half_even :: "int \<Rightarrow> int" where
  "units_half_even c =
     (let q = \<bar>c\<bar> div 100; r = \<bar>c\<bar> mod 100; n = (if 50 < r \<or> r = 50 \<and> odd q then q + 1 else q)
      in if c < 0 then - n else n)"

fun group_thousands :: "nat \<Rightarrow> string" where
  "group_thousands n =
     (if n < 1000 then nat_str n
      else group_thousands (n div 1000) @ '','' @ (let d = nat_str (n mod 1000) in replicate (3 - length d) CHR ''0'' @ d))"

definition money_text :: "int \<Rightarrow> string" where
  "money_text c = (if c < 0 then ''-'' else []) @ group_thousands (nat \<bar>units_half_even c\<bar>)"

section \<open>The pages\<close>

definition kyc_badge :: "string \<Rightarrow> string" where
  "kyc_badge st =
     (if st = ''APPROVED'' then ''background:#16a34a;color:white;''
      else if st = ''PENDING'' then ''background:#eab308;color:#1a1a1a;''
      else if st = ''REJECTED'' then ''background:#dc2626;color:white;''
      else ''background:#e5e7eb;color:#444;'')"

definition kyc_text :: "kyc_state option \<Rightarrow> string" where
  "kyc_text k =
     (case k of None \<Rightarrow> ''NON SOUMIS'' | Some KYC_PENDING \<Rightarrow> ''PENDING'' | Some KYC_APPROVED \<Rightarrow> ''APPROVED''
      | Some KYC_REJECTED \<Rightarrow> ''REJECTED'')"

definition user_line :: "admin_user_out \<Rightarrow> piece list" where
  "user_line u =
     [Markup ''tr'', Inserted (au_full_name u), Markup ''phone'', Inserted (au_phone_number u), Markup ''role'', Inserted (au_role u),
      Markup ''balance'', Inserted (money_text (au_wallet_balance u)), Markup ''XOF'', Inserted (kyc_badge (kyc_text (au_kyc_status u))),
      Markup ''kyc'', Inserted (kyc_text (au_kyc_status u)), Markup ''status'',
      Markup (if au_is_active u then ''Actif'' else ''Desactive''), Markup ''/tr'']"

definition users_page :: "string \<Rightarrow> string option \<Rightarrow> admin_user_out list \<Rightarrow> piece list" where
  "users_page secret search rows =
     [Markup ''head'', Inserted (nat_str (length rows)), Markup ''kyc link'', Inserted secret, Markup ''form'', Inserted secret,
      Markup ''search'', Inserted (case search of None \<Rightarrow> [] | Some q \<Rightarrow> q), Markup ''table'']
     @ (if rows = [] then [Markup ''no user''] else concat (map user_line rows)) @ [Markup ''end'']"

text \<open>\<open>show_time\<close> is \<open>strftime\<close>, \<open>show_id\<close> the text of a UUID.\<close>

definition kyc_card :: "(timestamp \<Rightarrow> string) \<Rightarrow> (uuid \<Rightarrow> string) \<Rightarrow> string \<Rightarrow> kyc_row \<times> user_row \<Rightarrow> piece list" where
  "kyc_card show_time show_id secret ku =
     (case ku of (submission, user) \<Rightarrow>
       [Markup ''card'', Inserted (u_full_name user), Markup ''dash'', Inserted (u_phone_number user), Markup ''sent'',
        Inserted (show_time (k_created_at submission)), Markup ''img'', Inserted (k_id_document submission), Markup ''/img'']
       @ (case k_selfie submission of
            None \<Rightarrow> [Markup ''no selfie'']
          | Some x \<Rightarrow> if x = [] then [Markup ''no selfie''] else [Markup ''selfie'', Inserted x, Markup ''/selfie''])
       @ [Markup ''approve'', Inserted secret, Markup ''submission'', Inserted (show_id (k_id submission)), Markup ''reject'',
          Inserted secret, Markup ''submission'', Inserted (show_id (k_id submission)), Markup ''/card''])"

definition kyc_page :: "(timestamp \<Rightarrow> string) \<Rightarrow> (uuid \<Rightarrow> string) \<Rightarrow> string \<Rightarrow> (kyc_row \<times> user_row) list \<Rightarrow> piece list" where
  "kyc_page show_time show_id secret rows =
     [Markup ''kyc head'', Inserted secret, Markup ''kyc body'']
     @ (if rows = [] then [Markup ''none pending''] else concat (map (kyc_card show_time show_id secret) rows)) @ [Markup ''end'']"

definition users_html :: "(string \<Rightarrow> string) \<Rightarrow> security \<Rightarrow> string \<Rightarrow> string option \<Rightarrow> string prog" where
  "users_html markup e secret search =
     bindP (users_html_page e secret search) (\<lambda>rows. ret (render markup (users_page secret search rows)))"

definition kyc_html ::
  "(string \<Rightarrow> string) \<Rightarrow> (timestamp \<Rightarrow> string) \<Rightarrow> (uuid \<Rightarrow> string) \<Rightarrow> security \<Rightarrow> string \<Rightarrow> string prog" where
  "kyc_html markup show_time show_id e secret =
     bindP (kyc_pending_page e secret) (\<lambda>rows. ret (render markup (kyc_page show_time show_id secret rows)))"

section \<open>What comes out of what is put in\<close>

lemma render_append [simp]: "render m (p @ q) = render m p @ render m q"
  by (simp add: render_def)

lemma render_Cons [simp]: "render m (Markup l # p) = m l @ render m p" "render m (Inserted x # p) = x @ render m p" "render m [] = []"
  by (simp_all add: render_def)

lemma user_line_in_page:
  assumes "u \<in> set rows"
  shows "\<exists>a z. render m (users_page secret search rows) =
    a @ m ''kyc link'' @ secret @ m ''form'' @ z \<and>
    (\<exists>b y. z = b @ m ''tr'' @ au_full_name u @ m ''phone'' @ y)"
proof -
  from assms obtain us vs where rows: "rows = us @ u # vs" by (meson split_list)
  let ?b = "secret @ m ''search'' @ (case search of None \<Rightarrow> [] | Some q \<Rightarrow> q) @ m ''table'' @ render m (concat (map user_line us))"
  let ?y = "render m (drop 3 (user_line u) @ concat (map user_line vs) @ [Markup ''end''])"
  have line: "render m (user_line u) = m ''tr'' @ au_full_name u @ m ''phone'' @ render m (drop 3 (user_line u))"
    by (simp add: user_line_def)
  have "render m (users_page secret search rows) =
      (m ''head'' @ nat_str (length rows)) @ m ''kyc link'' @ secret @ m ''form'' @ (?b @ m ''tr'' @ au_full_name u @ m ''phone'' @ ?y)"
    by (simp add: users_page_def rows line)
  then show ?thesis by blast
qed

section \<open>Whoever registers writes on the administrator's page\<close>

lemma newest_is_first:
  assumes "r \<in> set t" "\<And>x. x \<in> set t \<Longrightarrow> x \<noteq> r \<Longrightarrow> c x < c r" "0 < n"
  shows "r \<in> set (take n (newest_first c t))"
proof -
  have ne: "t \<noteq> []" using assms(1) by auto
  then have ne': "newest_first c t \<noteq> []" by (metis length_0_conv length_ordered(2))
  then have "hd (newest_first c t) \<in> set t" by (metis hd_in_set set_ordered(2))
  moreover have "c r \<le> c (hd (newest_first c t))" by (rule newest_first_hd [OF ne assms(1)])
  ultimately have "hd (newest_first c t) = r" using assms(2) by fastforce
  with ne' assms(3) show ?thesis by (cases "newest_first c t"; cases n) auto
qed

lemma registered_user_listed:
  assumes "request (register e now salt i j b) s = (Inr tok, s')" "wf_db s" "list_all (\<lambda>u. u_created_at u < now) (db_users s)"
    and "rb_full_name b = Some name" "name \<noteq> []"
  shows "\<exists>u. u_full_name u = name \<and> (u, Some 0) \<in> set (users_matching None 500 0 s')"
  using assms(1)
proof (cases rule: register_cases)
  case (created p u)
  have name: "u_full_name u = name"
    using created(1,13) assms(4,5) by (auto simp: register_request_def split: if_splits)
  let ?wallets = "\<lambda>v. filter (\<lambda>w. w_user_id w = u_id v) (db_wallets s')"
  let ?rows = "concat (map (\<lambda>v. case ?wallets v of [] \<Rightarrow> [(v, None)] | ws \<Rightarrow> map (\<lambda>w. (v, Some (w_balance w))) ws) (db_users s'))"
  have wallet: "?wallets u = [new_wallet now j i]"
    using created(7,9,10) by (auto simp: filter_empty_conv new_wallet_def rev_image_eqI)
  have "u \<in> set (db_users s')" using created(10) by simp
  moreover have "(u, Some 0) \<in> set (case ?wallets u of [] \<Rightarrow> [(u, None)] | ws \<Rightarrow> map (\<lambda>w. (u, Some (w_balance w))) ws)"
    unfolding wallet by (simp add: new_wallet_def)
  ultimately have in_rows: "(u, Some 0) \<in> set ?rows" by (simp only: set_concat set_map) blast
  have line_of: "x = v" if "(x, o') \<in> set (case ?wallets v of [] \<Rightarrow> [(v, None)] | ws \<Rightarrow> map (\<lambda>w. (v, Some (w_balance w))) ws)" for x v o'
    using that by (cases "?wallets v") auto
  have own: "o' = Some 0" if "(u, o') \<in> set ?rows" for o'
  proof -
    from that obtain v where v: "(u, o') \<in> set (case ?wallets v of [] \<Rightarrow> [(v, None)] | ws \<Rightarrow> map (\<lambda>w. (v, Some (w_balance w))) ws)"
      by (simp only: set_concat set_map) blast
    have "v = u" using line_of [OF v] by simp
    from v have "(u, o') \<in> set (case ?wallets u of [] \<Rightarrow> [(u, None)] | ws \<Rightarrow> map (\<lambda>w. (u, Some (w_balance w))) ws)"
      unfolding \<open>v = u\<close> .
    then show ?thesis unfolding wallet by (simp add: new_wallet_def)
  qed
  have older: "u_created_at v < now" if "(v, o') \<in> set ?rows" "v \<noteq> u" for v o'
  proof -
    from that(1) obtain v' where "v' \<in> set (db_users s')"
      "(v, o') \<in> set (case ?wallets v' of [] \<Rightarrow> [(v', None)] | ws \<Rightarrow> map (\<lambda>w. (v', Some (w_balance w))) ws)"
      by (simp only: set_concat set_map) blast
    with line_of have "v \<in> set (db_users s')" by blast
    with that(2) created(10) assms(3) show ?thesis by (auto simp: list_all_iff)
  qed
  have "(u, Some 0) \<in> set (take 500 (newest_first (\<lambda>(v, o'). u_created_at v) ?rows))"
  proof (rule newest_is_first [OF in_rows])
    fix x assume "x \<in> set ?rows" "x \<noteq> (u, Some 0)"
    with own older created(12) show "(case x of (v, o') \<Rightarrow> u_created_at v) < (case (u, Some (0 :: int)) of (v, o') \<Rightarrow> u_created_at v)"
      by (cases x) fastforce
  qed simp
  with name show ?thesis by (auto simp: users_matching_def)
qed simp

lemma users_html_run:
  assumes "bootstrap_secret e \<noteq> []"
  shows "request (users_html m e (bootstrap_secret e) search) s =
    (Inr (render m (users_page (bootstrap_secret e) search
       (map (admin_user_of (kyc_map (map (u_id \<circ> fst) (users_matching search 500 0 s)) s)) (users_matching search 500 0 s)))), s)"
proof -
  let ?page = "render m (users_page (bootstrap_secret e) search
       (map (admin_user_of (kyc_map (map (u_id \<circ> fst) (users_matching search 500 0 s)) s)) (users_matching search 500 0 s)))"
  have "users_html m e (bootstrap_secret e) search (opened s) = (Inr ?page, opened s)"
    using assms by (simp add: users_html_def users_html_page_def check_secret_def runs)
  then show ?thesis by (simp add: request_def)
qed

text \<open>C26: names are markup. The page of users puts the names of the clients between its tags as they are.
  Anyone may register, with any name up to 120 characters; the next time that the administrator
  opens the page, the name stands in it verbatim, script tags included, beside the secret that
  opens all the administrator's pages.\<close>

theorem registered_name_is_markup:
  assumes "request (register e now salt i j b) s = (Inr tok, s')" "wf_db s" "list_all (\<lambda>u. u_created_at u < now) (db_users s)"
    and "rb_full_name b = Some name" "name \<noteq> []" "bootstrap_secret e \<noteq> []"
  shows "\<exists>before inside after. request (users_html m e (bootstrap_secret e) None) s' =
    (Inr (before @ m ''kyc link'' @ bootstrap_secret e @ m ''form'' @ inside @ m ''tr'' @ name @ m ''phone'' @ after), s')"
proof -
  from registered_user_listed [OF assms(1-5)] obtain u where u: "u_full_name u = name" "(u, Some 0) \<in> set (users_matching None 500 0 s')"
    by blast
  let ?f = "admin_user_of (kyc_map (map (u_id \<circ> fst) (users_matching None 500 0 s')) s')"
  have "?f (u, Some 0) \<in> set (map ?f (users_matching None 500 0 s'))" using u(2) by simp
  from user_line_in_page [OF this, of m "bootstrap_secret e" None] u(1) show ?thesis
    by (auto simp: users_html_run [OF assms(6)] admin_user_of_def Let_def)
qed

definition hostile_registration :: register_body where
  "hostile_registration = \<lparr>rb_phone_number = ''0705060708'', rb_full_name = Some ''<script src=//x></script>'', rb_pin_code = ''1234''\<rparr>"

theorem registered_name_is_markup_witness:
  "\<exists>before after. fst (request (users_html (\<lambda>l. ''['' @ l @ '']'') sample_security ''s3cret'' None)
      (snd (request (register sample_security 700 5 300 60 hostile_registration) sample_db))) =
    Inr (before @ ''<script src=//x></script>'' @ after)"
proof -
  let ?m = "request (register sample_security 700 5 300 60 hostile_registration) sample_db"
  have "case fst ?m of Inl x \<Rightarrow> False | Inr t \<Rightarrow> True" "list_all (\<lambda>u. u_created_at u < 700) (db_users sample_db)"
    "bootstrap_secret sample_security = ''s3cret''" by code_simp+
  then obtain tok where run: "?m = (Inr tok, snd ?m)" and *: "list_all (\<lambda>u. u_created_at u < 700) (db_users sample_db)"
    "bootstrap_secret sample_security = ''s3cret''"
    by (cases ?m) (auto split: sum.splits)
  from registered_name_is_markup [OF run wf_sample_db *(1), of "''<script src=//x></script>''" "\<lambda>l. ''['' @ l @ '']''"]
  obtain a b c where "request (users_html (\<lambda>l. ''['' @ l @ '']'') sample_security ''s3cret'' None) (snd ?m) =
     (Inr (a @ (''['' @ ''kyc link'' @ '']'') @ ''s3cret'' @ (''['' @ ''form'' @ '']'') @ b @ (''['' @ ''tr'' @ '']'') @ ''<script src=//x></script>'' @ (''['' @ ''phone'' @ '']'') @ c), snd ?m)"
    by (auto simp: *(2) hostile_registration_def)
  then show ?thesis
    by (metis append.assoc fst_conv)
qed

end
