(* ===== verification/Effects.thy ===== *)
theory Effects
  imports Prelude
begin

text \<open>
  Programs of the second generation of modules, which talk to several outside parties at once:
  functions from a state to an exception or a value and the next state, for any type of state.
  \<open>retrying\<close> is tenacity's \<open>retry\<close> decorator (the waits between attempts are left out).
\<close>

type_synonym ('s, 'e, 'a) eff = "'s \<Rightarrow> ('e + 'a) \<times> 's"

definition return :: "'a \<Rightarrow> ('s, 'e, 'a) eff" where
  "return x s = (Inr x, s)"

definition raise :: "'e \<Rightarrow> ('s, 'e, 'a) eff" where
  "raise e s = (Inl e, s)"

definition andThen :: "('s, 'e, 'a) eff \<Rightarrow> ('a \<Rightarrow> ('s, 'e, 'b) eff) \<Rightarrow> ('s, 'e, 'b) eff" where
  "andThen m k s = (case m s of (Inl e, s') \<Rightarrow> (Inl e, s') | (Inr x, s') \<Rightarrow> k x s')"

definition catching :: "('s, 'e, 'a) eff \<Rightarrow> ('e \<Rightarrow> ('s, 'e, 'a) eff) \<Rightarrow> ('s, 'e, 'a) eff" where
  "catching m h s = (case m s of (Inl e, s') \<Rightarrow> h e s' | (Inr x, s') \<Rightarrow> (Inr x, s'))"

definition gets :: "('s \<Rightarrow> 'a) \<Rightarrow> ('s, 'e, 'a) eff" where
  "gets f s = (Inr (f s), s)"

definition modify :: "('s \<Rightarrow> 's) \<Rightarrow> ('s, 'e, unit) eff" where
  "modify f s = (Inr (), f s)"

definition check :: "bool \<Rightarrow> 'e \<Rightarrow> ('s, 'e, unit) eff" where
  "check b e = (if b then return () else raise e)"

text \<open>The value of a partial computation, or the exception that its failure is.\<close>

definition value_or :: "'e \<Rightarrow> 'a option \<Rightarrow> ('s, 'e, 'a) eff" where
  "value_or e v = (case v of None \<Rightarrow> raise e | Some x \<Rightarrow> return x)"

lemmas eff_defs = return_def raise_def andThen_def catching_def gets_def modify_def check_def value_or_def

lemma andThen_cases:
  assumes "andThen m k s = (r, s')"
  obtains (stopped) e where "m s = (Inl e, s')" "r = Inl e"
  | (went_on) x s1 where "m s = (Inr x, s1)" "k x s1 = (r, s')"
  using assms by (auto simp: andThen_def split: prod.splits sum.splits)

text \<open>Another party's state inside a larger one.\<close>

definition zoom :: "('s \<Rightarrow> 't) \<Rightarrow> ('t \<Rightarrow> 's \<Rightarrow> 's) \<Rightarrow> ('t, 'e, 'a) eff \<Rightarrow> ('s, 'e, 'a) eff" where
  "zoom look put m s = (let (r, t) = m (look s) in (r, put t s))"

section \<open>Invariants\<close>

definition keeping :: "('s \<Rightarrow> bool) \<Rightarrow> ('s, 'e, 'a) eff \<Rightarrow> bool" where
  "keeping I m \<longleftrightarrow> (\<forall>s r s'. I s \<longrightarrow> m s = (r, s') \<longrightarrow> I s')"

named_theorems keeping_intros

lemma keepingD: "keeping I m \<Longrightarrow> m s = (r, s') \<Longrightarrow> I s \<Longrightarrow> I s'"
  by (auto simp: keeping_def)

lemma keeping_basic [keeping_intros]:
  "keeping I (return x)" "keeping I (raise e)" "keeping I (gets g)" "keeping I (check b e2)" "keeping I (value_or e3 v)"
  "(\<And>s. I s \<Longrightarrow> I (f s)) \<Longrightarrow> keeping I (modify f)"
  by (auto simp: keeping_def eff_defs split: option.splits if_splits)

lemma keeping_andThen [keeping_intros]:
  assumes "keeping I m" "\<And>x. keeping I (k x)"
  shows "keeping I (andThen m k)"
  unfolding keeping_def
proof (intro allI impI)
  fix s r s' assume "I s" "andThen m k s = (r, s')"
  from this(2,1) show "I s'"
    by (cases rule: andThen_cases) (auto dest: keepingD [OF assms(1)] keepingD [OF assms(2)])
qed

lemma keeping_catching [keeping_intros]:
  assumes "keeping I m" "\<And>e. keeping I (h e)"
  shows "keeping I (catching m h)"
  unfolding keeping_def
proof (intro allI impI)
  fix s r s' assume I: "I s" and run: "catching m h s = (r, s')"
  obtain q s1 where q: "m s = (q, s1)" by fastforce
  from keepingD [OF assms(1) q I] have "I s1" .
  with run q show "I s'"
    by (cases q) (auto simp: catching_def dest: keepingD [OF assms(2)])
qed

section \<open>Retries\<close>

fun retrying :: "nat \<Rightarrow> ('e \<Rightarrow> bool) \<Rightarrow> ('s, 'e, 'a) eff \<Rightarrow> ('s, 'e, 'a) eff" where
  "retrying 0 again m s = m s"
| "retrying (Suc n) again m s =
     (case m s of
        (Inl e, s') \<Rightarrow> if again e then retrying n again m s' else (Inl e, s')
      | (Inr x, s') \<Rightarrow> (Inr x, s'))"

lemma keeping_retrying [keeping_intros]: "keeping I m \<Longrightarrow> keeping I (retrying n again m)"
  unfolding keeping_def
proof (intro allI impI)
  fix s r s' assume m: "\<forall>s r s'. I s \<longrightarrow> m s = (r, s') \<longrightarrow> I s'"
  assume "I s" "retrying n again m s = (r, s')"
  then show "I s'"
  proof (induction n arbitrary: s)
    case 0
    with m show ?case by auto
  next
    case (Suc n)
    obtain q s1 where q: "m s = (q, s1)" by fastforce
    with m Suc.prems(1) have "I s1" by blast
    with Suc q show ?case by (auto split: sum.splits if_splits)
  qed
qed

text \<open>What a retried call comes to: a first attempt that is final, or failures up to one.\<close>

inductive attempts :: "('e \<Rightarrow> bool) \<Rightarrow> ('s, 'e, 'a) eff \<Rightarrow> nat \<Rightarrow> 's \<Rightarrow> 'e + 'a \<Rightarrow> 's \<Rightarrow> bool" for again m where
  last: "m s = (r, s') \<Longrightarrow> attempts again m 1 s r s'"
| more: "m s = (Inl e, s1) \<Longrightarrow> again e \<Longrightarrow> attempts again m n s1 r s' \<Longrightarrow> attempts again m (Suc n) s r s'"

lemma retrying_attempts:
  assumes "retrying n again m s = (r, s')"
  shows "\<exists>k \<le> Suc n. attempts again m k s r s' \<and> (\<forall>e. r = Inl e \<and> again e \<longrightarrow> k = Suc n)"
  using assms
proof (induction n arbitrary: s)
  case 0
  then show ?case by (intro exI [of _ 1]) (auto intro: attempts.last [unfolded One_nat_def])
next
  case (Suc n)
  obtain q s1 where q: "m s = (q, s1)" by fastforce
  show ?case
  proof (cases "\<exists>e. q = Inl e \<and> again e")
    case True
    then obtain e where e: "q = Inl e" "again e" by blast
    with Suc.prems q have "retrying n again m s1 = (r, s')" by simp
    from Suc.IH [OF this] obtain k where "k \<le> Suc n" "attempts again m k s1 r s'" "\<forall>e. r = Inl e \<and> again e \<longrightarrow> k = Suc n"
      by blast
    with q e show ?thesis by (intro exI [of _ "Suc k"]) (auto intro: attempts.more)
  next
    case False
    with Suc.prems q have "r = q" "s' = s1" by (auto split: sum.splits)
    with q False show ?thesis by (intro exI [of _ 1]) (auto intro: attempts.last [unfolded One_nat_def])
  qed
qed

end
