(* ===== verification/Jeko.thy ===== *)
theory Jeko
  imports Effects Decimal
begin

text \<open>
  \<open>app/services/jeko_client.py\<close>: the client of the JEKO payment API. The server is a parameter,
  a function from a request and the server's state to an answer; what is sent is logged in
  \<open>sent\<close>. Network failures and 5xx answers are retried, three attempts in all; an answer 4xx is
  not.
\<close>

section \<open>The server\<close>

datatype http_content = No_content | Not_json | Content json

datatype http_answer =
    Unreachable                      \<comment> \<open>ConnectError, ReadTimeout, WriteTimeout, ConnectTimeout\<close>
  | Other_httpx_error
  | Answered nat http_content

record http_request =
  rq_method :: string
  rq_path :: string
  rq_body :: "json option"

record 'j wire =
  server :: 'j
  sent :: "http_request list"

record 'j jeko_env =
  jeko_store_id :: string
  public_base_url :: string
  answer_to :: "http_request \<Rightarrow> 'j \<Rightarrow> http_answer \<times> 'j"
  str_of :: "json \<Rightarrow> string"         \<comment> \<open>\<open>str()\<close> of a value read from JSON\<close>

datatype fault =
    Jeko_api_error nat json
  | Jeko_network_error
  | Httpx_error
  | Json_decode_error
  | Attribute_error
  | Type_error
  | Decimal_error
  | Key_error
  | Multiple_results
  | Wallet_fault nat
  | Lock_refused
  | Already_processed string
  | Not_found string
  | Unknown_for_reconciliation string
  | Push_database_error
  | Http_error nat string

fun is_jeko_error :: "fault \<Rightarrow> bool" where
  "is_jeko_error (Jeko_api_error c j) = True"
| "is_jeko_error Jeko_network_error = True"
| "is_jeko_error _ = False"

section \<open>Requests\<close>

definition PAYMENT_METHOD_FOR_DEPOSIT :: "(string \<times> string) list" where
  "PAYMENT_METHOD_FOR_DEPOSIT =
     [(''WAVE'', ''wave''), (''ORANGE'', ''orange''), (''MTN'', ''mtn''), (''MOOV'', ''moov'')]"

definition PAYMENT_METHOD_FOR_TRANSFER :: "(string \<times> string) list" where
  "PAYMENT_METHOD_FOR_TRANSFER =
     [(''WAVE'', ''wave''), (''ORANGE'', ''orange_money''), (''MTN'', ''mtn''), (''MOOV'', ''moov'')]"

definition payment_method :: "(string \<times> string) list \<Rightarrow> string \<Rightarrow> string" where
  "payment_method table operator =
     (case map_of table (upper operator) of None \<Rightarrow> lower operator | Some m \<Rightarrow> m)"

definition amount_to_cents :: "decimal \<Rightarrow> int option" where
  "amount_to_cents amount = map_option coef (quantize_unit (dec_mul amount (Dec 100 0)))"

definition send_request :: "'j jeko_env \<Rightarrow> http_request \<Rightarrow> ('j wire, fault, http_answer) eff" where
  "send_request k rq w =
     (let (a, j) = answer_to k rq (server w) in (Inr a, w\<lparr>server := j, sent := sent w @ [rq]\<rparr>))"

definition read_answer :: "http_answer \<Rightarrow> fault + json" where
  "read_answer a =
     (case a of
        Unreachable \<Rightarrow> Inl Jeko_network_error
      | Other_httpx_error \<Rightarrow> Inl Httpx_error
      | Answered code content \<Rightarrow>
          if 500 \<le> code then Inl Jeko_network_error
          else
            (case (case content of No_content \<Rightarrow> Some (JObj []) | Not_json \<Rightarrow> None | Content j \<Rightarrow> Some j) of
               None \<Rightarrow> Inl Json_decode_error
             | Some data \<Rightarrow> if 400 \<le> code then Inl (Jeko_api_error code data) else Inr data))"

definition request_once :: "'j jeko_env \<Rightarrow> http_request \<Rightarrow> ('j wire, fault, json) eff" where
  "request_once k rq = andThen (send_request k rq) (\<lambda>a w. (read_answer a, w))"

definition jeko_request :: "'j jeko_env \<Rightarrow> string \<Rightarrow> string \<Rightarrow> json option \<Rightarrow> ('j wire, fault, json) eff" where
  "jeko_request k method path body =
     retrying 2 (\<lambda>e. e = Jeko_network_error)
       (request_once k \<lparr>rq_method = method, rq_path = path, rq_body = body\<rparr>)"

section \<open>Operations\<close>

definition deposit_body :: "'j jeko_env \<Rightarrow> string \<Rightarrow> int \<Rightarrow> string \<Rightarrow> string \<Rightarrow> json" where
  "deposit_body k reference c operator phone_number =
     JObj [(''storeId'', JStr (jeko_store_id k)), (''amountCents'', JNum (of_int c)),
       (''currency'', JStr ''XOF''), (''reference'', JStr reference),
       (''paymentDetails'', JObj [(''type'', JStr ''redirect''), (''data'', JObj
          [(''paymentMethod'', JStr (payment_method PAYMENT_METHOD_FOR_DEPOSIT operator)),
           (''forceProviderDirect'', JBool True), (''payerPhone'', JStr phone_number),
           (''successUrl'', JStr (public_base_url k @ ''/api/v1/webhooks/jeko/redirect-success'')),
           (''errorUrl'', JStr (public_base_url k @ ''/api/v1/webhooks/jeko/redirect-error''))])])]"

definition create_deposit_payment_request ::
  "'j jeko_env \<Rightarrow> string \<Rightarrow> decimal \<Rightarrow> string \<Rightarrow> string \<Rightarrow> ('j wire, fault, json) eff" where
  "create_deposit_payment_request k internal_reference amount operator phone_number =
     andThen (value_or Decimal_error (amount_to_cents amount)) (\<lambda>cents.
     jeko_request k ''POST'' ''/partner_api/payment_requests''
       (Some (deposit_body k internal_reference cents operator phone_number)))"

definition get_payment_request_status :: "'j jeko_env \<Rightarrow> json \<Rightarrow> ('j wire, fault, json) eff" where
  "get_payment_request_status k i = jeko_request k ''GET'' (''/partner_api/payment_requests/'' @ str_of k i) None"

definition withdrawal_body :: "'j jeko_env \<Rightarrow> string \<Rightarrow> int \<Rightarrow> string \<Rightarrow> string \<Rightarrow> string \<Rightarrow> json" where
  "withdrawal_body k reference c operator phone_number beneficiary_name =
     JObj [(''storeId'', JStr (jeko_store_id k)), (''name'', JStr beneficiary_name),
       (''paymentMethod'', JStr (payment_method PAYMENT_METHOD_FOR_TRANSFER operator)),
       (''identifier'', JObj [(''reference'', JStr phone_number)]),
       (''amountCents'', JNum (of_int c)), (''currency'', JStr ''XOF''),
       (''description'', JStr ''Retrait Wallet applicatif''), (''reference'', JStr reference)]"

definition create_withdrawal_transfer ::
  "'j jeko_env \<Rightarrow> string \<Rightarrow> decimal \<Rightarrow> string \<Rightarrow> string \<Rightarrow> string \<Rightarrow> ('j wire, fault, json) eff" where
  "create_withdrawal_transfer k internal_reference amount operator phone_number beneficiary_name =
     andThen (value_or Decimal_error (amount_to_cents amount)) (\<lambda>cents.
     jeko_request k ''POST'' ''/partner_api/transfers''
       (Some (withdrawal_body k internal_reference cents operator phone_number beneficiary_name)))"

definition get_transfer_status :: "'j jeko_env \<Rightarrow> json \<Rightarrow> ('j wire, fault, json) eff" where
  "get_transfer_status k i = jeko_request k ''GET'' (''/partner_api/transfers/'' @ str_of k i) None"

definition get_store_balance :: "'j jeko_env \<Rightarrow> ('j wire, fault, json) eff" where
  "get_store_balance k = jeko_request k ''GET'' (''/partner_api/stores/'' @ jeko_store_id k @ ''/balance'') None"

text \<open>\<open>d.get(key)\<close> of an answer; an answer that is no object has no such method.\<close>

definition answer_get :: "json \<Rightarrow> string \<Rightarrow> fault + json" where
  "answer_get d key =
     (case d of JObj kvs \<Rightarrow> Inr (case jget kvs key of None \<Rightarrow> JNull | Some v \<Rightarrow> v) | _ \<Rightarrow> Inl Attribute_error)"

section \<open>What a request costs\<close>

lemma attempts_sent:
  assumes "attempts again (request_once k rq) n w r w'"
  shows "sent w' = sent w @ replicate n rq"
  using assms
proof (induction rule: attempts.induct)
  case (more s e s1 n r s')
  then have "sent s1 = sent s @ [rq]"
    by (auto simp: request_once_def send_request_def andThen_def split: prod.splits)
  with more.IH show ?case by (simp add: replicate_append_same [symmetric])
qed (auto simp: request_once_def send_request_def andThen_def split: prod.splits)

lemma jeko_request_sent:
  assumes "jeko_request k m p b w = (r, w')"
  shows "\<exists>n. 1 \<le> n \<and> n \<le> 3 \<and> sent w' = sent w @ replicate n \<lparr>rq_method = m, rq_path = p, rq_body = b\<rparr> \<and>
    (r = Inl Jeko_network_error \<longrightarrow> n = 3)"
proof -
  from retrying_attempts [OF assms [unfolded jeko_request_def]] obtain n where
    n: "n \<le> 3" "attempts (\<lambda>e. e = Jeko_network_error) (request_once k \<lparr>rq_method = m, rq_path = p, rq_body = b\<rparr>) n w r w'"
      "\<forall>e. r = Inl e \<and> e = Jeko_network_error \<longrightarrow> n = 3" by auto
  from n(2) have "1 \<le> n" by cases simp_all
  with n attempts_sent [OF n(2)] show ?thesis by auto
qed

lemma read_answer_error: "read_answer a = Inl Jeko_network_error \<longleftrightarrow>
    a = Unreachable \<or> (\<exists>c x. a = Answered c x \<and> 500 \<le> c)"
  by (auto simp: read_answer_def split: http_answer.splits http_content.splits)

text \<open>JEKO is asked at most three times. A request to JEKO is sent between one and three times,
  always the same; it is repeated only after a failure of the network or a 5xx answer, so an
  answer that counts at the first attempt is the result and the request was sent once; and it
  ends as a network error only after three attempts.\<close>

theorem jeko_request_bounded:
  assumes "jeko_request k m p b w = (r, w')"
  shows "\<exists>n. 1 \<le> n \<and> n \<le> 3 \<and> sent w' = sent w @ replicate n \<lparr>rq_method = m, rq_path = p, rq_body = b\<rparr> \<and>
    (r = Inl Jeko_network_error \<longrightarrow> n = 3) \<and>
    (read_answer (fst (answer_to k \<lparr>rq_method = m, rq_path = p, rq_body = b\<rparr> (server w))) \<noteq> Inl Jeko_network_error \<longrightarrow>
      n = 1 \<and> r = read_answer (fst (answer_to k \<lparr>rq_method = m, rq_path = p, rq_body = b\<rparr> (server w))))"
proof -
  let ?rq = "\<lparr>rq_method = m, rq_path = p, rq_body = b\<rparr>"
  let ?a = "fst (answer_to k ?rq (server w))"
  from jeko_request_sent [OF assms] obtain n where n: "1 \<le> n" "n \<le> 3" "sent w' = sent w @ replicate n ?rq"
    "r = Inl Jeko_network_error \<longrightarrow> n = 3" by blast
  have "n = 1 \<and> r = read_answer ?a" if final: "read_answer ?a \<noteq> Inl Jeko_network_error"
  proof -
    have once: "request_once k ?rq w = (read_answer ?a, w\<lparr>server := snd (answer_to k ?rq (server w)), sent := sent w @ [?rq]\<rparr>)"
      by (simp add: request_once_def send_request_def andThen_def split: prod.splits)
    with assms final have "r = read_answer ?a" "sent w' = sent w @ [?rq]"
      by (auto simp: jeko_request_def numeral_2_eq_2 split: sum.splits if_splits)
    with n(1,3) show ?thesis by (cases n) (auto simp: replicate_append_same [symmetric])
  qed
  with n show ?thesis by blast
qed

text \<open>A server that is down for two requests and then refuses.\<close>

definition flaky_jeko :: "nat jeko_env" where
  "flaky_jeko = \<lparr>jeko_store_id = ''st'', public_base_url = ''https://x'',
     answer_to = (\<lambda>rq n. if n < 2 then (Answered 503 No_content, Suc n) else (Answered 422 (Content (JObj [])), Suc n)),
     str_of = (\<lambda>j. [])\<rparr>"

theorem jeko_request_bounded_witness:
  "\<exists>n \<le> 3. length (sent (snd (get_store_balance flaky_jeko \<lparr>server = 0, sent = []\<rparr>))) = n \<and>
     fst (get_store_balance flaky_jeko \<lparr>server = 0, sent = []\<rparr>) = Inl (Jeko_api_error 422 (JObj []))"
proof -
  have "fst (get_store_balance flaky_jeko \<lparr>server = 0, sent = []\<rparr>) = Inl (Jeko_api_error 422 (JObj []))"
    by code_simp
  with jeko_request_bounded [OF prod.collapse [symmetric], of flaky_jeko "''GET''"
      "''/partner_api/stores/'' @ jeko_store_id flaky_jeko @ ''/balance''" None "\<lparr>server = 0, sent = []\<rparr>"]
  show ?thesis by (auto simp: get_store_balance_def)
qed

end
