(* ===== verification/FeeRules.thy ===== *)
theory FeeRules
  imports Decimal
begin

text \<open>
  \<open>app/services/fee_rules.py\<close>. The operators are members of an enumeration that is not in the
  repository; a member stands here as its name, and the tables are looked up by it. \<open>None\<close> is
  the exception of \<open>quantize\<close> (more than 28 digits) or of a missing key.
\<close>

definition PLATFORM_FEE_RATE :: decimal where "PLATFORM_FEE_RATE = Dec 8 (-2)"
definition MIN_TRANSFER_AMOUNT :: decimal where "MIN_TRANSFER_AMOUNT = Dec 250 0"
definition MAX_TRANSFER_AMOUNT :: decimal where "MAX_TRANSFER_AMOUNT = Dec 30000 0"

definition JEKO_DEPOSIT_FEE_RATE :: "(string \<times> decimal) list" where
  "JEKO_DEPOSIT_FEE_RATE =
     [(''WAVE'', Dec 15 (-3)), (''ORANGE'', Dec 1 (-2)), (''MTN'', Dec 1 (-2)), (''MOOV'', Dec 1 (-2))]"

definition JEKO_PAYOUT_FEE_RATE :: "(string \<times> decimal) list" where
  "JEKO_PAYOUT_FEE_RATE =
     [(''WAVE'', Dec 15 (-3)), (''ORANGE'', Dec 1 (-2)), (''MTN'', Dec 1 (-2)), (''MOOV'', Dec 1 (-2))]"

definition compute_platform_fee :: "decimal \<Rightarrow> decimal option" where
  "compute_platform_fee net_amount = quantize_unit (dec_mul net_amount PLATFORM_FEE_RATE)"

definition compute_total_to_collect :: "decimal \<Rightarrow> decimal option" where
  "compute_total_to_collect net_amount = map_option (dec_add net_amount) (compute_platform_fee net_amount)"

definition compute_wallet_credit_on_payout_failure :: "decimal \<Rightarrow> string \<Rightarrow> decimal option" where
  "compute_wallet_credit_on_payout_failure total_collected source_operator =
     (case map_of JEKO_DEPOSIT_FEE_RATE source_operator of
        None \<Rightarrow> None
      | Some deposit_fee_rate \<Rightarrow>
          map_option (dec_sub total_collected) (quantize_unit (dec_mul total_collected deposit_fee_rate)))"

section \<open>Whole amounts\<close>

text \<open>XOF amounts are whole; a rate is given with two or three digits.\<close>

lemma rate_of_whole:
  assumes n: "0 \<le> n" "n < 10 ^ 25" and c: "0 \<le> c" "c \<le> 10 ^ k" and k: "k = 2 \<or> k = 3"
  shows "quantize_unit (dec_mul (Dec n 0) (Dec c (- int k))) =
    Some (Dec (round_half_away (of_int n * dec_val (Dec c (- int k)))) 0)"
    and "0 \<le> round_half_away (of_int n * dec_val (Dec c (- int k)))"
    and "round_half_away (of_int n * dec_val (Dec c (- int k))) \<le> n"
proof -
  let ?x = "of_int n * dec_val (Dec c (- int k))"
  have le: "n * c \<le> n * 10 ^ k" using n c by (intro mult_left_mono) auto
  have nc: "0 \<le> n * c" using n c by simp
  have small: "\<bar>n * c\<bar> < 10 ^ PREC" using n nc le k by (auto simp: PREC_def)
  have val: "dec_val (dec_mul (Dec n 0) (Dec c (- int k))) = ?x"
    using small by (subst dec_val_mul) (auto simp: dec_val_def)
  have r: "0 \<le> dec_val (Dec c (- int k))" "dec_val (Dec c (- int k)) \<le> 1"
  proof -
    have "(of_int c :: rat) \<le> of_int (10 ^ k)" using c by (simp only: of_int_le_iff)
    then show "dec_val (Dec c (- int k)) \<le> 1" "0 \<le> dec_val (Dec c (- int k))"
      using c k by (auto simp: dec_val_def)
  qed
  have pos: "0 \<le> ?x" using n r by simp
  then show lo: "0 \<le> round_half_away ?x" by (rule round_half_away_nonneg)
  have "?x \<le> of_int n" using n r mult_left_le [of "dec_val (Dec c (- int k))" "of_int n"] by simp
  from round_half_away_mono [OF pos this] show hi: "round_half_away ?x \<le> n" by simp
  show "quantize_unit (dec_mul (Dec n 0) (Dec c (- int k))) = Some (Dec (round_half_away ?x) 0)"
    using lo hi n by (simp add: quantize_unit_alt val Let_def PREC_def)
qed

lemma whole_sum: "\<bar>a + b\<bar> < 10 ^ PREC \<Longrightarrow> dec_add (Dec a 0) (Dec b 0) = Dec (a + b) 0"
  by (simp add: dec_add_def dec_fix_exact nat_less_iff)

lemma whole_diff: "\<bar>a - b\<bar> < 10 ^ PREC \<Longrightarrow> dec_sub (Dec a 0) (Dec b 0) = Dec (a - b) 0"
  using whole_sum [of a "- b"] by (simp add: dec_sub_def)

text \<open>C38: the fees of a transfer. On a whole amount the platform's fee is 8 percent rounded half up to
  the unit and the client is asked for amount plus fee; when the pay-out fails, what comes back
  is that total less JEKO's commission at the source operator's rate, rounded the same way: never
  more than was collected and, from the smallest transfer on, never less than the amount that
  was to be sent.\<close>

theorem transfer_fees:
  assumes "250 \<le> n" "n < 10 ^ 24" "map_of JEKO_DEPOSIT_FEE_RATE operator = Some rate"
  shows "\<exists>fee back. compute_platform_fee (Dec n 0) = Some (Dec fee 0) \<and>
    compute_total_to_collect (Dec n 0) = Some (Dec (n + fee) 0) \<and>
    compute_wallet_credit_on_payout_failure (Dec (n + fee) 0) operator = Some (Dec back 0) \<and>
    fee = round_half_away (of_int n * 8 / 100) \<and>
    back = n + fee - round_half_away (of_int (n + fee) * dec_val rate) \<and> n \<le> back \<and> back \<le> n + fee"
proof -
  define fee where "fee = round_half_away (of_int n * 8 / 100)"
  have r8: "PLATFORM_FEE_RATE = Dec 8 (- int 2)" "dec_val (Dec 8 (- int 2)) = 8 / 100"
    by (simp_all add: PLATFORM_FEE_RATE_def dec_val_def)
  have n: "0 \<le> n" "n < 10 ^ 25" using assms(1,2) by simp_all
  have fee: "compute_platform_fee (Dec n 0) = Some (Dec fee 0)" "0 \<le> fee" "fee \<le> n"
    using rate_of_whole [OF n, of 8 2] unfolding compute_platform_fee_def r8 fee_def by (simp_all add: mult.commute)
  have tot: "compute_total_to_collect (Dec n 0) = Some (Dec (n + fee) 0)"
    using fee n assms(2) by (simp add: compute_total_to_collect_def whole_sum PREC_def)
  from assms(3) obtain c k where rate: "rate = Dec c (- int k)" "0 \<le> c" "c \<le> 10 ^ k" "k = 2 \<or> k = 3"
    and r: "dec_val rate \<le> 15 / 1000" "0 \<le> dec_val rate"
    by (auto simp: JEKO_DEPOSIT_FEE_RATE_def dec_val_def split: if_splits
        intro: that [of 15 3] that [of 1 2])
  have m: "0 \<le> n + fee" "n + fee < 10 ^ 25" using n fee assms(2) by simp_all
  define jeko where "jeko = round_half_away (of_int (n + fee) * dec_val rate)"
  have j: "quantize_unit (dec_mul (Dec (n + fee) 0) rate) = Some (Dec jeko 0)" "0 \<le> jeko" "jeko \<le> n + fee"
    using rate_of_whole [OF m rate(2-4)] unfolding jeko_def rate(1) by simp_all
  have refund: "compute_wallet_credit_on_payout_failure (Dec (n + fee) 0) operator = Some (Dec (n + fee - jeko) 0)"
    using j m by (simp add: compute_wallet_credit_on_payout_failure_def assms(3) whole_diff PREC_def)
  have "jeko \<le> fee"
  proof -
    have "of_int (n + fee) * dec_val rate \<le> of_int (n + fee) * (15 / 1000)"
      using m r by (intro mult_left_mono) simp_all
    moreover have "(of_int jeko :: rat) \<le> of_int (n + fee) * dec_val rate + 1/2"
      unfolding jeko_def by (rule round_half_away_bounds)
    moreover have "of_int n * 8 / 100 - 1/2 \<le> (of_int fee :: rat)"
      unfolding fee_def by (rule round_half_away_bounds)
    moreover have "(250 :: rat) \<le> of_int n" using assms(1) by linarith
    ultimately have "(of_int jeko :: rat) \<le> of_int fee" by simp
    then show ?thesis by (simp only: of_int_le_iff)
  qed
  with fee tot refund j show ?thesis by (intro exI [of _ fee] exI [of _ "n + fee - jeko"]) (simp add: fee_def jeko_def)
qed

theorem transfer_fees_witness:
  "compute_total_to_collect (Dec 250 0) = Some (Dec 270 0) \<and>
   compute_wallet_credit_on_payout_failure (Dec 270 0) ''WAVE'' = Some (Dec 266 0)"
proof -
  have rate: "map_of JEKO_DEPOSIT_FEE_RATE ''WAVE'' = Some (Dec 15 (-3))" by code_simp
  have "round_half_away (of_int 250 * 8 / 100) = 20" "round_half_away (of_int (250 + 20) * dec_val (Dec 15 (-3))) = 4"
    by code_simp+
  with transfer_fees [OF _ _ rate, of 250] show ?thesis by auto
qed

end
