(* ===== verification/Redis.thy ===== *)
theory Redis
  imports DecimalText
begin

text \<open>
  The part of Redis that the code uses: string values under string keys, each with an optional
  time of expiry. The locale states what the clients rely on; its interpretation below is the
  only instance.
\<close>

type_synonym redis = "string \<Rightarrow> (string \<times> nat option) option"

definition redis_get :: "nat \<Rightarrow> string \<Rightarrow> redis \<Rightarrow> string option" where
  "redis_get now k r =
     (case r k of
        None \<Rightarrow> None
      | Some (v, None) \<Rightarrow> Some v
      | Some (v, Some t) \<Rightarrow> if now < t then Some v else None)"

definition redis_set :: "nat \<Rightarrow> string \<Rightarrow> string \<Rightarrow> nat option \<Rightarrow> redis \<Rightarrow> redis" where
  "redis_set now k v ttl r = r(k := Some (v, map_option ((+) now) ttl))"

definition redis_delete :: "string \<Rightarrow> redis \<Rightarrow> redis" where
  "redis_delete k r = r(k := None)"

text \<open>\<open>SET key value NX EX ttl\<close>: the answer says whether the key was set.\<close>

definition redis_set_nx :: "nat \<Rightarrow> string \<Rightarrow> string \<Rightarrow> nat \<Rightarrow> redis \<Rightarrow> bool \<times> redis" where
  "redis_set_nx now k v ttl r =
     (if redis_get now k r = None then (True, redis_set now k v (Some ttl) r) else (False, r))"

definition redis_expire :: "nat \<Rightarrow> string \<Rightarrow> nat \<Rightarrow> redis \<Rightarrow> redis" where
  "redis_expire now k ttl r =
     (case redis_get now k r of None \<Rightarrow> r | Some v \<Rightarrow> redis_set now k v (Some ttl) r)"

text \<open>\<open>INCR\<close> on a counter: a missing key counts from 0, the time of expiry stays.\<close>

definition redis_incr :: "nat \<Rightarrow> string \<Rightarrow> redis \<Rightarrow> redis" where
  "redis_incr now k r =
     (case redis_get now k r of
        None \<Rightarrow> redis_set now k ''1'' None r
      | Some v \<Rightarrow> r(k := Some (nat_str (Suc (digits_val v)), snd (the (r k)))))"

locale expiring_store =
  fixes get :: "nat \<Rightarrow> string \<Rightarrow> 's \<Rightarrow> string option"
    and put :: "nat \<Rightarrow> string \<Rightarrow> string \<Rightarrow> nat option \<Rightarrow> 's \<Rightarrow> 's"
    and del :: "string \<Rightarrow> 's \<Rightarrow> 's"
  assumes get_put: "get t k (put now k' v ttl s) =
      (if k = k' then (case ttl of None \<Rightarrow> Some v | Some d \<Rightarrow> if t < now + d then Some v else None) else get t k s)"
    and get_del: "get t k (del k' s) = (if k = k' then None else get t k s)"
    and get_antimono: "get t k s = None \<Longrightarrow> t \<le> t' \<Longrightarrow> get t' k s = None"
begin

lemma kept_until: "now \<le> t \<Longrightarrow> t < now + d \<Longrightarrow> get t k (put now k v (Some d) s) = Some v"
  by (simp add: get_put)

lemma gone_after: "now + d \<le> t \<Longrightarrow> get t k (put now k v (Some d) s) = None"
  by (simp add: get_put)

lemma others_untouched:
  "k \<noteq> k' \<Longrightarrow> get t k (put now k' v ttl s) = get t k s" "k \<noteq> k' \<Longrightarrow> get t k (del k' s) = get t k s"
  by (simp_all add: get_put get_del)

lemma still_there: "get t' k s = Some v \<Longrightarrow> t \<le> t' \<Longrightarrow> get t k s \<noteq> None"
  using get_antimono [of t k s t'] by auto

end

interpretation redis: expiring_store redis_get redis_set redis_delete
proof
  show "redis_get t k (redis_set now k' v ttl s) =
      (if k = k' then (case ttl of None \<Rightarrow> Some v | Some d \<Rightarrow> if t < now + d then Some v else None)
       else redis_get t k s)" for t k now k' v ttl s
    by (simp add: redis_get_def redis_set_def split: option.splits)
  show "redis_get t k (redis_delete k' s) = (if k = k' then None else redis_get t k s)" for t k k' s
    by (simp add: redis_get_def redis_delete_def)
  show "redis_get t k s = None \<Longrightarrow> t \<le> t' \<Longrightarrow> redis_get t' k s = None" for t k s t'
    by (auto simp: redis_get_def split: option.splits prod.splits if_splits)
qed

lemma redis_get_expire:
  "redis_get t k (redis_expire now k' ttl r) =
     (if k = k' then (case redis_get now k' r of None \<Rightarrow> redis_get t k' r
        | Some v \<Rightarrow> if t < now + ttl then Some v else None)
      else redis_get t k r)"
  by (simp add: redis_expire_def redis.get_put split: option.splits)

lemma redis_get_incr:
  "redis_get now k (redis_incr now k' r) =
     (if k = k' then Some (nat_str (Suc (case redis_get now k' r of None \<Rightarrow> 0 | Some v \<Rightarrow> digits_val v)))
      else redis_get now k r)"
proof (cases "redis_get now k' r")
  case None
  have "nat_str (Suc 0) = ''1''" by code_simp
  with None show ?thesis by (simp add: redis_incr_def redis.get_put)
next
  case (Some v)
  then show ?thesis
    by (auto simp: redis_incr_def redis_get_def split: option.splits prod.splits if_splits)
qed

lemma redis_incr_other: "k \<noteq> k' \<Longrightarrow> redis_get t k (redis_incr now k' r) = redis_get t k r"
  by (simp add: redis_incr_def redis.get_put split: option.splits) (simp add: redis_get_def)

end
