(* ===== verification/Exchange.thy ===== *)
theory Exchange
  imports Jeko FeeRules Redis Push
begin

text \<open>
  The state in which the second generation of modules works. Their tables, enumerations and
  the functions of \<open>app.services.wallet_service\<close> are not in the repository: a row has the
  attributes that the code reads and writes, the enumerations the members it names, and
  wallets are an opaque part of the database with two parameters, \<open>get_wallet_for_update\<close> (the
  wallet of a user) and \<open>credit_wallet\<close>. A member of the enumeration of operators stands as its
  name. The state has a database with its committed and its current version (the session),
  Redis, the JEKO server behind \<open>wire\<close>, the notifications posted so far and the references of
  which a background reconciliation was scheduled.
\<close>

section \<open>Rows\<close>

datatype leg_status = Leg_pending | Leg_success | Leg_failed | Leg_failed_payout

datatype tx_kind = Deposit | Transfer_kind | Withdrawal | Cash_in | Cash_out

record exchange_row =
  x_reference :: string
  x_user_id :: uuid
  x_type :: tx_kind
  x_status :: leg_status
  x_payin_status :: "leg_status option"
  x_payout_status :: "leg_status option"
  x_amount :: decimal
  x_platform_fee :: decimal
  x_total_collected :: decimal
  x_source_operator :: string
  x_destination_operator :: string
  x_source_phone :: string
  x_recipient_phone :: string
  x_recipient_name :: "string option"
  x_jeko_payin_id :: json
  x_jeko_payout_id :: json
  x_metadata :: "(string \<times> json) list"
  x_agent_id :: "uuid option"
  x_client_id :: "uuid option"
  x_commission_amount :: decimal
  x_jeko_reference :: json
  x_created_at :: timestamp

text \<open>Clients of the service and agents are users; an agent keeps files on the people it serves.\<close>

record user2 =
  u2_id :: uuid
  u2_phone_number :: string
  u2_pin_code_hash :: string
  u2_kyc_status :: string
  u2_commission_rate :: decimal

record client_row =
  cl_id :: uuid
  cl_agent_id :: uuid
  cl_full_name :: string
  cl_phone_number :: string

record kyc2_row =
  kf_id :: uuid
  kf_user_id :: uuid
  kf_id_document :: string
  kf_selfie :: "string option"
  kf_status :: string
  kf_rejection_reason :: "string option"
  kf_submitted_at :: timestamp

record device2 =
  dv_id :: nat
  dv_user_id :: uuid
  dv_token :: string

record 'w store =
  exchanges :: "exchange_row list"
  devices :: "device2 list"
  users2 :: "user2 list"
  clients :: "client_row list"
  kyc_files :: "kyc2_row list"
  wallets2 :: 'w

section \<open>Notifications\<close>

datatype alert =
    Recharge_echouee decimal
  | Transfert_echoue decimal
  | Wallet_recharge2 decimal
  | Montant_recredite decimal "string option"
  | Retrait_reussi decimal
  | Transfert_reussi decimal "string option"
  | Versement_echoue decimal "string option"
  | Retrait_echoue decimal

record message2 =
  m2_url :: string
  m2_bearer :: string
  m2_token :: string
  m2_note :: alert
  m2_data :: "(string \<times> string) list"

text \<open>A configured push service: the project, the OAuth token (\<open>None\<close> when Google refuses) and
  what a POST answers.\<close>

record push2 =
  p2_project :: string
  p2_token :: "string option"
  p2_post :: "message2 \<Rightarrow> post_result"

section \<open>State and parameters\<close>

record ('w, 'j) world =
  saved :: "'w store"
  current2 :: "'w store"
  redis_db :: redis
  wire_of :: "'j wire"
  posted :: "message2 list"
  background :: "string list"
  time2 :: nat

record ('w, 'j) services =
  jeko_of :: "'j jeko_env"
  operator_value :: "string \<Rightarrow> string"
  get_wallet_for_update :: "uuid \<Rightarrow> 'w \<Rightarrow> fault + nat"
  credit_wallet :: "nat \<Rightarrow> decimal \<Rightarrow> 'w \<Rightarrow> fault + 'w"
  push_of :: "push2 option"
  fault_text :: "fault \<Rightarrow> string"

type_synonym ('w, 'j, 'a) act = "(('w, 'j) world, fault, 'a) eff"

definition on_wire :: "('j wire, fault, 'a) eff \<Rightarrow> ('w, 'j, 'a) act" where
  "on_wire = zoom wire_of (\<lambda>w s. s\<lparr>wire_of := w\<rparr>)"

definition on_store :: "('w store \<Rightarrow> 'w store) \<Rightarrow> ('w, 'j, unit) act" where
  "on_store f = modify (\<lambda>s. s\<lparr>current2 := f (current2 s)\<rparr>)"

definition commit2 :: "('w, 'j, unit) act" where
  "commit2 = modify (\<lambda>s. s\<lparr>saved := current2 s\<rparr>)"

definition rollback2 :: "('w, 'j, unit) act" where
  "rollback2 = modify (\<lambda>s. s\<lparr>current2 := saved s\<rparr>)"

text \<open>A session around a handler: it starts from what is committed and drops what is not.\<close>

definition in_session :: "('w, 'j, 'a) act \<Rightarrow> ('w, 'j, 'a) act" where
  "in_session m s = (case m (s\<lparr>current2 := saved s\<rparr>) of (r, s') \<Rightarrow> (r, s'\<lparr>current2 := saved s'\<rparr>))"

text \<open>\<open>scalar_one_or_none\<close> on the transactions of a condition; an assignment to an attribute of the
  row found is a change of that row.\<close>

definition find_exchange :: "(exchange_row \<Rightarrow> bool) \<Rightarrow> ('w, 'j, exchange_row option) act" where
  "find_exchange P =
     andThen (gets (\<lambda>s. filter P (exchanges (current2 s)))) (\<lambda>rows.
     case rows of [] \<Rightarrow> return None | [t] \<Rightarrow> return (Some t) | _ \<Rightarrow> raise Multiple_results)"

definition put_exchange :: "exchange_row \<Rightarrow> 'w store \<Rightarrow> 'w store" where
  "put_exchange t st = st\<lparr>exchanges := update_where (\<lambda>x. x_reference x = x_reference t) (\<lambda>_. t) (exchanges st)\<rparr>"

definition save :: "exchange_row \<Rightarrow> ('w, 'j, unit) act" where
  "save t = on_store (put_exchange t)"

definition wallet_for_update :: "('w, 'j) services \<Rightarrow> uuid \<Rightarrow> ('w, 'j, nat) act" where
  "wallet_for_update v uid s = (get_wallet_for_update v uid (wallets2 (current2 s)), s)"

definition credit :: "('w, 'j) services \<Rightarrow> nat \<Rightarrow> decimal \<Rightarrow> ('w, 'j, unit) act" where
  "credit v w amount =
     andThen (gets (\<lambda>s. credit_wallet v w amount (wallets2 (current2 s)))) (\<lambda>r.
     case r of Inl e \<Rightarrow> raise e | Inr ws \<Rightarrow> on_store (\<lambda>st. st\<lparr>wallets2 := ws\<rparr>))"

section \<open>Pushing (\<open>app/services/push_service.py\<close>)\<close>

definition send_to_token2 :: "push2 \<Rightarrow> string \<Rightarrow> alert \<Rightarrow> (string \<times> string) list \<Rightarrow> ('w, 'j, bool) act" where
  "send_to_token2 f fcm_token n data =
     (case p2_token f of
        None \<Rightarrow> raise Httpx_error
      | Some bearer \<Rightarrow>
          let m = \<lparr>m2_url = FCM_ENDPOINT (p2_project f), m2_bearer = bearer, m2_token = fcm_token,
                   m2_note = n, m2_data = data\<rparr> in
          andThen (modify (\<lambda>s. s\<lparr>posted := posted s @ [m]\<rparr>)) (\<lambda>_.
          case p2_post f m of
            Network_error \<Rightarrow> raise Httpx_error
          | Unexpected_error \<Rightarrow> raise Httpx_error
          | Response code content_type answer \<Rightarrow>
              if code < 400 then return True
              else
                andThen (value_or Json_decode_error
                  (if starts_with ''application/json'' content_type then answer else Some (JObj []))) (\<lambda>error_body.
                case fcm_error_code error_body of
                  None \<Rightarrow> raise Attribute_error
                | Some (JStr c) \<Rightarrow> return (c \<notin> set INVALID_TOKEN_FCM_CODES)
                | Some (JArr xs) \<Rightarrow> raise Attribute_error
                | Some (JObj kvs) \<Rightarrow> raise Attribute_error
                | Some _ \<Rightarrow> return True)))"

fun push_to_all :: "push2 \<Rightarrow> alert \<Rightarrow> (string \<times> string) list \<Rightarrow> device2 list \<Rightarrow> ('w, 'j, unit) act" where
  "push_to_all f n data [] = return ()"
| "push_to_all f n data (d # ds) =
     andThen
       (catching
          (andThen (send_to_token2 f (dv_token d) n data) (\<lambda>still_valid.
           if still_valid then return ()
           else on_store (\<lambda>st. st\<lparr>devices := filter (\<lambda>x. dv_id x \<noteq> dv_id d) (devices st)\<rparr>)))
          (\<lambda>e. return ())) (\<lambda>_.
     push_to_all f n data ds)"

definition notify_user2 :: "push2 \<Rightarrow> uuid \<Rightarrow> alert \<Rightarrow> (string \<times> string) list \<Rightarrow> ('w, 'j, unit) act" where
  "notify_user2 f uid n data =
     andThen (gets (\<lambda>s. filter (\<lambda>d. dv_user_id d = uid) (devices (current2 s)))) (\<lambda>tokens.
     push_to_all f n data tokens)"

text \<open>\<open>configure_push_service\<close>: the service that \<open>get_push_service\<close> returns afterwards.\<close>

definition configure_push_service ::
  "(string \<Rightarrow> 'c option) \<Rightarrow> (string \<Rightarrow> 'c \<Rightarrow> push2) \<Rightarrow> string \<Rightarrow> string \<Rightarrow> push2 option \<Rightarrow> push2 option" where
  "configure_push_service parse build firebase_project_id account_json previous =
     (if firebase_project_id = [] \<or> account_json = [] then previous
      else (case parse account_json of None \<Rightarrow> None | Some c \<Rightarrow> Some (build firebase_project_id c)))"

section \<open>What notifications leave alone\<close>

lemma push_to_all_frame:
  "\<exists>ds log. push_to_all f n data tokens s =
     (Inr (), s\<lparr>current2 := (current2 s)\<lparr>devices := ds\<rparr>, posted := log\<rparr>)"
proof (induction tokens arbitrary: s)
  case Nil
  show ?case
    by (rule exI [of _ "devices (current2 s)"], rule exI [of _ "posted s"]) (simp add: return_def)
next
  case (Cons d ts)
  let ?m = "catching (andThen (send_to_token2 f (dv_token d) n data) (\<lambda>still_valid.
     if still_valid then return ()
     else on_store (\<lambda>st. st\<lparr>devices := filter (\<lambda>x. dv_id x \<noteq> dv_id d) (devices st)\<rparr>))) (\<lambda>e. return ())"
  have "\<exists>q log. send_to_token2 f (dv_token d) n data s = (q, s\<lparr>posted := log\<rparr>)"
  proof -
    have same: "s = s\<lparr>posted := posted s\<rparr>" by simp
    show ?thesis
      unfolding send_to_token2_def
      by (auto simp: eff_defs Let_def split: option.splits post_result.splits json.splits intro: same)
  qed
  then obtain q log where q: "send_to_token2 f (dv_token d) n data s = (q, s\<lparr>posted := log\<rparr>)" by blast
  have "\<exists>ds log. ?m s = (Inr (), s\<lparr>current2 := (current2 s)\<lparr>devices := ds\<rparr>, posted := log\<rparr>)"
  proof (cases q)
    case (Inl e)
    with q have "?m s = (Inr (), s\<lparr>current2 := (current2 s)\<lparr>devices := devices (current2 s)\<rparr>, posted := log\<rparr>)"
      by (simp add: eff_defs)
    then show ?thesis by blast
  next
    case (Inr b)
    let ?ds = "if b then devices (current2 s) else filter (\<lambda>x. dv_id x \<noteq> dv_id d) (devices (current2 s))"
    from Inr q have "?m s = (Inr (), s\<lparr>current2 := (current2 s)\<lparr>devices := ?ds\<rparr>, posted := log\<rparr>)"
      by (simp add: eff_defs on_store_def)
    then show ?thesis by blast
  qed
  then obtain ds' log' where m: "?m s = (Inr (), s\<lparr>current2 := (current2 s)\<lparr>devices := ds'\<rparr>, posted := log'\<rparr>)"
    by blast
  from Cons.IH [of "s\<lparr>current2 := (current2 s)\<lparr>devices := ds'\<rparr>, posted := log'\<rparr>"] m
  show ?case by (auto simp: andThen_def)
qed

end
