(* ===== verification/Signatures.thy ===== *)
theory Signatures
  imports Prelude
begin

text \<open>
  Who may call the webhooks: \<open>app/utils/hmac_verify.py\<close> for JEKO and the helpers of
  \<open>app/services/kkiapay_client.py\<close>. The HMAC is a parameter; \<open>hmac.compare_digest\<close> is equality.
\<close>

definition verify_jeko_signature ::
  "(string \<Rightarrow> string \<Rightarrow> string) \<Rightarrow> string \<Rightarrow> string \<Rightarrow> string option \<Rightarrow> bool" where
  "verify_jeko_signature compute_signature jeko_webhook_secret raw_body received_signature =
     (case received_signature of
        None \<Rightarrow> False
      | Some sg \<Rightarrow> if sg = [] then False else compute_signature raw_body jeko_webhook_secret = sg)"

definition verify_webhook_secret :: "string \<Rightarrow> string option \<Rightarrow> bool" where
  "verify_webhook_secret kkiapay_webhook_secret received_secret =
     (case received_secret of
        None \<Rightarrow> False
      | Some r \<Rightarrow> if kkiapay_webhook_secret = [] \<or> r = [] then False else r = kkiapay_webhook_secret)"

text \<open>\<open>str(d.get("status", "")).upper()\<close>; the text of a status that is no string is a parameter.\<close>

definition status_text :: "(json \<Rightarrow> string) \<Rightarrow> (string \<times> json) list \<Rightarrow> string" where
  "status_text str_of data =
     upper (case jget data ''status'' of None \<Rightarrow> [] | Some (JStr s) \<Rightarrow> s | Some j \<Rightarrow> str_of j)"

definition is_success :: "(json \<Rightarrow> string) \<Rightarrow> (string \<times> json) list \<Rightarrow> bool" where
  "is_success str_of data \<longleftrightarrow> status_text str_of data = ''SUCCESS''"

definition is_definitively_failed :: "(json \<Rightarrow> string) \<Rightarrow> (string \<times> json) list \<Rightarrow> bool" where
  "is_definitively_failed str_of data \<longleftrightarrow>
     status_text str_of data \<in> {''FAILED'', ''CANCELLED'', ''CANCELED'', ''ERROR''}"

datatype 'c kkiapay = Not_configured | Configured 'c

definition kkiapay_client :: "(string \<Rightarrow> string \<Rightarrow> string \<Rightarrow> 'c) \<Rightarrow> string \<Rightarrow> string \<Rightarrow> string \<Rightarrow> 'c kkiapay" where
  "kkiapay_client sdk public_key private_key secret =
     (if public_key = [] \<or> private_key = [] \<or> secret = [] then Not_configured
      else Configured (sdk public_key private_key secret))"

text \<open>\<open>verify_transaction\<close>: the SDK's answer on a transaction; \<open>None\<close> is \<open>KkiapayNotConfigured\<close>.\<close>

definition kkiapay_verify_transaction ::
  "(string \<Rightarrow> string \<Rightarrow> string \<Rightarrow> 'c) \<Rightarrow> ('c \<Rightarrow> string \<Rightarrow> (string \<times> json) list) \<Rightarrow> string \<Rightarrow> string \<Rightarrow> string \<Rightarrow> string
   \<Rightarrow> (string \<times> json) list option" where
  "kkiapay_verify_transaction sdk verify public_key private_key secret kkiapay_transaction_id =
     (case kkiapay_client sdk public_key private_key secret of
        Not_configured \<Rightarrow> None
      | Configured c \<Rightarrow> Some (verify c kkiapay_transaction_id))"

lemma outcome_exclusive: "\<not> (is_success t d \<and> is_definitively_failed t d)"
  by (auto simp: is_success_def is_definitively_failed_def)

lemma verify_webhook_secret_iff:
  "verify_webhook_secret secret r \<longleftrightarrow> secret \<noteq> [] \<and> r = Some secret"
  by (auto simp: verify_webhook_secret_def split: option.splits)

end
