(* ===== verification/Webhooks.thy ===== *)
theory Webhooks
  imports Exchange Signatures
begin

text \<open>
  \<open>app/services/webhook_service.py\<close> and the two routes of \<open>app/api/v1/webhooks.py\<close>. A transaction
  has a pay-in leg and a pay-out leg; JEKO reports on each. A failed pay-out after a successful
  pay-in is credited to the wallet of the client.
\<close>

definition TERMINAL_LEG_STATUSES :: "leg_status option list" where
  "TERMINAL_LEG_STATUSES = [Some Leg_success, Some Leg_failed]"

definition tell :: "('w, 'j) services \<Rightarrow> exchange_row \<Rightarrow> alert \<Rightarrow> ('w, 'j, unit) act" where
  \<comment> \<open>\<open>_notify\<close>\<close>
  "tell v t a =
     (case push_of v of
        None \<Rightarrow> return ()
      | Some f \<Rightarrow> notify_user2 f (x_user_id t) a
          [(''internal_reference'', x_reference t), (''type'', ''transaction_update'')])"

definition split_reference :: "string \<Rightarrow> string \<times> string" where
  "split_reference reference =
     (if ends_with ''-IN'' reference then (take (length reference - 3) reference, ''IN'')
      else if ends_with ''-OUT'' reference then (take (length reference - 4) reference, ''OUT'')
      else (reference, ''OUT''))"

definition acquire_webhook_dedup_lock :: "string \<Rightarrow> ('w, 'j, bool) act" where
  "acquire_webhook_dedup_lock jeko_event_id s =
     (let (is_new, r) = redis_set_nx (time2 s) (''webhook:jeko:'' @ jeko_event_id) ''1'' 86400 (redis_db s)
      in (Inr is_new, s\<lparr>redis_db := r\<rparr>))"

definition BENEFICIAIRE :: string where
  "BENEFICIAIRE = CHR ''B'' # CHR 0xE9 # CHR ''n'' # CHR 0xE9 # ''ficiaire''"

definition name_or :: "string \<Rightarrow> string option \<Rightarrow> string" where
  "name_or d n = (case n of None \<Rightarrow> d | Some x \<Rightarrow> if x = [] then d else x)"

text \<open>\<open>compute_wallet_credit_on_payout_failure\<close> raises a KeyError or InvalidOperation.\<close>

definition refund_of :: "exchange_row \<Rightarrow> ('w, 'j, decimal) act" where
  "refund_of t =
     andThen (check (map_of JEKO_DEPOSIT_FEE_RATE (x_source_operator t) \<noteq> None) Key_error) (\<lambda>_.
     value_or Decimal_error (compute_wallet_credit_on_payout_failure (x_total_collected t) (x_source_operator t)))"

section \<open>The pay-in leg\<close>

text \<open>The \<open>except (JekoAPIError, JekoNetworkError)\<close> of the pay-out that a confirmed pay-in starts.\<close>

definition payout_not_initiated ::
  "('w, 'j) services \<Rightarrow> exchange_row \<Rightarrow> string \<Rightarrow> fault \<Rightarrow> ('w, 'j, unit) act" where
  "payout_not_initiated v t jeko_event_id e =
     andThen (wallet_for_update v (x_user_id t)) (\<lambda>w.
     andThen (refund_of t) (\<lambda>credit_amount.
     andThen (credit v w credit_amount) (\<lambda>_.
     andThen (save (t\<lparr>x_payout_status := Some Leg_failed, x_status := Leg_failed_payout,
       x_metadata := jsonb_concat (x_metadata t)
         [(''payout_initiation_error'', JStr (fault_text v e)), (''jeko_event_id'', JStr jeko_event_id)]\<rparr>)) (\<lambda>_.
     tell v t (Montant_recredite credit_amount (x_recipient_name t))))))"

definition initiate_payout :: "('w, 'j) services \<Rightarrow> exchange_row \<Rightarrow> ('w, 'j, unit) act" where
  "initiate_payout v t =
     andThen (on_wire (create_withdrawal_transfer (jeko_of v) (x_reference t @ ''-OUT'') (x_amount t)
       (operator_value v (x_destination_operator t)) (x_recipient_phone t)
       (name_or BENEFICIAIRE (x_recipient_name t)))) (\<lambda>jeko_response.
     case answer_get jeko_response ''id'' of
       Inl e \<Rightarrow> raise e
     | Inr i \<Rightarrow> save (t\<lparr>x_jeko_payout_id := i, x_payout_status := Some Leg_pending\<rparr>))"

definition handle_payin_webhook ::
  "('w, 'j) services \<Rightarrow> exchange_row \<Rightarrow> leg_status \<Rightarrow> string \<Rightarrow> ('w, 'j, unit) act" where
  "handle_payin_webhook v transaction new_status jeko_event_id =
     (if x_payin_status transaction \<in> set TERMINAL_LEG_STATUSES then return ()
      else
        let t = transaction\<lparr>x_payin_status := Some new_status\<rparr> in
        andThen (save t) (\<lambda>_.
        if new_status = Leg_failed then
          andThen (save (t\<lparr>x_status := Leg_failed\<rparr>)) (\<lambda>_.
          tell v t (if x_type t = Deposit then Recharge_echouee (x_amount t)
                    else Transfert_echoue (x_total_collected t)))
        else if x_type t = Deposit then
          andThen (wallet_for_update v (x_user_id t)) (\<lambda>w.
          andThen (credit v w (x_amount t)) (\<lambda>_.
          andThen (save (t\<lparr>x_status := Leg_success\<rparr>)) (\<lambda>_.
          tell v t (Wallet_recharge2 (x_amount t)))))
        else
          catching (initiate_payout v t)
            (\<lambda>e. if is_jeko_error e then payout_not_initiated v t jeko_event_id e else raise e)))"

section \<open>The pay-out leg\<close>

definition handle_payout_webhook ::
  "('w, 'j) services \<Rightarrow> exchange_row \<Rightarrow> leg_status \<Rightarrow> ('w, 'j, unit) act" where
  "handle_payout_webhook v transaction new_status =
     (if x_payout_status transaction \<in> set TERMINAL_LEG_STATUSES then return ()
      else
        let t = transaction\<lparr>x_payout_status := Some new_status\<rparr> in
        andThen (save t) (\<lambda>_.
        if new_status = Leg_success then
          andThen (save (t\<lparr>x_status := Leg_success\<rparr>)) (\<lambda>_.
          tell v t (if x_type t = Withdrawal then Retrait_reussi (x_amount t)
                    else Transfert_reussi (x_amount t) (x_recipient_name t)))
        else
          andThen (wallet_for_update v (x_user_id t)) (\<lambda>w.
          if x_type t = Transfer_kind then
            andThen (refund_of t) (\<lambda>credit_amount.
            andThen (save (t\<lparr>x_status := Leg_failed_payout\<rparr>)) (\<lambda>_.
            andThen (credit v w credit_amount) (\<lambda>_.
            tell v t (Versement_echoue credit_amount (x_recipient_name t)))))
          else
            andThen (save (t\<lparr>x_status := Leg_failed\<rparr>)) (\<lambda>_.
            andThen (credit v w (x_amount t)) (\<lambda>_.
            tell v t (Retrait_echoue (x_amount t)))))))"

section \<open>Events\<close>

text \<open>The parts of a parsed payload that the code reads.\<close>

record jeko_event =
  ev_id :: string
  ev_status :: string
  ev_reference :: "string option"      \<comment> \<open>\<open>None\<close>: no \<open>transactionDetails\<close>, or no reference in it\<close>

text \<open>The processing of an event whose lock was free, and the whole.\<close>

definition process_new_event :: "('w, 'j) services \<Rightarrow> jeko_event \<Rightarrow> ('w, 'j, exchange_row) act" where
  "process_new_event v data =
     (case ev_reference data of
       None \<Rightarrow> raise (Not_found ''reference manquante'')
     | Some reference \<Rightarrow>
         if reference = [] then raise (Not_found ''reference manquante'')
         else
           let (base_reference, leg) = split_reference reference in
           andThen (find_exchange (\<lambda>x. x_reference x = base_reference)) (\<lambda>found.
           case found of
             None \<Rightarrow> raise (Not_found base_reference)
           | Some transaction \<Rightarrow>
               let new_leg_status = (if lower (ev_status data) = ''success'' then Leg_success else Leg_failed) in
               andThen
                 (if leg = ''IN'' then handle_payin_webhook v transaction new_leg_status (ev_id data)
                  else handle_payout_webhook v transaction new_leg_status) (\<lambda>_.
               return transaction)))"

definition process_jeko_webhook :: "('w, 'j) services \<Rightarrow> jeko_event \<Rightarrow> ('w, 'j, exchange_row) act" where
  "process_jeko_webhook v data =
     andThen (acquire_webhook_dedup_lock (ev_id data)) (\<lambda>is_new.
     andThen (check is_new (Already_processed (ev_id data))) (\<lambda>_.
     process_new_event v data))"

section \<open>Routes\<close>

datatype parsed = Bad_json | Bad_payload | Event jeko_event

datatype webhook_reply = Received string leg_status | Acknowledged string

text \<open>The answer shows the row as it is after the handlers changed it.\<close>

definition reply_for :: "string \<Rightarrow> ('w, 'j, webhook_reply) act" where
  "reply_for ref =
     gets (\<lambda>s. case find (\<lambda>x. x_reference x = ref) (exchanges (current2 s)) of
       None \<Rightarrow> Acknowledged ''unmatched_transaction'' | Some x \<Rightarrow> Received ref (x_status x))"

definition jeko_webhook ::
  "('w, 'j) services \<Rightarrow> (string \<Rightarrow> string \<Rightarrow> string) \<Rightarrow> string \<Rightarrow> (string \<Rightarrow> parsed) \<Rightarrow> string \<Rightarrow> string option
   \<Rightarrow> ('w, 'j, webhook_reply) act" where
  "jeko_webhook v hmac secret parse raw_body signature =
     in_session
       (if \<not> verify_jeko_signature hmac secret raw_body signature then raise (Http_error 401 ''Signature invalide'')
        else (case parse raw_body of
          Bad_json \<Rightarrow> raise (Http_error 400 ''Corps JSON invalide'')
        | Bad_payload \<Rightarrow> raise (Http_error 422 ''payload'')
        | Event data \<Rightarrow>
            catching
              (andThen (process_jeko_webhook v data) (\<lambda>transaction.
               andThen commit2 (\<lambda>_.
               reply_for (x_reference transaction))))
              (\<lambda>e. case e of
                 Already_processed i \<Rightarrow> return (Acknowledged ''already_processed'')
               | Not_found r \<Rightarrow> andThen rollback2 (\<lambda>_. raise (Http_error 404 ''Transaction inconnue''))
               | _ \<Rightarrow> raise e)))"

text \<open>\<open>kkiapay_webhook\<close>; \<open>finalize_kkiapay_deposit\<close> (not in the repository) is a parameter, as is the
  JSON parser. A body that is no object ends in an AttributeError.\<close>

definition kkiapay_webhook ::
  "('w, 'j) services \<Rightarrow> string \<Rightarrow> (string \<Rightarrow> json option) \<Rightarrow>
   (exchange_row \<Rightarrow> bool \<Rightarrow> json \<Rightarrow> ('w, 'j, unit) act) \<Rightarrow> string \<Rightarrow> string option \<Rightarrow> ('w, 'j, webhook_reply) act" where
  "kkiapay_webhook v secret parse finalize_kkiapay_deposit raw_body received =
     in_session
       (if \<not> verify_webhook_secret secret received then raise (Http_error 401 ''Secret webhook invalide'')
        else (case parse raw_body of
          None \<Rightarrow> raise (Http_error 400 ''Corps JSON invalide'')
        | Some data \<Rightarrow>
            (case (answer_get data ''transactionId'', answer_get data ''partnerId'', answer_get data ''isPaymentSucces'') of
              (Inr kkiapay_id, Inr internal_reference, Inr success) \<Rightarrow>
                if \<not> truthy kkiapay_id then raise (Http_error 400 ''transactionId manquant'')
                else
                  andThen (if truthy internal_reference
                           then find_exchange (\<lambda>x. JStr (x_reference x) = internal_reference)
                           else return None) (\<lambda>by_reference.
                  andThen (if by_reference = None
                           then find_exchange (\<lambda>x. x_jeko_payin_id x = kkiapay_id)
                           else return by_reference) (\<lambda>found.
                  case found of
                    None \<Rightarrow> return (Acknowledged ''unmatched_transaction'')
                  | Some transaction \<Rightarrow>
                      andThen (finalize_kkiapay_deposit transaction (truthy success) kkiapay_id) (\<lambda>_.
                      andThen commit2 (\<lambda>_.
                      reply_for (x_reference transaction)))))
            | _ \<Rightarrow> raise Attribute_error)))"

end
