(* ===== verification/WebhookContract.thy ===== *)
theory WebhookContract
  imports Webhooks
begin

text \<open>
  What the webhooks promise: a transfer is refunded at most once and never both paid and
  refunded, as long as JEKO reports on a pay-out only after it was asked for one; an event is
  processed at most once in a day.
\<close>

section \<open>Runs of programs\<close>

lemma andThen_Inr:
  "andThen m k s = (Inr y, s') \<longleftrightarrow> (\<exists>x s1. m s = (Inr x, s1) \<and> k x s1 = (Inr y, s'))"
  by (auto simp: andThen_def split: prod.splits sum.splits)

lemma basic_Inr:
  "return x s = (Inr y, s') \<longleftrightarrow> y = x \<and> s' = s" "raise e s = (Inr y, s') \<longleftrightarrow> False"
  "check b e s = (Inr u, s') \<longleftrightarrow> b \<and> s' = s" "value_or e w s = (Inr y, s') \<longleftrightarrow> w = Some y \<and> s' = s"
  "commit2 s1 = (Inr u, s1') \<longleftrightarrow> s1' = s1\<lparr>saved := current2 s1\<rparr>"
  "on_store f s1 = (Inr u, s1') \<longleftrightarrow> s1' = s1\<lparr>current2 := f (current2 s1)\<rparr>"
  "save t s1 = (Inr u, s1') \<longleftrightarrow> s1' = s1\<lparr>current2 := put_exchange t (current2 s1)\<rparr>"
  by (auto simp: eff_defs commit2_def on_store_def save_def split: option.splits)

lemma find_exchange_Inr:
  "find_exchange P s = (Inr r, s') \<longleftrightarrow> s' = s \<and>
     (case filter P (exchanges (current2 s)) of [] \<Rightarrow> r = None | [t] \<Rightarrow> r = Some t | _ \<Rightarrow> False)"
  by (auto simp: find_exchange_def eff_defs split: list.splits)

lemma wallet_for_update_Inr:
  "wallet_for_update v uid s = (Inr w, s') \<longleftrightarrow> s' = s \<and> get_wallet_for_update v uid (wallets2 (current2 s)) = Inr w"
  by (auto simp: wallet_for_update_def)

lemma credit_Inr:
  "credit v w a s = (Inr u, s') \<longleftrightarrow> (\<exists>ws. credit_wallet v w a (wallets2 (current2 s)) = Inr ws \<and>
     s' = s\<lparr>current2 := (current2 s)\<lparr>wallets2 := ws\<rparr>\<rparr>)"
  by (auto simp: credit_def on_store_def eff_defs split: sum.splits)

lemmas eff_runs = andThen_Inr basic_Inr find_exchange_Inr wallet_for_update_Inr credit_Inr

lemma on_wire_frame: "\<exists>w. on_wire m s = (fst (on_wire m s), s\<lparr>wire_of := w\<rparr>)"
  by (auto simp: on_wire_def zoom_def split: prod.splits)

lemma tell_frame: "\<exists>ds log. tell v t a s = (Inr (), s\<lparr>current2 := (current2 s)\<lparr>devices := ds\<rparr>, posted := log\<rparr>)"
proof (cases "push_of v")
  case None
  then have "tell v t a s = (Inr (), s\<lparr>current2 := (current2 s)\<lparr>devices := devices (current2 s)\<rparr>, posted := posted s\<rparr>)"
    by (simp add: tell_def return_def)
  then show ?thesis by blast
next
  case (Some f)
  then show ?thesis
    using push_to_all_frame [of f a _ "filter (\<lambda>d. dv_user_id d = x_user_id t) (devices (current2 s))" s]
    by (simp add: tell_def notify_user2_def andThen_def gets_def)
qed

lemma tell_Inr:
  assumes "tell v t a s = (r, s')"
  obtains ds log where "r = Inr ()" "s' = s\<lparr>current2 := (current2 s)\<lparr>devices := ds\<rparr>, posted := log\<rparr>"
  using tell_frame [of v t a s] assms that by auto

section \<open>Rows\<close>

definition rows_of :: "string \<Rightarrow> 'w store \<Rightarrow> exchange_row list" where
  "rows_of ref st = filter (\<lambda>x. x_reference x = ref) (exchanges st)"

lemma rows_of_put: "rows_of ref st = [t] \<Longrightarrow> x_reference t' = ref \<Longrightarrow> rows_of ref (put_exchange t' st) = [t']"
proof -
  have "filter (\<lambda>x. x_reference x = ref) (update_where (\<lambda>x. x_reference x = ref) (\<lambda>_. t') xs) =
      map (\<lambda>_. t') (filter (\<lambda>x. x_reference x = ref) xs)" if "x_reference t' = ref" for xs
    using that by (induction xs) auto
  then show "rows_of ref st = [t] \<Longrightarrow> x_reference t' = ref \<Longrightarrow> ?thesis"
    by (simp add: rows_of_def put_exchange_def)
qed

lemma rows_of_frame [simp]:
  "rows_of ref (st\<lparr>devices := ds\<rparr>) = rows_of ref st" "rows_of ref (st\<lparr>wallets2 := ws\<rparr>) = rows_of ref st"
  by (simp_all add: rows_of_def)

lemma put_exchange_frame [simp]:
  "wallets2 (put_exchange t st) = wallets2 st" "devices (put_exchange t st) = devices st"
  by (simp_all add: put_exchange_def)

section \<open>The handlers\<close>

lemma initiate_payout_cases:
  assumes "initiate_payout v t s = (r, s')"
  obtains (stopped) e w where "r = Inl e" "s' = s\<lparr>wire_of := w\<rparr>"
  | (created) j w where "r = Inr ()"
      "s' = s\<lparr>wire_of := w, current2 := put_exchange (t\<lparr>x_jeko_payout_id := j, x_payout_status := Some Leg_pending\<rparr>) (current2 s)\<rparr>"
proof -
  let ?m = "on_wire (create_withdrawal_transfer (jeko_of v) (x_reference t @ ''-OUT'') (x_amount t)
       (operator_value v (x_destination_operator t)) (x_recipient_phone t)
       (name_or BENEFICIAIRE (x_recipient_name t)))"
  obtain q w where q: "?m s = (q, s\<lparr>wire_of := w\<rparr>)" using on_wire_frame by blast
  show ?thesis
  proof (cases q)
    case (Inl e)
    with q assms show ?thesis by (intro stopped) (auto simp: initiate_payout_def andThen_def)
  next
    case (Inr resp)
    with q assms have "(case answer_get resp ''id'' of Inl e \<Rightarrow> raise e | Inr i \<Rightarrow>
        save (t\<lparr>x_jeko_payout_id := i, x_payout_status := Some Leg_pending\<rparr>)) (s\<lparr>wire_of := w\<rparr>) = (r, s')"
      by (simp add: initiate_payout_def andThen_def)
    then show ?thesis
      by (cases "answer_get resp ''id''")
         (auto simp: raise_def save_def on_store_def modify_def intro: stopped created)
  qed
qed

text \<open>What a successful handler leaves, seen from the transaction and from the wallets.\<close>

lemma payin_transfer_cases:
  assumes "handle_payin_webhook v t st i s = (Inr u, s')" "rows_of ref (current2 s) = [t]" "x_reference t = ref"
    and "x_type t = Transfer_kind" "st = Leg_success \<or> st = Leg_failed"
  obtains (old) "x_payin_status t \<in> set TERMINAL_LEG_STATUSES" "s' = s"
  | (failed) t' where "x_payin_status t \<notin> set TERMINAL_LEG_STATUSES" "st = Leg_failed"
      "rows_of ref (current2 s') = [t']" "wallets2 (current2 s') = wallets2 (current2 s)"
      "t' = t\<lparr>x_payin_status := Some Leg_failed, x_status := Leg_failed\<rparr>"
  | (started) t' j where "x_payin_status t \<notin> set TERMINAL_LEG_STATUSES" "st = Leg_success"
      "rows_of ref (current2 s') = [t']" "wallets2 (current2 s') = wallets2 (current2 s)"
      "t' = t\<lparr>x_payin_status := Some Leg_success, x_jeko_payout_id := j, x_payout_status := Some Leg_pending\<rparr>"
  | (refunded) t' w a ws m where "x_payin_status t \<notin> set TERMINAL_LEG_STATUSES" "st = Leg_success"
      "rows_of ref (current2 s') = [t']" "credit_wallet v w a (wallets2 (current2 s)) = Inr ws"
      "wallets2 (current2 s') = ws" "compute_wallet_credit_on_payout_failure (x_total_collected t) (x_source_operator t) = Some a"
      "t' = t\<lparr>x_payin_status := Some Leg_success, x_payout_status := Some Leg_failed,
             x_status := Leg_failed_payout, x_metadata := m\<rparr>"
proof (cases "x_payin_status t \<in> set TERMINAL_LEG_STATUSES")
  case True
  with assms(1) show ?thesis by (intro old) (simp_all add: handle_payin_webhook_def eff_runs)
next
  case new: False
  let ?t = "t\<lparr>x_payin_status := Some st\<rparr>"
  let ?s = "s\<lparr>current2 := put_exchange ?t (current2 s)\<rparr>"
  have rows: "rows_of ref (current2 ?s) = [?t]" using assms(2,3) by (simp add: rows_of_put)
  show ?thesis
  proof (cases "st = Leg_failed")
    case True
    with new assms(1,4) have "andThen (save (?t\<lparr>x_status := Leg_failed\<rparr>))
        (\<lambda>_. tell v ?t (Transfert_echoue (x_total_collected t))) ?s = (Inr u, s')"
      by (simp add: handle_payin_webhook_def Let_def eff_runs)
    then show ?thesis
      using rows_of_put [OF rows, of "?t\<lparr>x_status := Leg_failed\<rparr>"] assms(3) new True
      by (auto simp: eff_runs elim!: tell_Inr intro!: failed)
  next
    case False
    with assms(5) have st: "st = Leg_success" by simp
    from new assms(1,4) have run: "catching (initiate_payout v ?t)
        (\<lambda>e. if is_jeko_error e then payout_not_initiated v ?t i e else raise e) ?s = (Inr u, s')"
      unfolding st by (simp add: handle_payin_webhook_def Let_def eff_runs)
    obtain q s1 where q: "initiate_payout v ?t ?s = (q, s1)" by fastforce
    then show ?thesis
    proof (cases rule: initiate_payout_cases)
      case (created j w)
      let ?t' = "?t\<lparr>x_jeko_payout_id := j, x_payout_status := Some Leg_pending\<rparr>"
      from created q run have "s' = s1" by (simp add: catching_def)
      with created(2) rows_of_put [OF rows, of ?t'] assms(3) new st show ?thesis
        by (intro started [of ?t' j]) simp_all
    next
      case (stopped e w)
      from stopped q run have "payout_not_initiated v ?t i e s1 = (Inr u, s')"
        by (auto simp: catching_def raise_def split: if_splits)
      then obtain h a ws t' where *: "credit_wallet v h a (wallets2 (current2 s1)) = Inr ws"
          "compute_wallet_credit_on_payout_failure (x_total_collected ?t) (x_source_operator ?t) = Some a"
          "t' = ?t\<lparr>x_payout_status := Some Leg_failed, x_status := Leg_failed_payout,
             x_metadata := jsonb_concat (x_metadata ?t)
               [(''payout_initiation_error'', JStr (fault_text v e)), (''jeko_event_id'', JStr i)]\<rparr>"
          "tell v ?t (Montant_recredite a (x_recipient_name ?t))
             (s1\<lparr>current2 := put_exchange t' ((current2 s1)\<lparr>wallets2 := ws\<rparr>)\<rparr>) = (Inr u, s')"
        by (auto simp: payout_not_initiated_def refund_of_def eff_runs)
      have "rows_of ref (put_exchange t' ((current2 s1)\<lparr>wallets2 := ws\<rparr>)) = [t']"
        using rows stopped(2) assms(3) *(3) by (intro rows_of_put [of _ _ ?t]) simp_all
      with * stopped(2) new st show ?thesis
        by (auto elim!: tell_Inr intro!: refunded [of t' h a ws])
    qed
  qed
qed

lemma payout_transfer_cases:
  assumes "handle_payout_webhook v t st s = (Inr u, s')" "rows_of ref (current2 s) = [t]" "x_reference t = ref"
    and "x_type t = Transfer_kind" "st = Leg_success \<or> st = Leg_failed"
  obtains (old) "x_payout_status t \<in> set TERMINAL_LEG_STATUSES" "s' = s"
  | (paid) t' where "x_payout_status t \<notin> set TERMINAL_LEG_STATUSES" "st = Leg_success"
      "rows_of ref (current2 s') = [t']" "wallets2 (current2 s') = wallets2 (current2 s)"
      "t' = t\<lparr>x_payout_status := Some Leg_success, x_status := Leg_success\<rparr>"
  | (refunded) t' w a ws where "x_payout_status t \<notin> set TERMINAL_LEG_STATUSES" "st = Leg_failed"
      "rows_of ref (current2 s') = [t']" "credit_wallet v w a (wallets2 (current2 s)) = Inr ws"
      "wallets2 (current2 s') = ws" "compute_wallet_credit_on_payout_failure (x_total_collected t) (x_source_operator t) = Some a"
      "t' = t\<lparr>x_payout_status := Some Leg_failed, x_status := Leg_failed_payout\<rparr>"
proof (cases "x_payout_status t \<in> set TERMINAL_LEG_STATUSES")
  case True
  with assms(1) show ?thesis by (intro old) (simp_all add: handle_payout_webhook_def eff_runs)
next
  case new: False
  let ?t = "t\<lparr>x_payout_status := Some st\<rparr>"
  let ?s = "s\<lparr>current2 := put_exchange ?t (current2 s)\<rparr>"
  have rows: "rows_of ref (current2 ?s) = [?t]" using assms(2,3) by (simp add: rows_of_put)
  show ?thesis
  proof (cases "st = Leg_success")
    case True
    with new assms(1,4) have "andThen (save (?t\<lparr>x_status := Leg_success\<rparr>))
        (\<lambda>_. tell v ?t (Transfert_reussi (x_amount t) (x_recipient_name t))) ?s = (Inr u, s')"
      by (simp add: handle_payout_webhook_def Let_def eff_runs)
    then show ?thesis
      using rows_of_put [OF rows, of "?t\<lparr>x_status := Leg_success\<rparr>"] assms(3) new True
      by (auto simp: eff_runs elim!: tell_Inr intro!: paid)
  next
    case False
    with assms(5) have st: "st = Leg_failed" by simp
    let ?t' = "?t\<lparr>x_status := Leg_failed_payout\<rparr>"
    from new assms(1,4) obtain h a ws where *:
        "compute_wallet_credit_on_payout_failure (x_total_collected t) (x_source_operator t) = Some a"
        "credit_wallet v h a (wallets2 (current2 s)) = Inr ws"
        "tell v ?t (Versement_echoue a (x_recipient_name t))
           (?s\<lparr>current2 := (put_exchange ?t' (current2 ?s))\<lparr>wallets2 := ws\<rparr>\<rparr>) = (Inr u, s')"
      unfolding st by (auto simp: handle_payout_webhook_def refund_of_def Let_def eff_runs)
    with rows_of_put [OF rows, of ?t'] assms(3) new st show ?thesis
      by (auto elim!: tell_Inr intro!: refunded [of ?t' h a ws])
  qed
qed

section \<open>A transfer is settled once\<close>

text \<open>The two legs of a transaction are reported on by webhooks, and by the reconciliation, which
  calls the same handlers; either commits the handler's effects or drops them.\<close>

datatype leg_event = In_leg leg_status string | Out_leg leg_status

fun event_status :: "leg_event \<Rightarrow> leg_status" where
  "event_status (In_leg st i) = st"
| "event_status (Out_leg st) = st"

definition handle_event :: "('w, 'j) services \<Rightarrow> exchange_row \<Rightarrow> leg_event \<Rightarrow> ('w, 'j, unit) act" where
  "handle_event v t e =
     (case e of In_leg st i \<Rightarrow> handle_payin_webhook v t st i | Out_leg st \<Rightarrow> handle_payout_webhook v t st)"

definition deliver :: "('w, 'j) services \<Rightarrow> string \<Rightarrow> leg_event \<Rightarrow> ('w, 'j, unit) act" where
  "deliver v ref e =
     in_session
       (andThen (find_exchange (\<lambda>x. x_reference x = ref)) (\<lambda>found.
        case found of
          None \<Rightarrow> raise (Not_found ref)
        | Some t \<Rightarrow> andThen (handle_event v t e) (\<lambda>_. commit2)))"

text \<open>The states of a transfer, with the number of credits to wallets since it was created.\<close>

definition settled_once :: "exchange_row \<Rightarrow> nat \<Rightarrow> bool" where
  "settled_once t credits \<longleftrightarrow> x_type t = Transfer_kind \<and>
     (x_payin_status t \<notin> set TERMINAL_LEG_STATUSES \<and> x_payout_status t = None \<and> x_status t = Leg_pending \<and> credits = 0
    \<or> x_payin_status t = Some Leg_failed \<and> x_payout_status t = None \<and> x_status t = Leg_failed \<and> credits = 0
    \<or> x_payin_status t = Some Leg_success \<and> x_payout_status t = Some Leg_pending \<and> x_status t = Leg_pending \<and> credits = 0
    \<or> x_payin_status t = Some Leg_success \<and> x_payout_status t = Some Leg_success \<and> x_status t = Leg_success \<and> credits = 0
    \<or> x_payin_status t = Some Leg_success \<and> x_payout_status t = Some Leg_failed \<and> x_status t = Leg_failed_payout \<and> credits = 1)"

text \<open>JEKO reports success or failure, and on a pay-out only once it has been asked for.\<close>

definition expected_event :: "exchange_row \<Rightarrow> leg_event \<Rightarrow> bool" where
  "expected_event t e \<longleftrightarrow> event_status e \<in> {Leg_success, Leg_failed} \<and>
     (case e of In_leg st i \<Rightarrow> True | Out_leg st \<Rightarrow> x_payout_status t \<noteq> None)"

text \<open>Nothing but the session's database, the wire and the posts changes before the commit.\<close>

definition session_blind :: "(('w, 'j) world \<Rightarrow> bool) \<Rightarrow> bool" where
  "session_blind I \<longleftrightarrow> (\<forall>s c w p. I (s\<lparr>current2 := c\<rparr>) = I s \<and> I (s\<lparr>wire_of := w\<rparr>) = I s \<and> I (s\<lparr>posted := p\<rparr>) = I s)"

lemma session_blind_examples: "session_blind (\<lambda>s. saved s = S)" "session_blind (\<lambda>s. redis_db s = R \<and> saved s = S)"
  by (simp_all add: session_blind_def)

lemma keeping_blind:
  assumes "session_blind I"
  shows "keeping I (save t)" "keeping I (on_store f)" "keeping I (on_wire m)" "keeping I (wallet_for_update v u)"
    "keeping I (credit v w a)" "keeping I (tell v t al)" "keeping I (find_exchange P)" "keeping I (refund_of t)"
proof -
  show "keeping I (tell v t al)"
    using assms unfolding keeping_def by (auto elim!: tell_Inr simp: session_blind_def)
qed (use assms in \<open>auto simp: session_blind_def keeping_def save_def on_store_def modify_def on_wire_def zoom_def
    wallet_for_update_def credit_def find_exchange_def refund_of_def eff_defs
    split: prod.splits sum.splits list.splits option.splits if_splits\<close>)

lemma keeping_blind_handlers:
  assumes "session_blind I"
  shows "keeping I (handle_payin_webhook v t st i)" "keeping I (handle_payout_webhook v t st)"
  unfolding handle_payin_webhook_def handle_payout_webhook_def initiate_payout_def payout_not_initiated_def Let_def
  by (auto intro!: keeping_intros keeping_blind [OF assms] split: sum.splits)

lemmas keeping_saved = keeping_blind [OF session_blind_examples(1)]

text \<open>Errors come before the commit: what a failing handler leaves is what was saved before.\<close>

definition saves_last :: "('w, 'j, 'a) act \<Rightarrow> bool" where
  "saves_last m \<longleftrightarrow> (\<forall>s e s'. m s = (Inl e, s') \<longrightarrow> saved s' = saved s)"

lemma saves_last_intros:
  "saves_last (raise x)" "saves_last commit2" "saves_last (return y)"
  "(\<And>S. keeping (\<lambda>s. saved s = S) m) \<Longrightarrow> (\<And>x. saves_last (k x)) \<Longrightarrow> saves_last (andThen m k)"
proof -
  assume m: "\<And>S. keeping (\<lambda>s. saved s = S) m" and k: "\<And>x. saves_last (k x)"
  show "saves_last (andThen m k)"
    unfolding saves_last_def
  proof (intro allI impI)
    fix s e s' assume "andThen m k s = (Inl e, s')"
    then show "saved s' = saved s"
    proof (cases rule: andThen_cases)
      case (stopped f)
      from keepingD [OF m stopped(1)] show ?thesis by blast
    next
      case (went_on x s1)
      from keepingD [OF m went_on(1)] k [of x] went_on(2) show ?thesis by (auto simp: saves_last_def)
    qed
  qed
qed (auto simp: saves_last_def commit2_def modify_def raise_def return_def)

lemma in_session_error: "saves_last m \<Longrightarrow> in_session m s = (Inl e, s') \<Longrightarrow> saved s' = saved s \<and> current2 s' = saved s"
  by (fastforce simp: in_session_def saves_last_def split: prod.splits)

lemma keeping_event: "session_blind I \<Longrightarrow> keeping I (handle_event v t e)"
  by (cases e) (auto simp: handle_event_def intro: keeping_blind_handlers)

lemmas keeping_saved_event = keeping_event [OF session_blind_examples(1)]

lemma deliver_cases:
  assumes "deliver v ref e s = (r, s')"
  obtains (dropped) f where "r = Inl f" "saved s' = saved s"
  | (handled) t s1 where "rows_of ref (saved s) = [t]"
      "handle_event v t e (s\<lparr>current2 := saved s\<rparr>) = (Inr (), s1)" "saved s' = current2 s1"
proof (cases r)
  case (Inl f)
  have "saves_last (andThen (find_exchange (\<lambda>x. x_reference x = ref)) (\<lambda>found.
        case found of None \<Rightarrow> raise (Not_found ref) | Some t \<Rightarrow> andThen (handle_event v t e) (\<lambda>_. commit2)))"
    by (auto intro!: saves_last_intros keeping_saved keeping_saved_event split: option.splits)
  with assms Inl show ?thesis
    by (intro dropped [of f]) (auto simp: deliver_def dest: in_session_error)
next
  case (Inr u)
  then obtain s2 where "andThen (find_exchange (\<lambda>x. x_reference x = ref)) (\<lambda>found.
        case found of None \<Rightarrow> raise (Not_found ref) | Some t \<Rightarrow> andThen (handle_event v t e) (\<lambda>_. commit2))
      (s\<lparr>current2 := saved s\<rparr>) = (Inr u, s2)" "saved s' = saved s2"
    using assms by (auto simp: deliver_def in_session_def split: prod.splits)
  then show ?thesis
    using that(2) by (auto simp: eff_runs rows_of_def split: option.splits list.splits)
qed

text \<open>\<open>count\<close> counts the credits made to wallets, in whatever form they are kept.\<close>

definition counts_credits :: "('w, 'j) services \<Rightarrow> ('w \<Rightarrow> nat) \<Rightarrow> bool" where
  "counts_credits v count \<longleftrightarrow> (\<forall>w a ws ws'. credit_wallet v w a ws = Inr ws' \<longrightarrow> count ws' = Suc (count ws))"

lemma deliver_settles:
  assumes "deliver v ref e s = (r, s')" "counts_credits v count"
    and "rows_of ref (saved s) = [t]" "x_reference t = ref" "expected_event t e"
    and "settled_once t (count (wallets2 (saved s)) - n)" "n \<le> count (wallets2 (saved s))"
  shows "\<exists>t'. rows_of ref (saved s') = [t'] \<and> x_reference t' = ref \<and>
    settled_once t' (count (wallets2 (saved s')) - n) \<and> n \<le> count (wallets2 (saved s'))"
  using assms(1)
proof (cases rule: deliver_cases)
  case (dropped f)
  with assms show ?thesis by auto
next
  case (handled t1 s1)
  with assms(3) have t1: "t1 = t" by simp
  let ?s = "s\<lparr>current2 := saved s\<rparr>"
  have rows: "rows_of ref (current2 ?s) = [t]" using assms(3) by simp
  have kind: "x_type t = Transfer_kind" using assms(6) by (simp add: settled_once_def)
  show ?thesis
  proof (cases e)
    case (In_leg st i)
    with handled t1 have h: "handle_payin_webhook v t st i ?s = (Inr (), s1)" by (simp add: handle_event_def)
    have st: "st = Leg_success \<or> st = Leg_failed" using assms(5) In_leg by (simp add: expected_event_def)
    from h rows assms(4) kind st show ?thesis
    proof (cases rule: payin_transfer_cases [consumes 5])
      case old
      with handled assms rows show ?thesis by simp
    next
      case (failed t')
      with handled assms show ?thesis by (auto simp: settled_once_def TERMINAL_LEG_STATUSES_def)
    next
      case (started t' j)
      with handled assms show ?thesis by (auto simp: settled_once_def TERMINAL_LEG_STATUSES_def)
    next
      case (refunded t' w a ws m)
      with handled assms show ?thesis
        by (auto simp: settled_once_def TERMINAL_LEG_STATUSES_def counts_credits_def)
    qed
  next
    case (Out_leg st)
    with handled t1 have h: "handle_payout_webhook v t st ?s = (Inr (), s1)" by (simp add: handle_event_def)
    have st: "st = Leg_success \<or> st = Leg_failed" using assms(5) Out_leg by (simp add: expected_event_def)
    from h rows assms(4) kind st show ?thesis
    proof (cases rule: payout_transfer_cases [consumes 5])
      case old
      with handled assms rows show ?thesis by simp
    next
      case (paid t')
      with handled assms Out_leg show ?thesis
        by (auto simp: settled_once_def expected_event_def TERMINAL_LEG_STATUSES_def)
    next
      case (refunded t' w a ws)
      with handled assms Out_leg show ?thesis
        by (auto simp: settled_once_def expected_event_def TERMINAL_LEG_STATUSES_def counts_credits_def)
    qed
  qed
qed

text \<open>Runs: events that JEKO may report, and anything that does not touch the database.\<close>

inductive settling :: "('w, 'j) services \<Rightarrow> string \<Rightarrow> ('w, 'j) world \<Rightarrow> ('w, 'j) world \<Rightarrow> bool" for v ref s where
  start: "settling v ref s s"
| event: "settling v ref s s1 \<Longrightarrow> rows_of ref (saved s1) = [t] \<Longrightarrow> expected_event t e \<Longrightarrow>
    deliver v ref e s1 = (r, s2) \<Longrightarrow> settling v ref s s2"
| outside: "settling v ref s s1 \<Longrightarrow> saved s2 = saved s1 \<Longrightarrow> settling v ref s s2"

section \<open>A sample transfer\<close>

text \<open>Wallets as the log of credits; a JEKO server that accepts every request.\<close>

definition sample_jeko :: "nat jeko_env" where
  "sample_jeko = \<lparr>jeko_store_id = ''st'', public_base_url = ''https://x'',
     answer_to = (\<lambda>rq n. (Answered 200 (Content (JObj [(''id'', JStr ''wth'')])), Suc n)), str_of = (\<lambda>j. [])\<rparr>"

definition sample_services :: "((nat \<times> decimal) list, nat) services" where
  "sample_services = \<lparr>jeko_of = sample_jeko, operator_value = (\<lambda>x. x), get_wallet_for_update = (\<lambda>u ws. Inr u),
     credit_wallet = (\<lambda>w a ws. Inr ((w, a) # ws)), push_of = None, fault_text = (\<lambda>f. [])\<rparr>"

definition sample_transfer :: exchange_row where
  "sample_transfer = \<lparr>x_reference = ''TRF-1'', x_user_id = 1, x_type = Transfer_kind, x_status = Leg_pending,
     x_payin_status = Some Leg_pending, x_payout_status = None, x_amount = Dec 1000 0, x_platform_fee = Dec 80 0,
     x_total_collected = Dec 1080 0, x_source_operator = ''WAVE'', x_destination_operator = ''MTN'', x_source_phone = ''0701'',
     x_recipient_phone = ''0502'', x_recipient_name = None, x_jeko_payin_id = JStr ''pr'', x_jeko_payout_id = JNull, x_metadata = [],
     x_agent_id = None, x_client_id = None, x_commission_amount = Dec 0 0, x_jeko_reference = JNull, x_created_at = 0\<rparr>"

definition sample_world :: "((nat \<times> decimal) list, nat) world" where
  "sample_world =
     (let st = \<lparr>exchanges = [sample_transfer], devices = [], users2 = [], clients = [], kyc_files = [], wallets2 = []\<rparr>
      in \<lparr>saved = st, current2 = st, redis_db = (\<lambda>_. None), wire_of = \<lparr>server = 0, sent = []\<rparr>, posted = [], background = [], time2 = 0\<rparr>)"

fun deliveries :: "('w, 'j) services \<Rightarrow> string \<Rightarrow> leg_event list \<Rightarrow> ('w, 'j) world \<Rightarrow> ('w, 'j) world" where
  "deliveries v ref [] s = s"
| "deliveries v ref (e # es) s = deliveries v ref es (snd (deliver v ref e s))"

text \<open>An event is expected by the row of the moment.\<close>

fun all_expected :: "('w, 'j) services \<Rightarrow> string \<Rightarrow> leg_event list \<Rightarrow> ('w, 'j) world \<Rightarrow> bool" where
  "all_expected v ref [] s = True"
| "all_expected v ref (e # es) s =
     ((case rows_of ref (saved s) of [t] \<Rightarrow> expected_event t e | _ \<Rightarrow> False) \<and>
      all_expected v ref es (snd (deliver v ref e s)))"

lemma settling_deliveries:
  "settling v ref s s1 \<Longrightarrow> all_expected v ref es s1 \<Longrightarrow> settling v ref s (deliveries v ref es s1)"
proof (induction es arbitrary: s1)
  case (Cons e es)
  from Cons.prems(2) obtain t where "rows_of ref (saved s1) = [t]" "expected_event t e"
    by (auto split: list.splits)
  from settling.event [OF Cons.prems(1) this prod.collapse [symmetric]] Cons show ?case by simp
qed (auto intro: settling.intros)

definition fresh_transfer :: "string \<Rightarrow> exchange_row \<Rightarrow> bool" where
  "fresh_transfer ref t \<longleftrightarrow> x_reference t = ref \<and> x_type t = Transfer_kind \<and> x_status t = Leg_pending \<and>
     x_payin_status t = Some Leg_pending \<and> x_payout_status t = None"

lemma settling_invariant:
  assumes "settling v ref s s'" "counts_credits v count" "rows_of ref (saved s) = [t]" "fresh_transfer ref t"
  shows "\<exists>t'. rows_of ref (saved s') = [t'] \<and> x_reference t' = ref \<and>
    settled_once t' (count (wallets2 (saved s')) - count (wallets2 (saved s))) \<and>
    count (wallets2 (saved s)) \<le> count (wallets2 (saved s'))"
  using assms(1)
proof induction
  case start
  with assms show ?case by (auto simp: fresh_transfer_def settled_once_def TERMINAL_LEG_STATUSES_def)
next
  case (event s1 t1 e r s2)
  then show ?case using deliver_settles [OF event.hyps(4) assms(2) event.hyps(2)] by auto
qed simp

text \<open>A transfer is settled once. Take a transfer as it is created and let JEKO report on its legs
  in any order, any number of times, by webhooks or through the reconciliation, with failures of
  JEKO, of the database and of the push service in between; JEKO reports on the pay-out only
  after it was asked for one. Then at every moment the client's wallet has been credited exactly
  once if the transaction is FAILED_PAYOUT, and not at all otherwise; so never both paid and
  refunded, and never refunded twice.\<close>

theorem transfer_settled_once:
  assumes "settling v ref s s'" "counts_credits v count" "rows_of ref (saved s) = [t]" "fresh_transfer ref t"
  shows "\<exists>t'. rows_of ref (saved s') = [t'] \<and>
    count (wallets2 (saved s')) = count (wallets2 (saved s)) + (if x_status t' = Leg_failed_payout then 1 else 0) \<and>
    (x_status t' = Leg_success \<longrightarrow> x_payin_status t' = Some Leg_success \<and> x_payout_status t' = Some Leg_success)"
  using settling_invariant [OF assms] by (auto simp: settled_once_def)

theorem transfer_settled_once_witness:
  "length (wallets2 (saved (deliveries sample_services ''TRF-1''
     [In_leg Leg_success ''e1'', Out_leg Leg_failed, In_leg Leg_success ''e2'', Out_leg Leg_success, Out_leg Leg_failed] sample_world))) = 1"
proof -
  define es where "es = [In_leg Leg_success ''e1'', Out_leg Leg_failed, In_leg Leg_success ''e2'', Out_leg Leg_success, Out_leg Leg_failed]"
  let ?s = "deliveries sample_services ''TRF-1'' es sample_world"
  have "all_expected sample_services ''TRF-1'' es sample_world" unfolding es_def by code_simp
  from settling_deliveries [OF settling.start this]
  have run: "settling sample_services ''TRF-1'' sample_world ?s" .
  have "counts_credits sample_services length" by (simp add: counts_credits_def sample_services_def)
  from transfer_settled_once [OF run this, of sample_transfer]
  obtain t' where t': "rows_of ''TRF-1'' (saved ?s) = [t']"
    "length (wallets2 (saved ?s)) = (if x_status t' = Leg_failed_payout then 1 else 0)"
    by (auto simp: sample_world_def sample_transfer_def rows_of_def Let_def fresh_transfer_def)
  have "map x_status (rows_of ''TRF-1'' (saved ?s)) = [Leg_failed_payout]" unfolding es_def by code_simp
  with t' show ?thesis unfolding es_def by simp
qed

text \<open>The order of the reports matters. If JEKO's report of a failed pay-out is taken before the
  pay-in is confirmed (the handler looks at neither leg's state), the client is credited, the
  confirmation of the pay-in then starts the pay-out again, and its success leaves a transfer
  that is both refunded and paid.\<close>

theorem payout_report_first_pays_twice:
  "length (wallets2 (saved (deliveries sample_services ''TRF-1''
     [Out_leg Leg_failed, In_leg Leg_success ''e1'', Out_leg Leg_success] sample_world))) = 1 \<and>
   map x_status (rows_of ''TRF-1'' (saved (deliveries sample_services ''TRF-1''
     [Out_leg Leg_failed, In_leg Leg_success ''e1'', Out_leg Leg_success] sample_world))) = [Leg_success]"
  by code_simp

text \<open>The lock is the first thing that an authentic event meets.\<close>

definition event_lock :: "jeko_event \<Rightarrow> string" where
  "event_lock d = ''webhook:jeko:'' @ ev_id d"

definition after_lock :: "jeko_event \<Rightarrow> ('w, 'j) world \<Rightarrow> ('w, 'j) world" where
  "after_lock d s = s\<lparr>current2 := saved s, redis_db := redis_set (time2 s) (event_lock d) ''1'' (Some 86400) (redis_db s)\<rparr>"

definition answer_event :: "('w, 'j) services \<Rightarrow> jeko_event \<Rightarrow> ('w, 'j, webhook_reply) act" where
  "answer_event v d =
     catching
       (andThen (process_new_event v d) (\<lambda>t. andThen commit2 (\<lambda>_. reply_for (x_reference t))))
       (\<lambda>e. case e of
          Already_processed i \<Rightarrow> return (Acknowledged ''already_processed'')
        | Not_found r \<Rightarrow> andThen rollback2 (\<lambda>_. raise (Http_error 404 ''Transaction inconnue''))
        | _ \<Rightarrow> raise e)"

lemma jeko_webhook_run:
  assumes "verify_jeko_signature hmac secret raw sg" "parse raw = Event d"
  shows "jeko_webhook v hmac secret parse raw sg s =
    (if redis_get (time2 s) (event_lock d) (redis_db s) = None
     then let (r, s') = answer_event v d (after_lock d s) in (r, s'\<lparr>current2 := saved s'\<rparr>)
     else (Inr (Acknowledged ''already_processed''), s\<lparr>current2 := saved s\<rparr>))"
proof -
  have lock: "process_jeko_webhook v d (s\<lparr>current2 := saved s\<rparr>) =
      (if redis_get (time2 s) (event_lock d) (redis_db s) = None then process_new_event v d (after_lock d s)
       else (Inl (Already_processed (ev_id d)), s\<lparr>current2 := saved s\<rparr>))"
    unfolding process_jeko_webhook_def acquire_webhook_dedup_lock_def redis_set_nx_def event_lock_def [symmetric]
    by (simp add: andThen_def check_def raise_def return_def after_lock_def)
  show ?thesis
    unfolding jeko_webhook_def in_session_def answer_event_def
    by (simp add: assms catching_def andThen_def lock return_def split: prod.splits sum.splits)
qed

lemma keeping_reply: "keeping I (reply_for ref)"
  unfolding reply_for_def by (rule keeping_basic(3))

lemma keeping_redis: "keeping (\<lambda>s. redis_db s = R) (answer_event v d)"
proof -
  have blind: "session_blind (\<lambda>s. redis_db s = R)" by (simp add: session_blind_def)
  show ?thesis
    unfolding answer_event_def process_new_event_def commit2_def rollback2_def Let_def
    by (auto intro!: keeping_intros keeping_blind(7) [OF blind] keeping_blind_handlers [OF blind] keeping_reply
        split: option.splits fault.splits prod.splits)
qed

lemma jeko_webhook_redis:
  assumes "jeko_webhook v hmac secret parse raw sg s = (r, s')"
    and "verify_jeko_signature hmac secret raw sg" "parse raw = Event d"
    and "redis_get (time2 s) (event_lock d) (redis_db s) = None"
  shows "redis_db s' = redis_db (after_lock d s)"
  using assms keepingD [OF keeping_redis prod.collapse [symmetric], of "after_lock d s" _ v d]
  by (auto simp: jeko_webhook_run [where d = d] split: prod.splits)

text \<open>C33: an event is processed once in a day, even when the processing failed. Whatever the first
  delivery of an authentic event came to, a second one within 24 hours is acknowledged as already
  processed and changes nothing. In particular an event whose processing ended in an error is
  lost: JEKO's retries are not looked at.\<close>

theorem webhook_event_seen_once:
  assumes "jeko_webhook v hmac secret parse raw sg s = (r, s1)"
    and "verify_jeko_signature hmac secret raw sg" "parse raw = Event d"
    and "redis_get (time2 s) (''webhook:jeko:'' @ ev_id d) (redis_db s) = None"
    and "redis_db s2 = redis_db s1" "time2 s2 < time2 s + 86400"
  shows "jeko_webhook v hmac secret parse raw sg s2 = (Inr (Acknowledged ''already_processed''), s2\<lparr>current2 := saved s2\<rparr>)"
proof -
  have "(redis_get (time2 s2) (event_lock d) (redis_db s2) = None) = False"
    using jeko_webhook_redis [OF assms(1-3)] assms(4-6)
    by (simp add: event_lock_def after_lock_def redis.get_put)
  with jeko_webhook_run [of hmac secret raw sg parse d v s2, OF assms(2,3)] show ?thesis
    by (simp only: if_False)
qed

text \<open>An event about an unknown transaction is answered 404; when the transaction exists a moment
  later, the same event is acknowledged without being looked at.\<close>

definition sample_event :: jeko_event where
  "sample_event = \<lparr>ev_id = ''ev-7'', ev_status = ''success'', ev_reference = Some ''TRF-9-IN''\<rparr>"

theorem webhook_event_seen_once_witness:
  "fst (jeko_webhook sample_services (\<lambda>b k. k) ''key'' (\<lambda>b. Event sample_event) ''body'' (Some ''key'') sample_world)
     = Inl (Http_error 404 ''Transaction inconnue'') \<and>
   fst (jeko_webhook sample_services (\<lambda>b k. k) ''key'' (\<lambda>b. Event sample_event) ''body'' (Some ''key'')
     (snd (jeko_webhook sample_services (\<lambda>b k. k) ''key'' (\<lambda>b. Event sample_event) ''body'' (Some ''key'') sample_world)))
     = Inr (Acknowledged ''already_processed'')"
proof -
  let ?call = "jeko_webhook sample_services (\<lambda>b k. k) ''key'' (\<lambda>b. Event sample_event) ''body'' (Some ''key'')"
  have "fst (?call sample_world) = Inl (Http_error 404 ''Transaction inconnue'')"
    "time2 (snd (?call sample_world)) < time2 sample_world + 86400" by code_simp+
  moreover have "verify_jeko_signature (\<lambda>b k. k) ''key'' ''body'' (Some ''key'')" by code_simp
  moreover have "redis_get (time2 sample_world) (''webhook:jeko:'' @ ev_id sample_event) (redis_db sample_world) = None"
    by code_simp
  ultimately show ?thesis
    using webhook_event_seen_once [of sample_services "\<lambda>b k. k" "''key''" "\<lambda>b. Event sample_event" "''body''" "Some ''key''"
        sample_world _ "snd (?call sample_world)" sample_event "snd (?call sample_world)", OF prod.collapse [symmetric]]
    by simp
qed

section \<open>Webhooks deliver\<close>

definition event_of :: "jeko_event \<Rightarrow> string \<Rightarrow> leg_event" where
  "event_of d leg =
     (let st = (if lower (ev_status d) = ''success'' then Leg_success else Leg_failed)
      in if leg = ''IN'' then In_leg st (ev_id d) else Out_leg st)"

lemma event_of_status: "event_status (event_of d leg) \<in> {Leg_success, Leg_failed}"
  by (simp add: event_of_def Let_def)

lemma handle_event_of:
  "(if leg = ''IN'' then handle_payin_webhook v t (if lower (ev_status d) = ''success'' then Leg_success else Leg_failed) (ev_id d)
    else handle_payout_webhook v t (if lower (ev_status d) = ''success'' then Leg_success else Leg_failed))
   = handle_event v t (event_of d leg)"
  by (simp add: event_of_def handle_event_def Let_def)

lemma process_new_event_Inr:
  assumes "process_new_event v d s = (Inr t, s1)"
  shows "\<exists>reference. ev_reference d = Some reference \<and>
    rows_of (fst (split_reference reference)) (current2 s) = [t] \<and>
    handle_event v t (event_of d (snd (split_reference reference))) s = (Inr (), s1)"
proof -
  from assms obtain reference where ref: "ev_reference d = Some reference" "reference \<noteq> []"
    by (auto simp: process_new_event_def eff_runs split: option.splits if_splits)
  obtain base leg where split: "split_reference reference = (base, leg)" by fastforce
  from assms ref split have "andThen (find_exchange (\<lambda>x. x_reference x = base)) (\<lambda>found.
      case found of None \<Rightarrow> raise (Not_found base)
      | Some tx \<Rightarrow> andThen (handle_event v tx (event_of d leg)) (\<lambda>_. return tx)) s = (Inr t, s1)"
    by (simp add: process_new_event_def Let_def handle_event_of)
  with ref split show ?thesis
    by (auto simp: eff_runs rows_of_def split: option.splits list.splits)
qed

lemma keeping_process: "session_blind I \<Longrightarrow> keeping I (process_new_event v d)"
  unfolding process_new_event_def Let_def
  by (auto intro!: keeping_intros keeping_blind(7) keeping_blind_handlers split: option.splits prod.splits)

lemma answer_event_delivers:
  assumes "answer_event v d s = (r, s')" "current2 s = saved s"
  shows "saved s' = saved s \<or> (\<exists>reference s2. ev_reference d = Some reference \<and>
    deliver v (fst (split_reference reference)) (event_of d (snd (split_reference reference))) s = (Inr (), s2) \<and>
    saved s' = saved s2)"
proof -
  obtain q s1 where q: "process_new_event v d s = (q, s1)" by fastforce
  have s: "s\<lparr>current2 := saved s\<rparr> = s" using assms(2) by (metis world.surjective world.update_convs(2))
  show ?thesis
  proof (cases q)
    case (Inl e)
    from keepingD [OF keeping_process [OF session_blind_examples(1)] q] have "saved s1 = saved s" by blast
    with assms(1) q Inl show ?thesis
      by (auto simp: answer_event_def catching_def andThen_def raise_def return_def rollback2_def modify_def
          split: fault.splits)
  next
    case (Inr t)
    with q process_new_event_Inr [of v d s t s1] obtain reference where
      *: "ev_reference d = Some reference" "rows_of (fst (split_reference reference)) (current2 s) = [t]"
        "handle_event v t (event_of d (snd (split_reference reference))) s = (Inr (), s1)" by auto
    from assms(1) q Inr have "saved s' = current2 s1"
      by (auto simp: answer_event_def catching_def andThen_def commit2_def modify_def reply_for_def gets_def)
    moreover have "deliver v (fst (split_reference reference)) (event_of d (snd (split_reference reference))) s =
        (Inr (), s1\<lparr>saved := current2 s1, current2 := current2 s1\<rparr>)"
      using * by (simp add: deliver_def in_session_def s andThen_def find_exchange_def gets_def rows_of_def
          return_def commit2_def modify_def)
    ultimately show ?thesis using *(1) by (intro disjI2 exI [of _ reference] exI conjI) auto
  qed
qed

text \<open>So a webhook about a transaction is a step of its settling.\<close>

lemma jeko_webhook_settling:
  assumes "settling v ref s s1" "jeko_webhook v hmac secret parse raw sg s1 = (r, s2)"
    and "parse raw = Event d" "ev_reference d = Some reference" "split_reference reference = (ref, leg)"
    and "rows_of ref (saved s1) = [t]" "expected_event t (event_of d leg)"
  shows "settling v ref s s2"
proof (cases "verify_jeko_signature hmac secret raw sg \<and> redis_get (time2 s1) (event_lock d) (redis_db s1) = None")
  case True
  then have auth: "verify_jeko_signature hmac secret raw sg" by simp
  obtain q s' where q: "answer_event v d (after_lock d s1) = (q, s')" by fastforce
  with True assms(2) have s2: "saved s2 = saved s'"
    by (auto simp: jeko_webhook_run [of hmac secret raw sg parse d, OF auth assms(3)] split: prod.splits)
  have al: "saved (after_lock d s1) = saved s1" "current2 (after_lock d s1) = saved s1" by (simp_all add: after_lock_def)
  have start: "settling v ref s (after_lock d s1)" by (rule settling.outside [OF assms(1) al(1)])
  from answer_event_delivers [OF q] al assms(4,5) consider "saved s' = saved s1"
    | (delivered) s3 where "deliver v ref (event_of d leg) (after_lock d s1) = (Inr (), s3)" "saved s' = saved s3" by auto
  then show ?thesis
  proof cases
    case 1
    with s2 show ?thesis by (intro settling.outside [OF assms(1)]) simp
  next
    case delivered
    from settling.event [OF start _ assms(7) delivered(1)] assms(6) al have "settling v ref s s3" by simp
    then show ?thesis by (rule settling.outside) (simp add: s2 delivered(2))
  qed
next
  case False
  have "saved s2 = saved s1"
  proof (cases "verify_jeko_signature hmac secret raw sg")
    case True
    with False have "(redis_get (time2 s1) (event_lock d) (redis_db s1) = None) = False" by simp
    with jeko_webhook_run [of hmac secret raw sg parse d v s1, OF True assms(3)] assms(2)
    have "(r, s2) = (Inr (Acknowledged ''already_processed''), s1\<lparr>current2 := saved s1\<rparr>)" by (simp only: if_False)
    then show ?thesis by simp
  next
    case False
    with assms(2) show ?thesis by (auto simp: jeko_webhook_def in_session_def raise_def)
  qed
  then show ?thesis by (rule settling.outside [OF assms(1)])
qed

end
