(* ===== verification/Reconcile.thy ===== *)
theory Reconcile
  imports WebhookContract
begin

text \<open>
  \<open>app/services/reconciliation.py\<close>, which asks JEKO for the real state of the pending legs of a
  transaction, \<open>app/services/auto_reconcile.py\<close>, which does so three times in the background,
  and the command-line script \<open>reconcile_pending_transactions.py\<close>.
\<close>

text \<open>\<open>map_jeko_status\<close> of a value read from JSON; only a string has \<open>lower\<close>.\<close>

definition map_jeko_status :: "json \<Rightarrow> fault + leg_status option" where
  "map_jeko_status raw_status =
     (case raw_status of
        JNull \<Rightarrow> Inr None
      | JStr s \<Rightarrow>
          Inr (if lower s \<in> {''success'', ''completed'', ''successful''} then Some Leg_success
               else if lower s \<in> {''error'', ''failed'', ''cancelled'', ''canceled'', ''rejected''} then Some Leg_failed
               else None)
      | _ \<Rightarrow> Inl Attribute_error)"

datatype rec_action =
    Payin_ignored
  | Payin_unverifiable fault
  | Payin_still_pending
  | Payin_really leg_status
  | Payin_handled leg_status
  | Payout_ignored
  | Payout_unverifiable fault
  | Payout_still_pending
  | Payout_really leg_status
  | Payout_handled leg_status
  | Nothing_to_do

record report =
  rp_reference :: string
  rp_apply :: bool
  rp_type :: tx_kind
  rp_status_before :: leg_status
  rp_payin_before :: "leg_status option"
  rp_payout_before :: "leg_status option"
  rp_actions :: "rec_action list"
  rp_status_after :: leg_status

text \<open>\<open>try ... except (JekoAPIError, JekoNetworkError)\<close>.\<close>

definition asked :: "('j wire, fault, json) eff \<Rightarrow> ('w, 'j, fault + json) act" where
  "asked m =
     catching (andThen (on_wire m) (\<lambda>x. return (Inr x)))
       (\<lambda>e. if is_jeko_error e then return (Inl e) else raise e)"

definition raw_status :: "json \<Rightarrow> ('w, 'j, leg_status option) act" where
  "raw_status data =
     (case bindE (answer_get data ''status'') map_jeko_status of Inl e \<Rightarrow> raise e | Inr st \<Rightarrow> return st)"

text \<open>\<open>transaction.status\<close> as it is now.\<close>

definition status_now :: "exchange_row \<Rightarrow> ('w, 'j, leg_status) act" where
  "status_now t = gets (\<lambda>s. case find (\<lambda>x. x_reference x = x_reference t) (exchanges (current2 s)) of
     None \<Rightarrow> x_status t | Some x \<Rightarrow> x_status x)"

definition report_of :: "bool \<Rightarrow> exchange_row \<Rightarrow> rec_action list \<Rightarrow> ('w, 'j, report) act" where
  "report_of apply t actions =
     andThen (status_now t) (\<lambda>after.
     return \<lparr>rp_reference = x_reference t, rp_apply = apply, rp_type = x_type t, rp_status_before = x_status t,
       rp_payin_before = x_payin_status t, rp_payout_before = x_payout_status t, rp_actions = actions,
       rp_status_after = after\<rparr>)"

text \<open>Handle and commit when the corrections are to be applied.\<close>

definition apply_event :: "('w, 'j) services \<Rightarrow> bool \<Rightarrow> exchange_row \<Rightarrow> leg_event \<Rightarrow> ('w, 'j, unit) act" where
  "apply_event v apply t e = (if apply then andThen (handle_event v t e) (\<lambda>_. commit2) else return ())"

definition reconcile_payout :: "('w, 'j) services \<Rightarrow> bool \<Rightarrow> exchange_row \<Rightarrow> rec_action list \<Rightarrow> ('w, 'j, report) act" where
  "reconcile_payout v apply t actions =
     (if x_payout_status t = Some Leg_pending then
        if \<not> truthy (x_jeko_payout_id t) then report_of apply t (actions @ [Payout_ignored])
        else
          andThen (asked (get_transfer_status (jeko_of v) (x_jeko_payout_id t))) (\<lambda>answer.
          case answer of
            Inl e \<Rightarrow> report_of apply t (actions @ [Payout_unverifiable e])
          | Inr jeko_data \<Rightarrow>
              andThen (raw_status jeko_data) (\<lambda>new_status.
              case new_status of
                None \<Rightarrow> report_of apply t (actions @ [Payout_still_pending])
              | Some st \<Rightarrow>
                  andThen (apply_event v apply t (Out_leg st)) (\<lambda>_.
                  andThen (status_now t) (\<lambda>after.
                  report_of apply t (actions @ [Payout_really st] @ (if apply then [Payout_handled after] else []))))))
      else report_of apply t (if actions = [] then [Nothing_to_do] else actions))"

definition reconcile_row :: "('w, 'j) services \<Rightarrow> bool \<Rightarrow> exchange_row \<Rightarrow> ('w, 'j, report) act" where
  "reconcile_row v apply t =
     (if x_type t = Transfer_kind \<and> x_payin_status t = Some Leg_pending then
        if \<not> truthy (x_jeko_payin_id t) then reconcile_payout v apply t [Payin_ignored]
        else
          andThen (asked (get_payment_request_status (jeko_of v) (x_jeko_payin_id t))) (\<lambda>answer.
          case answer of
            Inl e \<Rightarrow> report_of apply t [Payin_unverifiable e]
          | Inr jeko_data \<Rightarrow>
              andThen (raw_status jeko_data) (\<lambda>new_status.
              case new_status of
                None \<Rightarrow> reconcile_payout v apply t [Payin_still_pending]
              | Some st \<Rightarrow>
                  andThen (apply_event v apply t (In_leg st ''admin-reconcile'')) (\<lambda>_.
                  andThen (status_now t) (\<lambda>after.
                  report_of apply t ([Payin_really st] @ (if apply then [Payin_handled after] else []))))))
      else reconcile_payout v apply t [])"

definition reconcile_transaction_by_reference ::
  "('w, 'j) services \<Rightarrow> string \<Rightarrow> bool \<Rightarrow> ('w, 'j, report) act" where
  "reconcile_transaction_by_reference v internal_reference apply =
     andThen (find_exchange (\<lambda>x. x_reference x = internal_reference)) (\<lambda>found.
     case found of
       None \<Rightarrow> raise (Unknown_for_reconciliation internal_reference)
     | Some t \<Rightarrow> reconcile_row v apply t)"

section \<open>In the background, and from the shell\<close>

definition TERMINAL_STATUSES :: "leg_status list" where
  "TERMINAL_STATUSES = [Leg_success, Leg_failed, Leg_failed_payout]"

definition RETRY_DELAYS_SECONDS :: "nat list" where
  "RETRY_DELAYS_SECONDS = [300, 180, 180]"

text \<open>One turn of the loop; the result says whether the loop ends.\<close>

definition auto_reconcile_turn :: "('w, 'j) services \<Rightarrow> string \<Rightarrow> ('w, 'j, bool) act" where
  "auto_reconcile_turn v internal_reference =
     catching
       (in_session
          (andThen (find_exchange (\<lambda>x. x_reference x = internal_reference)) (\<lambda>found.
           case found of
             None \<Rightarrow> return True
           | Some t \<Rightarrow>
               if x_status t \<in> set TERMINAL_STATUSES then return True
               else andThen (reconcile_transaction_by_reference v internal_reference True) (\<lambda>_. return False))))
       (\<lambda>e. case e of Unknown_for_reconciliation r \<Rightarrow> return True | _ \<Rightarrow> return False)"

text \<open>\<open>wait d\<close> is whatever happens elsewhere while the task sleeps for \<open>d\<close> seconds.\<close>

fun auto_reconcile_loop ::
  "('w, 'j) services \<Rightarrow> (nat \<Rightarrow> ('w, 'j) world \<Rightarrow> ('w, 'j) world) \<Rightarrow> string \<Rightarrow> nat list \<Rightarrow> ('w, 'j, unit) act" where
  "auto_reconcile_loop v wait ref [] = return ()"
| "auto_reconcile_loop v wait ref (delay # delays) =
     andThen (modify (wait delay)) (\<lambda>_.
     andThen (auto_reconcile_turn v ref) (\<lambda>stop.
     if stop then return () else auto_reconcile_loop v wait ref delays))"

definition schedule_auto_reconcile ::
  "('w, 'j) services \<Rightarrow> (nat \<Rightarrow> ('w, 'j) world \<Rightarrow> ('w, 'j) world) \<Rightarrow> string \<Rightarrow> ('w, 'j, unit) act" where
  "schedule_auto_reconcile v wait internal_reference = auto_reconcile_loop v wait internal_reference RETRY_DELAYS_SECONDS"

text \<open>The script: what it prints, or \<open>None\<close> for an unknown reference.\<close>

definition main_reconcile :: "('w, 'j) services \<Rightarrow> string \<Rightarrow> bool \<Rightarrow> ('w, 'j, report option) act" where
  "main_reconcile v reference apply =
     in_session
       (catching (andThen (reconcile_transaction_by_reference v reference apply) (\<lambda>r. return (Some r)))
         (\<lambda>e. case e of Unknown_for_reconciliation r \<Rightarrow> return None | _ \<Rightarrow> raise e))"

section \<open>A dry run only asks\<close>

text \<open>The database and the posts stay, and every request sent is a GET.\<close>

definition asks_only :: "('w, 'j) world \<Rightarrow> ('w, 'j) world \<Rightarrow> bool" where
  "asks_only s s' \<longleftrightarrow> saved s' = saved s \<and> current2 s' = current2 s \<and> posted s' = posted s \<and> redis_db s' = redis_db s \<and>
     (\<exists>rqs. sent (wire_of s') = sent (wire_of s) @ rqs \<and> list_all (\<lambda>q. rq_method q = ''GET'' \<and> rq_body q = None) rqs)"

lemma asks_only_refl: "asks_only s s"
  by (auto simp: asks_only_def)

lemma keeping_asked:
  assumes "\<And>w r w'. m w = (r, w') \<Longrightarrow> \<exists>n p. sent w' = sent w @ replicate n \<lparr>rq_method = ''GET'', rq_path = p, rq_body = None\<rparr>"
  shows "keeping (asks_only s) (asked m)"
proof -
  have "keeping (asks_only s) (on_wire m)"
    unfolding keeping_def on_wire_def zoom_def
  proof (intro allI impI)
    fix s1 r s2 assume I: "asks_only s s1" and run: "(let (r, t) = m (wire_of s1) in (r, s1\<lparr>wire_of := t\<rparr>)) = (r, s2)"
    obtain q w where q: "m (wire_of s1) = (q, w)" by fastforce
    from assms [OF q] obtain n p where
      "sent w = sent (wire_of s1) @ replicate n \<lparr>rq_method = ''GET'', rq_path = p, rq_body = None\<rparr>" by blast
    with I run q show "asks_only s s2" by (auto simp: asks_only_def list_all_iff)
  qed
  then show ?thesis unfolding asked_def by (auto intro!: keeping_intros)
qed

lemma keeping_asked_jeko:
  "keeping (asks_only s) (asked (get_transfer_status k i))" "keeping (asks_only s) (asked (get_payment_request_status k i))"
  unfolding get_transfer_status_def get_payment_request_status_def
  by (rule keeping_asked, drule jeko_request_sent, blast)+

lemma keeping_reports:
  "keeping I (report_of a t acts)" "keeping I (raw_status d)" "keeping I (status_now t)" "keeping I (find_exchange P)"
  by (auto simp: keeping_def report_of_def raw_status_def status_now_def find_exchange_def eff_defs
      split: sum.splits option.splits list.splits)

lemma dry_run_asks: "keeping (asks_only s) (reconcile_transaction_by_reference v ref False)"
proof -
  have "keeping (asks_only s) (reconcile_payout v False t acts)" for t acts
    unfolding reconcile_payout_def apply_event_def
    by (auto intro!: keeping_intros keeping_asked_jeko keeping_reports split: sum.splits option.splits)
  then show ?thesis
    unfolding reconcile_transaction_by_reference_def reconcile_row_def apply_event_def
    by (auto intro!: keeping_intros keeping_asked_jeko keeping_reports split: sum.splits option.splits)
qed

text \<open>C35: a dry run changes nothing. Without \<open>apply\<close>, the reconciliation of any transaction, whatever
  JEKO answers, leaves the database, Redis and the notifications as they are and sends JEKO
  nothing but GET requests.\<close>

theorem reconcile_dry_run:
  assumes "reconcile_transaction_by_reference v ref False s = (r, s')"
  shows "saved s' = saved s \<and> current2 s' = current2 s \<and> posted s' = posted s \<and> redis_db s' = redis_db s \<and>
    (\<exists>rqs. sent (wire_of s') = sent (wire_of s) @ rqs \<and> list_all (\<lambda>q. rq_method q = ''GET'' \<and> rq_body q = None) rqs)"
  using keepingD [OF dry_run_asks assms asks_only_refl] by (simp only: asks_only_def)

end
