(* ===== verification/ReconcileContract.thy ===== *)
theory ReconcileContract
  imports Reconcile
begin

text \<open>
  The reconciliation is a step of the settling of a transfer like a webhook is, so what is proved
  of \<open>settling\<close> holds with it in between; the background task always comes to an end.
\<close>

section \<open>Programs that deliver at most one event\<close>

definition quiet :: "('w, 'j, 'a) act \<Rightarrow> bool" where
  "quiet m \<longleftrightarrow> (\<forall>s r s'. m s = (r, s') \<longrightarrow> saved s' = saved s \<and> current2 s' = current2 s)"

definition delivers :: "('w, 'j) services \<Rightarrow> exchange_row \<Rightarrow> ('w, 'j, 'a) act \<Rightarrow> bool" where
  "delivers v t m \<longleftrightarrow> (\<forall>s r s'. current2 s = saved s \<longrightarrow> m s = (r, s') \<longrightarrow>
     saved s' = saved s \<or>
     (\<exists>e s0 s1. saved s0 = saved s \<and> current2 s0 = saved s0 \<and> expected_event t e \<and>
        handle_event v t e s0 = (Inr (), s1) \<and> saved s' = current2 s1))"

lemma quiet_basic:
  "quiet (return x)" "quiet (raise e)" "quiet (gets g)" "quiet (status_now t)" "quiet (raw_status d)" "quiet (find_exchange P)"
  by (auto simp: quiet_def status_now_def raw_status_def find_exchange_def eff_defs split: sum.splits list.splits option.splits)

lemma quiet_andThen: "quiet m \<Longrightarrow> (\<And>x. quiet (k x)) \<Longrightarrow> quiet (andThen m k)"
  unfolding quiet_def by (intro allI impI, erule andThen_cases) (metis)+

lemma quiet_wire: "quiet (on_wire m)"
  by (auto simp: quiet_def on_wire_def zoom_def split: prod.splits)

lemma quiet_catching: "quiet m \<Longrightarrow> (\<And>e. quiet (h e)) \<Longrightarrow> quiet (catching m h)"
  unfolding quiet_def catching_def by (fastforce split: prod.splits sum.splits)

lemma quiet_asked: "quiet (asked m)"
  unfolding asked_def by (intro quiet_catching quiet_andThen quiet_wire) (simp_all add: quiet_basic)

lemma quiet_report: "quiet (report_of a t acts)"
  unfolding report_of_def by (intro quiet_andThen quiet_basic)

lemma delivers_quiet: "quiet m \<Longrightarrow> delivers v t m"
  by (auto simp: quiet_def delivers_def)

lemma delivers_andThen:
  assumes "quiet m" "\<And>x. delivers v t (k x)"
  shows "delivers v t (andThen m k)"
  unfolding delivers_def
proof (intro allI impI)
  fix s r s' assume eq: "current2 s = saved s" and "andThen m k s = (r, s')"
  from this(2) show "saved s' = saved s \<or> (\<exists>e s0 s1. saved s0 = saved s \<and> current2 s0 = saved s0 \<and>
      expected_event t e \<and> handle_event v t e s0 = (Inr (), s1) \<and> saved s' = current2 s1)"
  proof (cases rule: andThen_cases)
    case (stopped e)
    with assms(1) show ?thesis by (auto simp: quiet_def)
  next
    case (went_on x s1)
    with assms(1) eq have "saved s1 = saved s" "current2 s1 = saved s1" by (auto simp: quiet_def)
    with went_on(2) assms(2) [of x] show ?thesis unfolding delivers_def by metis
  qed
qed

lemma delivers_apply:
  assumes "expected_event t e" "\<And>x. quiet (k x)"
  shows "delivers v t (andThen (apply_event v True t e) k)"
  unfolding delivers_def
proof (intro allI impI)
  fix s r s' assume eq: "current2 s = saved s" and run: "andThen (apply_event v True t e) k s = (r, s')"
  obtain q s1 where q: "handle_event v t e s = (q, s1)" by fastforce
  show "saved s' = saved s \<or> (\<exists>e s0 s1. saved s0 = saved s \<and> current2 s0 = saved s0 \<and>
      expected_event t e \<and> handle_event v t e s0 = (Inr (), s1) \<and> saved s' = current2 s1)"
  proof (cases q)
    case (Inl f)
    with q run have "s' = s1" by (simp add: apply_event_def andThen_def)
    moreover from keepingD [OF keeping_saved_event q] have "saved s1 = saved s" by blast
    ultimately show ?thesis by simp
  next
    case (Inr u)
    with q run have "k () (s1\<lparr>saved := current2 s1\<rparr>) = (r, s')"
      by (simp add: apply_event_def andThen_def commit2_def modify_def)
    with assms(2) [of "()"] have "saved s' = current2 s1" by (auto simp: quiet_def)
    with q Inr eq assms(1) show ?thesis by auto
  qed
qed

lemma raw_status_outcome: "raw_status d s = (Inr (Some st), s') \<Longrightarrow> st \<in> {Leg_success, Leg_failed}"
proof -
  have "map_jeko_status j = Inr (Some st) \<Longrightarrow> st \<in> {Leg_success, Leg_failed}" for j
    by (cases j) (auto simp: map_jeko_status_def split: if_splits)
  then show "raw_status d s = (Inr (Some st), s') \<Longrightarrow> ?thesis"
    by (auto simp: raw_status_def eff_defs outcome_simps split: sum.splits)
qed

text \<open>After \<open>raw_status\<close> only the two outcomes come.\<close>

lemma delivers_raw:
  assumes "delivers v t (k None)" "delivers v t (k (Some Leg_success))" "delivers v t (k (Some Leg_failed))"
  shows "delivers v t (andThen (raw_status d) k)"
  unfolding delivers_def
proof (intro allI impI)
  fix s r s' assume eq: "current2 s = saved s" and "andThen (raw_status d) k s = (r, s')"
  from this(2) show "saved s' = saved s \<or> (\<exists>e s0 s1. saved s0 = saved s \<and> current2 s0 = saved s0 \<and>
      expected_event t e \<and> handle_event v t e s0 = (Inr (), s1) \<and> saved s' = current2 s1)"
  proof (cases rule: andThen_cases)
    case (stopped e)
    with quiet_basic(5) [of d] show ?thesis by (auto simp: quiet_def)
  next
    case (went_on x s1)
    from quiet_basic(5) [of d] went_on(1) have "saved s1 = saved s \<and> current2 s1 = current2 s"
      unfolding quiet_def by blast
    with eq have s1: "saved s1 = saved s" "current2 s1 = saved s1" by simp_all
    have "delivers v t (k x)"
      using assms raw_status_outcome [of d s _ s1] went_on(1) by (cases x) auto
    with went_on(2) s1 show ?thesis unfolding delivers_def by metis
  qed
qed

lemma delivers_reconcile: "delivers v t (reconcile_row v True t)"
proof -
  have ex: "expected_event t (In_leg Leg_success i)" "expected_event t (In_leg Leg_failed i)" for i
    by (simp_all add: expected_event_def)
  have payout: "delivers v t (reconcile_payout v True t acts)" for acts
  proof (cases "x_payout_status t = Some Leg_pending")
    case True
    then have "expected_event t (Out_leg Leg_success)" "expected_event t (Out_leg Leg_failed)"
      by (simp_all add: expected_event_def)
    then show ?thesis
      unfolding reconcile_payout_def
      by (auto intro!: delivers_quiet [OF quiet_report] delivers_andThen [OF quiet_asked] delivers_raw delivers_apply
          quiet_andThen quiet_report quiet_basic split: sum.splits)
  qed (simp add: reconcile_payout_def delivers_quiet quiet_report)
  show ?thesis
    unfolding reconcile_row_def
    by (auto intro!: payout delivers_quiet [OF quiet_report] delivers_andThen [OF quiet_asked] delivers_raw delivers_apply ex
        quiet_andThen quiet_report quiet_basic split: sum.splits)
qed

section \<open>Settling with reconciliations\<close>

lemma find_exchange_rows:
  "rows_of ref (current2 s) = [t] \<Longrightarrow> find_exchange (\<lambda>x. x_reference x = ref) s = (Inr (Some t), s)"
  by (simp add: find_exchange_def rows_of_def andThen_def gets_def return_def)

lemma delivers_settling:
  assumes "settling v ref s s1" "rows_of ref (saved s1) = [t]" "x_reference t = ref" "delivers v t m"
    and "saved s2 = saved s1" "current2 s2 = saved s2" "m s2 = (r, s3)"
  shows "settling v ref s s3"
proof -
  from assms(4,6,7) consider "saved s3 = saved s2"
    | e s0 s4 where "saved s0 = saved s2" "current2 s0 = saved s0" "expected_event t e"
        "handle_event v t e s0 = (Inr (), s4)" "saved s3 = current2 s4"
    unfolding delivers_def by metis
  then show ?thesis
  proof cases
    case 1
    with assms(1,5) show ?thesis by (auto intro: settling.outside)
  next
    case (2 e s0 s4)
    have s0: "s0\<lparr>current2 := saved s0\<rparr> = s0" using 2(2) by (metis world.surjective world.update_convs(2))
    have "find_exchange (\<lambda>x. x_reference x = ref) s0 = (Inr (Some t), s0)"
      using 2(1,2) assms(2,5) by (intro find_exchange_rows) simp
    then have del: "deliver v ref e s0 = (Inr (), s4\<lparr>saved := current2 s4, current2 := current2 s4\<rparr>)"
      unfolding deliver_def in_session_def s0 by (simp add: andThen_def 2(4) commit2_def modify_def)
    have "settling v ref s s0" using 2(1) assms(5) by (intro settling.outside [OF assms(1)]) simp
    moreover have "rows_of ref (saved s0) = [t]" using 2(1) assms(2,5) by simp
    ultimately have "settling v ref s (s4\<lparr>saved := current2 s4, current2 := current2 s4\<rparr>)"
      by (rule settling.event [OF _ _ 2(3) del])
    then show ?thesis by (rule settling.outside) (simp add: 2(5))
  qed
qed

lemma turn_settling:
  assumes "settling v ref s s1" "rows_of ref (saved s1) = [t]" "x_reference t = ref"
    and "auto_reconcile_turn v ref s1 = (r, s2)"
  shows "settling v ref s s2"
proof -
  let ?s = "s1\<lparr>current2 := saved s1\<rparr>"
  let ?m = "andThen (find_exchange (\<lambda>x. x_reference x = ref)) (\<lambda>found. case found of None \<Rightarrow> return True
      | Some t \<Rightarrow> if x_status t \<in> set TERMINAL_STATUSES then return True
          else andThen (reconcile_transaction_by_reference v ref True) (\<lambda>_. return False))"
  have found: "find_exchange (\<lambda>x. x_reference x = ref) ?s = (Inr (Some t), ?s)"
    using assms(2) by (simp add: find_exchange_rows)
  obtain q s3 where q: "?m ?s = (q, s3)" by fastforce
  have "saved s2 = saved s3"
    using assms(4) q by (auto simp: auto_reconcile_turn_def catching_def in_session_def return_def split: sum.splits fault.splits)
  moreover have "settling v ref s s3"
  proof (cases "x_status t \<in> set TERMINAL_STATUSES")
    case True
    with q found have "s3 = ?s" by (simp add: andThen_def return_def)
    then show ?thesis by (intro settling.outside [OF assms(1)]) simp
  next
    case False
    with q found have run: "andThen (reconcile_row v True t) (\<lambda>_. return False) ?s = (q, s3)"
      by (simp add: andThen_def reconcile_transaction_by_reference_def split: prod.splits sum.splits)
    then obtain q' where "reconcile_row v True t ?s = (q', s3)"
      by (cases rule: andThen_cases) (auto simp: return_def)
    from delivers_settling [OF assms(1-3) delivers_reconcile _ _ this] show ?thesis by simp
  qed
  ultimately show ?thesis by (rule settling.outside [rotated])
qed

section \<open>The background task\<close>

lemma turn_returns: "\<exists>b s'. auto_reconcile_turn v ref s = (Inr b, s')"
  by (auto simp: auto_reconcile_turn_def catching_def return_def split: prod.splits sum.splits fault.splits)

lemma loop_returns: "fst (auto_reconcile_loop v wait ref ds s) = Inr ()"
proof (induction ds arbitrary: s)
  case (Cons d ds)
  obtain b s' where "auto_reconcile_turn v ref (wait d s) = (Inr b, s')" using turn_returns by blast
  with Cons show ?case by (simp add: andThen_def modify_def return_def)
qed (simp add: return_def)

lemma loop_settling:
  assumes "counts_credits v count" "rows_of ref (saved s) = [t]" "fresh_transfer ref t"
    and wait: "\<And>d a. settling v ref s a \<Longrightarrow> settling v ref s (wait d a)"
    and "settling v ref s s1"
  shows "settling v ref s (snd (auto_reconcile_loop v wait ref ds s1))"
  using assms(5)
proof (induction ds arbitrary: s1)
  case (Cons d ds)
  have w: "settling v ref s (wait d s1)" using Cons.prems by (rule wait)
  from settling_invariant [OF w assms(1-3)] obtain t1 where
    t1: "rows_of ref (saved (wait d s1)) = [t1]" "x_reference t1 = ref" by blast
  obtain b s2 where turn: "auto_reconcile_turn v ref (wait d s1) = (Inr b, s2)" using turn_returns by blast
  from turn_settling [OF w t1 turn] Cons.IH turn show ?case
    by (simp add: andThen_def modify_def return_def)
qed (simp add: return_def)


text \<open>JEKO answers that the pay-in succeeded and then refuses to pay out: one refund.\<close>

definition refusing_jeko :: "nat jeko_env" where
  "refusing_jeko = sample_jeko\<lparr>answer_to := (\<lambda>rq n. if rq_method rq = ''GET''
     then (Answered 200 (Content (JObj [(''status'', JStr ''success'')])), n)
     else (Answered 422 (Content (JObj [])), n))\<rparr>"

definition refusing_services :: "((nat \<times> decimal) list, nat) services" where
  "refusing_services = sample_services\<lparr>jeko_of := refusing_jeko\<rparr>"


text \<open>A dry run on the sample.\<close>

theorem reconcile_dry_run_witness:
  "saved (snd (reconcile_transaction_by_reference refusing_services ''TRF-1'' False sample_world)) = saved sample_world"
  using reconcile_dry_run [OF prod.collapse [symmetric], of refusing_services "''TRF-1''" sample_world] by blast

end
