(* ===== verification/Races.thy ===== *)
theory Races
  imports WebhookContract
begin

text \<open>
  Reports of JEKO that are handled at the same time. \<open>process_jeko_webhook\<close> and
  \<open>reconcile_transaction_by_reference\<close> load the transaction without locking its row, and then work on
  what they loaded; the lock in Redis only keeps one event from being handled twice, and the
  reconciliation takes none. So two sessions can have loaded a transaction before either of them
  commits. A session is loading, then handling; each of the two is one step.
\<close>

datatype delivery =
    Incoming leg_event
  | Loaded leg_event exchange_row
  | Handled "fault + unit"

record ('w, 'j) receiving =
  world_of :: "('w, 'j) world"
  sessions :: "delivery list"

definition all_incoming :: "('w, 'j) world \<Rightarrow> leg_event list \<Rightarrow> ('w, 'j) receiving" where
  "all_incoming s es = \<lparr>world_of = s, sessions = map Incoming es\<rparr>"

definition load :: "string \<Rightarrow> ('w, 'j, exchange_row) act" where
  "load ref =
     in_session
       (andThen (find_exchange (\<lambda>x. x_reference x = ref)) (\<lambda>found.
        case found of None \<Rightarrow> raise (Not_found ref) | Some t \<Rightarrow> return t))"

definition handle_loaded :: "('w, 'j) services \<Rightarrow> exchange_row \<Rightarrow> leg_event \<Rightarrow> ('w, 'j, unit) act" where
  "handle_loaded v t e = in_session (andThen (handle_event v t e) (\<lambda>_. commit2))"

definition progress :: "('w, 'j) services \<Rightarrow> string \<Rightarrow> nat \<Rightarrow> ('w, 'j) receiving \<Rightarrow> ('w, 'j) receiving" where
  "progress v ref i y =
     (if length (sessions y) \<le> i then y
      else case sessions y ! i of
        Incoming e \<Rightarrow>
          (let (r, s) = load ref (world_of y) in
           \<lparr>world_of = s, sessions = (sessions y)[i := (case r of Inl f \<Rightarrow> Handled (Inl f) | Inr t \<Rightarrow> Loaded e t)]\<rparr>)
      | Loaded e t \<Rightarrow>
          (let (r, s) = handle_loaded v t e (world_of y) in
           \<lparr>world_of = s, sessions = (sessions y)[i := Handled r]\<rparr>)
      | Handled r \<Rightarrow> y)"

definition in_order :: "('w, 'j) services \<Rightarrow> string \<Rightarrow> nat list \<Rightarrow> ('w, 'j) receiving \<Rightarrow> ('w, 'j) receiving" where
  "in_order v ref is y = fold (progress v ref) is y"

lemma load_cases:
  assumes "load ref s = (r, s')"
  obtains (found) t where "rows_of ref (saved s) = [t]" "r = Inr t" "s' = s\<lparr>current2 := saved s\<rparr>"
  | (none) f where "r = Inl f" "s' = s\<lparr>current2 := saved s\<rparr>"
      "deliver v ref e s = (Inl f, s')"
  using assms
  by (auto simp: load_def deliver_def in_session_def find_exchange_def eff_defs rows_of_def split: list.splits)

text \<open>A session whose two steps follow each other is a delivery.\<close>

lemma progress_alone:
  assumes "i < length (sessions y)" "sessions y ! i = Incoming e"
  shows "in_order v ref [i, i] y =
    (let (r, s) = deliver v ref e (world_of y) in \<lparr>world_of = s, sessions = (sessions y)[i := Handled r]\<rparr>)"
proof -
  obtain r s where "load ref (world_of y) = (r, s)" by fastforce
  then show ?thesis
  proof (cases rule: load_cases [where v = v and e = e])
    case (found t)
    have "deliver v ref e (world_of y) = handle_loaded v t e (world_of y)"
      using found(1) by (simp add: deliver_def handle_loaded_def in_session_def find_exchange_def eff_defs rows_of_def)
    also have "\<dots> = handle_loaded v t e s" using found(3) by (simp add: handle_loaded_def in_session_def)
    finally show ?thesis
      using assms found \<open>load ref (world_of y) = (r, s)\<close> by (simp add: in_order_def progress_def split: prod.splits)
  next
    case (none f)
    then show ?thesis
      using assms \<open>load ref (world_of y) = (r, s)\<close> by (simp add: in_order_def progress_def)
  qed
qed

section \<open>Refunds\<close>

text \<open>Nothing keeps a credit to the client of \<open>t\<close> from being made.\<close>

definition creditable :: "('w, 'j) services \<Rightarrow> exchange_row \<Rightarrow> bool" where
  "creditable v t \<longleftrightarrow>
     compute_wallet_credit_on_payout_failure (x_total_collected t) (x_source_operator t) \<noteq> None \<and>
     (\<forall>ws. \<exists>w. get_wallet_for_update v (x_user_id t) ws = Inr w) \<and> (\<forall>w a ws. \<exists>ws'. credit_wallet v w a ws = Inr ws')"

definition paying_out :: "string \<Rightarrow> exchange_row \<Rightarrow> bool" where
  "paying_out ref t \<longleftrightarrow> x_reference t = ref \<and> x_type t = Transfer_kind \<and> x_payin_status t = Some Leg_success \<and>
     x_payout_status t = Some Leg_pending \<and> x_status t = Leg_pending"

lemma refund_loaded:
  assumes "creditable v t" "paying_out ref t" "rows_of ref (saved s) = [t0]" "counts_credits v count"
  shows "\<exists>s'. handle_loaded v t (Out_leg Leg_failed) s = (Inr (), s') \<and>
    rows_of ref (saved s') = [t\<lparr>x_payout_status := Some Leg_failed, x_status := Leg_failed_payout\<rparr>] \<and>
    count (wallets2 (saved s')) = Suc (count (wallets2 (saved s)))"
proof -
  let ?t1 = "t\<lparr>x_payout_status := Some Leg_failed\<rparr>"
  let ?t2 = "?t1\<lparr>x_status := Leg_failed_payout\<rparr>"
  let ?st = "put_exchange ?t2 (put_exchange ?t1 (saved s))"
  obtain a where a: "compute_wallet_credit_on_payout_failure (x_total_collected t) (x_source_operator t) = Some a"
    and rate: "map_of JEKO_DEPOSIT_FEE_RATE (x_source_operator t) \<noteq> None"
    using assms(1) by (auto simp: creditable_def compute_wallet_credit_on_payout_failure_def split: option.splits)
  obtain w where w: "get_wallet_for_update v (x_user_id t) (wallets2 (saved s)) = Inr w"
    using assms(1) unfolding creditable_def by blast
  obtain ws where ws: "credit_wallet v w a (wallets2 (saved s)) = Inr ws"
    using assms(1) unfolding creditable_def by blast
  obtain ds log where tell: "tell v ?t1 (Versement_echoue a (x_recipient_name t)) (s\<lparr>current2 := ?st\<lparr>wallets2 := ws\<rparr>\<rparr>) =
      (Inr (), s\<lparr>current2 := ?st\<lparr>wallets2 := ws, devices := ds\<rparr>, posted := log\<rparr>)"
    using tell_frame [of v ?t1 "Versement_echoue a (x_recipient_name t)" "s\<lparr>current2 := ?st\<lparr>wallets2 := ws\<rparr>\<rparr>"] by auto
  have "handle_payout_webhook v t Leg_failed (s\<lparr>current2 := saved s\<rparr>) =
      (Inr (), s\<lparr>current2 := ?st\<lparr>wallets2 := ws, devices := ds\<rparr>, posted := log\<rparr>)"
    using assms(2) a rate w ws tell
    by (simp add: handle_payout_webhook_def paying_out_def TERMINAL_LEG_STATUSES_def Let_def refund_of_def save_def on_store_def
        wallet_for_update_def credit_def eff_defs)
  then have run: "handle_loaded v t (Out_leg Leg_failed) s =
      (Inr (), s\<lparr>saved := ?st\<lparr>wallets2 := ws, devices := ds\<rparr>, current2 := ?st\<lparr>wallets2 := ws, devices := ds\<rparr>, posted := log\<rparr>)"
    by (simp add: handle_loaded_def handle_event_def in_session_def andThen_def commit2_def modify_def)
  have "rows_of ref (put_exchange ?t1 (saved s)) = [?t1]"
    using assms(2) by (intro rows_of_put [OF assms(3)]) (simp add: paying_out_def)
  then have "rows_of ref ?st = [?t2]"
    using assms(2) by (intro rows_of_put) (simp_all add: paying_out_def)
  moreover have "count ws = Suc (count (wallets2 (saved s)))"
    using assms(4) ws by (auto simp: counts_credits_def)
  ultimately show ?thesis using run by simp
qed

lemma refunds_loaded:
  assumes "creditable v t" "paying_out ref t" "counts_credits v count"
    and "rows_of ref (saved (world_of y)) = [t0]" "sessions y = dn @ replicate n (Loaded (Out_leg Leg_failed) t)"
  shows "sessions (in_order v ref [length dn..<length dn + n] y) = dn @ replicate n (Handled (Inr ())) \<and>
    count (wallets2 (saved (world_of (in_order v ref [length dn..<length dn + n] y)))) = count (wallets2 (saved (world_of y))) + n"
  using assms(4,5)
proof (induction n arbitrary: y t0 "dn")
  case 0
  then show ?case by (simp add: in_order_def)
next
  case (Suc n)
  let ?i = "length dn"
  from refund_loaded [OF assms(1,2) Suc.prems(1) assms(3)] obtain s' where s':
    "handle_loaded v t (Out_leg Leg_failed) (world_of y) = (Inr (), s')"
    "rows_of ref (saved s') = [t\<lparr>x_payout_status := Some Leg_failed, x_status := Leg_failed_payout\<rparr>]"
    "count (wallets2 (saved s')) = Suc (count (wallets2 (saved (world_of y))))" by blast
  let ?y = "\<lparr>world_of = s', sessions = (dn @ [Handled (Inr ())]) @ replicate n (Loaded (Out_leg Leg_failed) t)\<rparr>"
  have "progress v ref ?i y = ?y"
    using Suc.prems(2) s'(1) by (simp add: progress_def nth_append)
  moreover have "[?i..<?i + Suc n] = ?i # [Suc ?i..<Suc ?i + n]" by (simp add: upt_conv_Cons)
  ultimately show ?case
    using Suc.IH [of ?y _ "dn @ [Handled (Inr ())]"] s'(2,3) by (simp add: in_order_def)
qed

lemma loads:
  assumes "rows_of ref (saved (world_of y)) = [t]" "sessions y = dn @ map Incoming es"
  shows "in_order v ref [length dn..<length dn + length es] y =
    (if es = [] then y
     else \<lparr>world_of = (world_of y)\<lparr>current2 := saved (world_of y)\<rparr>, sessions = dn @ map (\<lambda>e. Loaded e t) es\<rparr>)"
  using assms
proof (induction es arbitrary: y "dn")
  case (Cons e es)
  let ?s = "(world_of y)\<lparr>current2 := saved (world_of y)\<rparr>"
  let ?y = "\<lparr>world_of = ?s, sessions = (dn @ [Loaded e t]) @ map Incoming es\<rparr>"
  have "load ref (world_of y) = (Inr t, ?s)"
    using Cons.prems(1) by (simp add: load_def in_session_def find_exchange_def eff_defs rows_of_def)
  then have "progress v ref (length dn) y = ?y"
    using Cons.prems(2) by (simp add: progress_def nth_append)
  moreover have "[length dn..<length dn + length (e # es)] = length dn # [Suc (length dn)..<Suc (length dn) + length es]"
    by (subst upt_conv_Cons) simp_all
  moreover have "in_order v ref [Suc (length dn)..<Suc (length dn) + length es] ?y =
      (if es = [] then ?y else \<lparr>world_of = ?s, sessions = (dn @ [Loaded e t]) @ map (\<lambda>e. Loaded e t) es\<rparr>)"
    using Cons.IH [of ?y "dn @ [Loaded e t]"] Cons.prems(1) by simp
  ultimately show ?case by (simp add: in_order_def)
qed (simp add: in_order_def)

text \<open>One after the other, the first report refunds and the others change nothing.\<close>

lemma refunds_in_turn:
  assumes "counts_credits v count" "rows_of ref (saved s) = [t]" "paying_out ref t"
  shows "count (wallets2 (saved (deliveries v ref (replicate n (Out_leg Leg_failed)) s))) \<le> count (wallets2 (saved s)) + 1"
proof -
  let ?c = "count (wallets2 (saved s))"
  have step: "\<exists>t'. rows_of ref (saved s') = [t'] \<and> x_reference t' = ref \<and> x_payout_status t' \<noteq> None \<and>
      settled_once t' (count (wallets2 (saved s')) - ?c) \<and> ?c \<le> count (wallets2 (saved s'))"
    if "rows_of ref (saved s1) = [t1]" "x_reference t1 = ref" "x_payout_status t1 \<noteq> None"
      "settled_once t1 (count (wallets2 (saved s1)) - ?c)" "?c \<le> count (wallets2 (saved s1))"
      "s' = deliveries v ref (replicate n (Out_leg Leg_failed)) s1" for s1 t1 s'
    using that
  proof (induction n arbitrary: s1 t1)
    case (Suc n)
    obtain r s2 where d: "deliver v ref (Out_leg Leg_failed) s1 = (r, s2)" by fastforce
    have "expected_event t1 (Out_leg Leg_failed)" using Suc.prems(3) by (simp add: expected_event_def)
    from deliver_settles [OF d assms(1) Suc.prems(1,2) this Suc.prems(4,5)] obtain t2 where
      t2: "rows_of ref (saved s2) = [t2]" "x_reference t2 = ref"
        "settled_once t2 (count (wallets2 (saved s2)) - ?c)" "?c \<le> count (wallets2 (saved s2))" by blast
    moreover have "x_payout_status t2 \<noteq> None"
      using d
    proof (cases rule: deliver_cases)
      case (dropped f)
      with t2(1) Suc.prems(1,3) show ?thesis by simp
    next
      case (handled t0 s0)
      with Suc.prems(1) have h: "handle_payout_webhook v t1 Leg_failed (s1\<lparr>current2 := saved s1\<rparr>) = (Inr (), s0)"
        by (simp add: handle_event_def)
      have kind: "x_type t1 = Transfer_kind" using Suc.prems(4) by (simp add: settled_once_def)
      have rows: "rows_of ref (current2 (s1\<lparr>current2 := saved s1\<rparr>)) = [t1]" using Suc.prems(1) by simp
      have t2': "rows_of ref (current2 s0) = [t2]" using t2(1) handled(3) by simp
      have st: "Leg_failed = Leg_success \<or> Leg_failed = Leg_failed" by simp
      from h rows Suc.prems(2) kind st show ?thesis
      proof (cases rule: payout_transfer_cases [consumes 5])
        case old
        with Suc.prems(1,3) t2' show ?thesis by simp
      next
        case (refunded t' w a ws)
        with t2' show ?thesis by auto
      qed simp_all
    qed
    ultimately show ?case using Suc.IH [of s2 t2] Suc.prems(6) d by simp
  qed auto
  have "x_reference t = ref" "x_payout_status t \<noteq> None" "settled_once t (?c - ?c)"
    using assms(3) by (simp_all add: paying_out_def settled_once_def)
  from step [OF assms(2) this order_refl refl] obtain t' where
    "settled_once t' (count (wallets2 (saved (deliveries v ref (replicate n (Out_leg Leg_failed)) s))) - ?c)" by blast
  then show ?thesis by (auto simp: settled_once_def)
qed

text \<open>C39: reports on a failed pay-out that are handled at the same time refund the client once each. Of a
  transfer that is being paid out, let any number of sessions (webhooks, or the background
  reconciliation) handle the report that the pay-out failed. Handled one after the other they credit the
  wallet at most once; but they can interleave so that all end without an error and each of them
  credits it, because a transaction is loaded without a lock and not looked at again.\<close>

theorem refunds_at_once:
  fixes n :: nat
  assumes "counts_credits v count" "rows_of ref (saved s) = [t]" "paying_out ref t" "creditable v t"
  defines "reports \<equiv> replicate n (Out_leg Leg_failed)"
  shows "count (wallets2 (saved (deliveries v ref reports s))) \<le> count (wallets2 (saved s)) + 1 \<and>
    (\<exists>is. let y = in_order v ref is (all_incoming s reports) in
      sessions y = replicate n (Handled (Inr ())) \<and>
      count (wallets2 (saved (world_of y))) = count (wallets2 (saved s)) + n)"
proof -
  let ?y0 = "all_incoming s reports"
  let ?y1 = "in_order v ref [0..<n] ?y0"
  have y1: "rows_of ref (saved (world_of ?y1)) = [t]" "saved (world_of ?y1) = saved s"
    "sessions ?y1 = [] @ replicate n (Loaded (Out_leg Leg_failed) t)"
    using loads [of ref ?y0 t "[]" reports v] assms(2)
    by (auto simp: all_incoming_def reports_def map_replicate_const)
  have "in_order v ref ([0..<n] @ [0..<n]) ?y0 = in_order v ref [0..<n] ?y1" by (simp add: in_order_def)
  with refunds_loaded [OF assms(4,3,1) y1(1,3)] y1(2)
  have "sessions (in_order v ref ([0..<n] @ [0..<n]) ?y0) = replicate n (Handled (Inr ())) \<and>
      count (wallets2 (saved (world_of (in_order v ref ([0..<n] @ [0..<n]) ?y0)))) = count (wallets2 (saved s)) + n"
    by simp
  then show ?thesis
    using refunds_in_turn [OF assms(1-3), of n] unfolding reports_def Let_def by blast
qed

theorem refunds_at_once_witness:
  "\<exists>is. length (wallets2 (saved (world_of (in_order sample_services ''TRF-1'' is
     (all_incoming (snd (deliver sample_services ''TRF-1'' (In_leg Leg_success ''e1'') sample_world))
        [Out_leg Leg_failed, Out_leg Leg_failed]))))) = 2"
proof -
  define s where "s = snd (deliver sample_services ''TRF-1'' (In_leg Leg_success ''e1'') sample_world)"
  define t where "t = sample_transfer\<lparr>x_payin_status := Some Leg_success, x_payout_status := Some Leg_pending, x_jeko_payout_id := JStr ''wth''\<rparr>"
  have s: "rows_of ''TRF-1'' (saved s) = [t]" "wallets2 (saved s) = []" unfolding s_def t_def by code_simp+
  have "compute_wallet_credit_on_payout_failure (x_total_collected t) (x_source_operator t) \<noteq> None"
    unfolding t_def by code_simp
  then have "creditable sample_services t" by (simp add: creditable_def sample_services_def)
  moreover have "paying_out ''TRF-1'' t" by (simp add: paying_out_def t_def sample_transfer_def)
  moreover have "counts_credits sample_services length" by (simp add: counts_credits_def sample_services_def)
  ultimately show ?thesis
    using refunds_at_once [of sample_services length "''TRF-1''" s t 2] s
    unfolding s_def [symmetric] by (auto simp: Let_def numeral_2_eq_2)
qed

text \<open>Confirmations of a pay-in at the same time: the pay-out is ordered from JEKO by each.\<close>

theorem confirmations_at_once:
  "length (filter (\<lambda>q. rq_path q = ''/partner_api/transfers'') (sent (wire_of (world_of
     (in_order sample_services ''TRF-1'' [0, 1, 0, 1] (all_incoming sample_world [In_leg Leg_success ''e1'', In_leg Leg_success ''admin-reconcile''])))))) = 2 \<and>
   length (filter (\<lambda>q. rq_path q = ''/partner_api/transfers'') (sent (wire_of
     (deliveries sample_services ''TRF-1'' [In_leg Leg_success ''e1'', In_leg Leg_success ''admin-reconcile''] sample_world)))) = 1"
  by code_simp

end
