(* ===== verification/Access.thy ===== *)
theory Access
  imports WebhookContract
begin

text \<open>
  Sessions of the second generation (\<open>app/core/security.py\<close>), and its two small routers
  \<open>app/api/v1/devices.py\<close> and \<open>app/api/v1/kyc.py\<close>. bcrypt and the JWT library are the functions of
  the record \<open>security2\<close>; a token names the user and the moment it expires, and no role.
\<close>

section \<open>Sessions\<close>

record claims2 =
  c2_sub :: "uuid option"
  c2_exp :: timestamp

record security2 =
  pwd_hash2 :: "nat \<Rightarrow> string \<Rightarrow> string"
  pwd_verify2 :: "string \<Rightarrow> string \<Rightarrow> bool"
  jwt_encode2 :: "claims2 \<Rightarrow> string"
  jwt_decode2 :: "timestamp \<Rightarrow> string \<Rightarrow> claims2 option"
  jwt_expire_minutes :: nat

definition tokens_decode2 :: "security2 \<Rightarrow> bool" where
  "tokens_decode2 e \<longleftrightarrow> (\<forall>now c. jwt_decode2 e now (jwt_encode2 e c) = (if now \<le> c2_exp c then Some c else None))"

definition hash_pin2 :: "security2 \<Rightarrow> nat \<Rightarrow> string \<Rightarrow> string" where
  "hash_pin2 e salt pin = pwd_hash2 e salt pin"

definition verify_pin2 :: "security2 \<Rightarrow> string \<Rightarrow> string \<Rightarrow> bool" where
  "verify_pin2 e pin pin_hash = pwd_verify2 e pin pin_hash"

definition create_access_token2 :: "security2 \<Rightarrow> timestamp \<Rightarrow> uuid \<Rightarrow> string" where
  "create_access_token2 e now uid = jwt_encode2 e \<lparr>c2_sub = Some uid, c2_exp = now + 60 * jwt_expire_minutes e\<rparr>"

definition credentials_exception :: fault where
  "credentials_exception = Http_error 401 (''Session invalide ou expir'' @ [CHR 0xE9] @ ''e'')"

definition find_user :: "uuid \<Rightarrow> ('w, 'j, user2 option) act" where
  "find_user uid =
     andThen (gets (\<lambda>s. filter (\<lambda>u. u2_id u = uid) (users2 (current2 s)))) (\<lambda>rows.
     case rows of [] \<Rightarrow> return None | [u] \<Rightarrow> return (Some u) | _ \<Rightarrow> raise Multiple_results)"

definition get_current_user2 :: "security2 \<Rightarrow> string \<Rightarrow> ('w, 'j, user2) act" where
  "get_current_user2 e token =
     andThen (gets (\<lambda>s. jwt_decode2 e (time2 s) token)) (\<lambda>payload.
     case payload of
       None \<Rightarrow> raise credentials_exception
     | Some c \<Rightarrow>
         (case c2_sub c of
            None \<Rightarrow> raise credentials_exception
          | Some uid \<Rightarrow>
              andThen (find_user uid) (\<lambda>user.
              case user of None \<Rightarrow> raise credentials_exception | Some u \<Rightarrow> return u)))"

text \<open>A request with a token: the user of the token, and the handler, in one session.\<close>

definition as_user :: "security2 \<Rightarrow> string \<Rightarrow> (user2 \<Rightarrow> ('w, 'j, 'a) act) \<Rightarrow> ('w, 'j, 'a) act" where
  "as_user e token handler = in_session (andThen (get_current_user2 e token) handler)"

lemma get_current_user2_run:
  assumes "tokens_decode2 e" "filter (\<lambda>u. u2_id u = uid) (users2 (current2 s)) = [u]"
  shows "get_current_user2 e (create_access_token2 e issued uid) s =
    (if time2 s \<le> issued + 60 * jwt_expire_minutes e then Inr u else Inl credentials_exception, s)"
  using assms by (simp add: get_current_user2_def create_access_token2_def tokens_decode2_def find_user_def eff_defs)

text \<open>A token is a session of its user, and of nobody else, until it expires.\<close>

lemma as_user_of_token:
  assumes "tokens_decode2 e" "filter (\<lambda>u. u2_id u = uid) (users2 (saved s)) = [u]"
  shows "as_user e (create_access_token2 e issued uid) handler s =
    (if time2 s \<le> issued + 60 * jwt_expire_minutes e then in_session (handler u) s
     else (Inl credentials_exception, s\<lparr>current2 := saved s\<rparr>))"
  using assms get_current_user2_run [OF assms(1), of uid "s\<lparr>current2 := saved s\<rparr>" u issued]
  by (simp add: as_user_def in_session_def andThen_def)

lemma get_current_user2_reads: "get_current_user2 e token s = (r, s') \<Longrightarrow> s' = s"
  by (auto simp: get_current_user2_def find_user_def eff_defs split: option.splits list.splits)

section \<open>Devices\<close>

definition register_device2 :: "nat \<Rightarrow> user2 \<Rightarrow> string \<Rightarrow> ('w, 'j, unit) act" where
  "register_device2 i current_user fcm_token =
     andThen (gets (\<lambda>s. filter (\<lambda>d. dv_user_id d = u2_id current_user \<and> dv_token d = fcm_token) (devices (current2 s)))) (\<lambda>rows.
     case rows of
       [] \<Rightarrow>
         andThen (on_store (\<lambda>st. st\<lparr>devices := devices st @
           [\<lparr>dv_id = i, dv_user_id = u2_id current_user, dv_token = fcm_token\<rparr>]\<rparr>)) (\<lambda>_.
         commit2)
     | [d] \<Rightarrow> return ()
     | _ \<Rightarrow> raise Multiple_results)"

text \<open>Registering twice is registering once.\<close>

lemma register_device2_twice:
  assumes "register_device2 i u tok s = (Inr (), s1)" "saved s = current2 s"
  shows "register_device2 j u tok s1 = (Inr (), s1)"
  using assms
  by (auto simp: register_device2_def eff_defs on_store_def commit2_def split: list.splits)

section \<open>Identity files\<close>

definition kyc_too_large :: fault where
  "kyc_too_large = Http_error 413 ''Photo trop volumineuse.''"

definition kyc_pending_exists :: fault where
  "kyc_pending_exists = Http_error 409 (''Une demande de v'' @ [CHR 0xE9] @ ''rification est d'' @ [CHR 0xE9] @ ''j'' @
     [CHR 0xE0] @ '' en cours d'' @ [CHR 0x27] @ ''examen.'')"

record kyc2_reply =
  kr_id :: uuid
  kr_status :: string

definition submit_kyc2 :: "nat \<Rightarrow> uuid \<Rightarrow> user2 \<Rightarrow> string \<Rightarrow> string option \<Rightarrow> ('w, 'j, kyc2_reply) act" where
  "submit_kyc2 max_chars2 i current_user id_document selfie =
     (if max_chars2 < length id_document then raise kyc_too_large
      else if (case selfie of None \<Rightarrow> False | Some x \<Rightarrow> x \<noteq> [] \<and> max_chars2 < length x) then raise kyc_too_large
      else
        andThen (gets (\<lambda>s. newest_first kf_submitted_at
          (filter (\<lambda>k. kf_user_id k = u2_id current_user \<and> kf_status k = ''UNDER_REVIEW'') (kyc_files (current2 s))))) (\<lambda>existing.
        if existing \<noteq> [] then raise kyc_pending_exists
        else
          andThen (gets time2) (\<lambda>now.
          andThen (on_store (\<lambda>st. st\<lparr>kyc_files := kyc_files st @
            [\<lparr>kf_id = i, kf_user_id = u2_id current_user, kf_id_document = id_document, kf_selfie = selfie,
              kf_status = ''UNDER_REVIEW'', kf_rejection_reason = None, kf_submitted_at = now\<rparr>]\<rparr>)) (\<lambda>_.
          andThen commit2 (\<lambda>_.
          return \<lparr>kr_id = i, kr_status = ''UNDER_REVIEW''\<rparr>)))))"

record kyc2_answer =
  ka_kyc_status :: string
  ka_submission_status :: "string option"
  ka_rejection_reason :: "string option"
  ka_submitted_at :: "timestamp option"

definition kyc_status2 :: "user2 \<Rightarrow> ('w, 'j, kyc2_answer) act" where
  "kyc_status2 current_user =
     andThen (gets (\<lambda>s. newest_first kf_submitted_at
       (filter (\<lambda>k. kf_user_id k = u2_id current_user) (kyc_files (current2 s))))) (\<lambda>files.
     let latest = (case files of [] \<Rightarrow> None | k # ks \<Rightarrow> Some k) in
     return \<lparr>ka_kyc_status = u2_kyc_status current_user,
       ka_submission_status = map_option kf_status latest,
       ka_rejection_reason = Option.bind latest kf_rejection_reason,
       ka_submitted_at = map_option kf_submitted_at latest\<rparr>)"

text \<open>At most one file of a user is under review, whatever is submitted.\<close>

definition one_under_review :: "'w store \<Rightarrow> bool" where
  "one_under_review st \<longleftrightarrow> distinct (map kf_user_id (filter (\<lambda>k. kf_status k = ''UNDER_REVIEW'') (kyc_files st)))"

lemma newest_first_Nil [simp]: "newest_first c xs = [] \<longleftrightarrow> xs = []"
  by (metis length_0_conv length_ordered(2))

lemma filter_conj_empty: "filter (\<lambda>x. P x \<and> Q x) xs = [] \<longleftrightarrow> (\<forall>x \<in> set (filter Q xs). \<not> P x)"
  by (auto simp: filter_empty_conv)

lemma submit_kyc2_one:
  assumes "in_session (submit_kyc2 mx i u doc selfie) s = (r, s')" "one_under_review (saved s)"
  shows "one_under_review (saved s') \<and> (case r of Inl e \<Rightarrow> saved s' = saved s | Inr a \<Rightarrow> length (kyc_files (saved s')) = Suc (length (kyc_files (saved s))))"
  using assms
  by (auto simp: submit_kyc2_def in_session_def eff_defs on_store_def commit2_def one_under_review_def
      filter_conj_empty split: if_splits option.splits prod.splits, blast+)

end
