(* ===== verification/Transfers.thy ===== *)
theory Transfers
  imports Access
begin

text \<open>
  \<open>app/api/v1/transfers.py\<close>. The functions of \<open>app.services.wallet_service\<close> that the routes call
  are fields of the record \<open>bookkeeping\<close>: the references it makes up from random numbers, the
  locks it takes in Redis and the rows it creates from its arguments.
\<close>

section \<open>The missing module\<close>

datatype lock_kind = User_lock | Agent_lock

record pending_transfer =
  pt_user_id :: uuid
  pt_reference :: string
  pt_source_operator :: string
  pt_destination_operator :: string
  pt_net_amount :: decimal
  pt_platform_fee :: decimal
  pt_total_collected :: decimal
  pt_deposit_fee_rate :: decimal
  pt_recipient_name :: "string option"
  pt_recipient_phone :: string
  pt_source_phone :: string

record pending_operation =
  po_agent_id :: uuid
  po_client_id :: uuid
  po_reference :: string
  po_type :: tx_kind
  po_operator :: string
  po_amount :: decimal
  po_commission_rate :: decimal
  po_recipient_phone :: string

record 'w bookkeeping =
  generate_internal_reference :: "string \<Rightarrow> nat \<Rightarrow> string"
  take_lock :: "lock_kind \<Rightarrow> uuid \<Rightarrow> timestamp \<Rightarrow> redis \<Rightarrow> redis option"
  free_lock :: "lock_kind \<Rightarrow> uuid \<Rightarrow> redis \<Rightarrow> redis"
  create_pending_transfer :: "pending_transfer \<Rightarrow> 'w store \<Rightarrow> fault + (exchange_row \<times> 'w store)"
  create_pending_transaction :: "pending_operation \<Rightarrow> 'w store \<Rightarrow> fault + (exchange_row \<times> 'w store)"
  get_or_create_client :: "uuid \<Rightarrow> string \<Rightarrow> string \<Rightarrow> 'w store \<Rightarrow> fault + (client_row \<times> 'w store)"

text \<open>\<open>async with lock: ...\<close>\<close>

definition with_lock :: "'w bookkeeping \<Rightarrow> lock_kind \<Rightarrow> uuid \<Rightarrow> ('w, 'j, 'a) act \<Rightarrow> ('w, 'j, 'a) act" where
  "with_lock b k uid m s =
     (case take_lock b k uid (time2 s) (redis_db s) of
        None \<Rightarrow> (Inl Lock_refused, s)
      | Some r \<Rightarrow> (let (q, s') = m (s\<lparr>redis_db := r\<rparr>) in (q, s'\<lparr>redis_db := free_lock b k uid (redis_db s')\<rparr>)))"

definition bookkeep :: "('w store \<Rightarrow> fault + ('a \<times> 'w store)) \<Rightarrow> ('w, 'j, 'a) act" where
  "bookkeep f =
     andThen (gets (\<lambda>s. f (current2 s))) (\<lambda>r.
     case r of Inl e \<Rightarrow> raise e | Inr (x, st) \<Rightarrow> andThen (on_store (\<lambda>_. st)) (\<lambda>_. return x))"

section \<open>Routes\<close>

record transfer_body =
  tb_pin_code :: string
  tb_source_phone :: "string option"
  tb_recipient_phone :: string
  tb_recipient_name :: "string option"
  tb_amount :: decimal
  tb_source_operator :: string
  tb_destination_operator :: string

record transfer_response =
  tr_reference :: string
  tr_status :: leg_status
  tr_net_amount :: decimal
  tr_platform_fee :: decimal
  tr_total_to_pay :: decimal
  tr_redirect_url :: json

definition wrong_pin :: fault where
  "wrong_pin = Http_error 403 ''Code PIN incorrect''"

definition same_account :: fault where
  "same_account = Http_error 400 (''Choisissez un op'' @ [CHR 0xE9] @ ''rateur de destination diff'' @ [CHR 0xE9] @
     ''rent pour transf'' @ [CHR 0xE9] @ ''rer vers votre propre num'' @ [CHR 0xE9] @ ''ro.'')"

definition payment_refused :: "('w, 'j) services \<Rightarrow> json \<Rightarrow> fault" where
  "payment_refused v payload = Http_error 400 ([CHR 0xC9] @ ''chec de l'' @ [CHR 0x27] @ ''initiation du paiement c'' @
     [CHR 0xF4] @ ''t'' @ [CHR 0xE9] @ '' JEKO: '' @ str_of (jeko_of v) payload)"

definition payment_unavailable :: fault where
  "payment_unavailable = Http_error 502 (''Service de paiement momentan'' @ [CHR 0xE9] @ ''ment indisponible, r'' @
     [CHR 0xE9] @ ''essayez.'')"

text \<open>Asking JEKO for the pay-in of the row just created; the JSON of its answer.\<close>

definition request_payin ::
  "('w, 'j) services \<Rightarrow> exchange_row \<Rightarrow> string \<Rightarrow> decimal \<Rightarrow> string \<Rightarrow> string \<Rightarrow> ('w, 'j, json) act" where
  "request_payin v transaction reference amount operator phone_number =
     andThen
       (catching
          (on_wire (create_deposit_payment_request (jeko_of v) (reference @ ''-IN'') amount (operator_value v operator) phone_number))
          (\<lambda>e. case e of
             Jeko_api_error code payload \<Rightarrow>
               andThen (save (transaction\<lparr>x_payin_status := Some Leg_failed, x_status := Leg_failed\<rparr>)) (\<lambda>_.
               andThen commit2 (\<lambda>_.
               raise (payment_refused v payload)))
           | Jeko_network_error \<Rightarrow> raise payment_unavailable
           | _ \<Rightarrow> raise e)) (\<lambda>jeko_response.
     case answer_get jeko_response ''id'' of
       Inl e \<Rightarrow> raise e
     | Inr i \<Rightarrow>
         andThen (save (transaction\<lparr>x_jeko_payin_id := i\<rparr>)) (\<lambda>_.
         andThen commit2 (\<lambda>_.
         return jeko_response)))"

text \<open>What happens under the lock, with its exception.\<close>

definition open_transfer :: "('w, 'j) services \<Rightarrow> 'w bookkeeping \<Rightarrow> pending_transfer \<Rightarrow> ('w, 'j, exchange_row \<times> json) act" where
  "open_transfer v b a =
     catching
       (with_lock b User_lock (pt_user_id a)
          (andThen (bookkeep (create_pending_transfer b a)) (\<lambda>transaction.
           andThen (request_payin v transaction (pt_reference a) (pt_total_collected a) (pt_source_operator a) (pt_source_phone a))
             (\<lambda>jeko_response. return (transaction, jeko_response)))))
       (\<lambda>e. if e = Lock_refused then raise (Http_error 429 (fault_text v e)) else raise e)"

definition create_transfer ::
  "('w, 'j) services \<Rightarrow> 'w bookkeeping \<Rightarrow> security2 \<Rightarrow> nat \<Rightarrow> transfer_body \<Rightarrow> user2 \<Rightarrow> ('w, 'j, transfer_response) act" where
  "create_transfer v b e random payload current_user =
     (if \<not> verify_pin2 e (tb_pin_code payload) (u2_pin_code_hash current_user) then raise wrong_pin
      else
        let source_phone = name_or (u2_phone_number current_user) (tb_source_phone payload) in
        if tb_recipient_phone payload = source_phone \<and> tb_destination_operator payload = tb_source_operator payload
        then raise same_account
        else
          andThen (value_or Decimal_error (compute_platform_fee (tb_amount payload))) (\<lambda>platform_fee.
          andThen (value_or Decimal_error (compute_total_to_collect (tb_amount payload))) (\<lambda>total_to_collect.
          andThen (value_or Key_error (map_of JEKO_DEPOSIT_FEE_RATE (tb_source_operator payload))) (\<lambda>deposit_fee_rate.
          let internal_reference = generate_internal_reference b ''TRF'' random in
          andThen (open_transfer v b
            \<lparr>pt_user_id = u2_id current_user, pt_reference = internal_reference,
             pt_source_operator = tb_source_operator payload, pt_destination_operator = tb_destination_operator payload,
             pt_net_amount = tb_amount payload, pt_platform_fee = platform_fee, pt_total_collected = total_to_collect,
             pt_deposit_fee_rate = deposit_fee_rate, pt_recipient_name = tb_recipient_name payload,
             pt_recipient_phone = tb_recipient_phone payload, pt_source_phone = source_phone\<rparr>) (\<lambda>(transaction, jeko_response).
          andThen (modify (\<lambda>s. s\<lparr>background := background s @ [internal_reference]\<rparr>)) (\<lambda>_.
          case answer_get jeko_response ''redirectUrl'' of
            Inl e \<Rightarrow> raise e
          | Inr url \<Rightarrow> return \<lparr>tr_reference = internal_reference, tr_status = x_status transaction, tr_net_amount = tb_amount payload,
              tr_platform_fee = platform_fee, tr_total_to_pay = total_to_collect, tr_redirect_url = url\<rparr>))))))"

definition get_transfer :: "string \<Rightarrow> user2 \<Rightarrow> ('w, 'j, exchange_row) act" where
  "get_transfer internal_reference current_user =
     andThen (find_exchange (\<lambda>x. x_reference x = internal_reference \<and> x_user_id x = u2_id current_user)) (\<lambda>found.
     case found of None \<Rightarrow> raise (Http_error 404 ''Transaction introuvable'') | Some t \<Rightarrow> return t)"

text \<open>A transfer is shown to the user who made it and to nobody else.\<close>

lemma get_transfer_own:
  "get_transfer ref u s = (Inr t, s') \<Longrightarrow> s' = s \<and> t \<in> set (exchanges (current2 s)) \<and> x_reference t = ref \<and> x_user_id t = u2_id u"
  by (auto simp: get_transfer_def find_exchange_def eff_defs filter_eq_Cons_iff split: list.splits option.splits)

end
