(* ===== verification/TransferContract.thy ===== *)
theory TransferContract
  imports Transfers
begin

text \<open>
  What \<open>create_transfer\<close> leaves on each way out, and the whole life of a transfer: from the
  request of the client through any reports of JEKO.
\<close>

section \<open>The request to JEKO\<close>

definition deposit_request :: "'j jeko_env \<Rightarrow> string \<Rightarrow> int \<Rightarrow> string \<Rightarrow> string \<Rightarrow> http_request" where
  "deposit_request k reference c operator phone =
     \<lparr>rq_method = ''POST'', rq_path = ''/partner_api/payment_requests'',
      rq_body = Some (deposit_body k reference c operator phone)\<rparr>"

lemma deposit_sent:
  assumes "create_deposit_payment_request k reference amount operator phone w = (r, w')"
  obtains (unrepresentable) "r = Inl Decimal_error" "w' = w"
  | (sent) c n where "amount_to_cents amount = Some c" "1 \<le> n" "n \<le> 3"
      "sent w' = sent w @ replicate n (deposit_request k reference c operator phone)"
proof (cases "amount_to_cents amount")
  case None
  with assms show ?thesis by (intro unrepresentable) (auto simp: create_deposit_payment_request_def eff_defs)
next
  case (Some c)
  with assms have "jeko_request k ''POST'' ''/partner_api/payment_requests''
      (Some (deposit_body k reference c operator phone)) w = (r, w')"
    by (simp add: create_deposit_payment_request_def eff_defs)
  from jeko_request_sent [OF this] obtain n where "1 \<le> n" "n \<le> 3"
    "sent w' = sent w @ replicate n (deposit_request k reference c operator phone)"
    by (auto simp: deposit_request_def)
  with Some show ?thesis by (intro sent)
qed

text \<open>The ways \<open>request_payin\<close> ends, with the answer \<open>q\<close> and the server \<open>w\<close> after it: nothing is
  committed, the row is committed as FAILED, or with the id of the pay-in.\<close>

definition payin_ended ::
  "('w, 'j) services \<Rightarrow> exchange_row \<Rightarrow> ('w, 'j) world \<Rightarrow> 'j wire \<Rightarrow> fault + json \<Rightarrow> fault + json \<Rightarrow> ('w, 'j) world \<Rightarrow> bool" where
  "payin_ended v t s w q r s' \<longleftrightarrow>
     (\<exists>e. r = Inl e \<and> s' = s\<lparr>wire_of := w\<rparr>) \<or>
     (\<exists>p st. r = Inl (payment_refused v p) \<and>
        st = put_exchange (t\<lparr>x_payin_status := Some Leg_failed, x_status := Leg_failed\<rparr>) (current2 s) \<and>
        s' = s\<lparr>wire_of := w, current2 := st, saved := st\<rparr>) \<or>
     (\<exists>j i st. q = Inr j \<and> r = Inr j \<and> answer_get j ''id'' = Inr i \<and> st = put_exchange (t\<lparr>x_jeko_payin_id := i\<rparr>) (current2 s) \<and>
        s' = s\<lparr>wire_of := w, current2 := st, saved := st\<rparr>)"

lemma request_payin_cases:
  assumes "request_payin v t reference amount operator phone s = (r, s')"
  obtains w q where "create_deposit_payment_request (jeko_of v) (reference @ ''-IN'') amount (operator_value v operator) phone (wire_of s) = (q, w)"
    "payin_ended v t s w q r s'"
proof -
  obtain q w where q: "create_deposit_payment_request (jeko_of v) (reference @ ''-IN'') amount (operator_value v operator) phone (wire_of s) = (q, w)"
    by fastforce
  then have wire: "on_wire (create_deposit_payment_request (jeko_of v) (reference @ ''-IN'') amount (operator_value v operator) phone) s
      = (q, s\<lparr>wire_of := w\<rparr>)" by (simp add: on_wire_def zoom_def)
  note defs = request_payin_def save_def on_store_def commit2_def andThen_def catching_def raise_def modify_def return_def
  have "payin_ended v t s w q r s'"
  proof (cases q)
    case (Inl e)
    with assms wire show ?thesis
      unfolding payin_ended_def by (cases e) (auto simp: defs)
  next
    case (Inr j)
    obtain g where g: "answer_get j ''id'' = g" by blast
    show ?thesis
    proof (cases g)
      case (Inl e)
      with assms wire Inr g have "r = Inl e" "s' = s\<lparr>wire_of := w\<rparr>" by (simp_all add: defs)
      then show ?thesis unfolding payin_ended_def by blast
    next
      case i: (Inr i)
      let ?st = "put_exchange (t\<lparr>x_jeko_payin_id := i\<rparr>) (current2 s)"
      from i assms wire Inr g have "r = Inr j" "s' = s\<lparr>wire_of := w, current2 := ?st, saved := ?st\<rparr>"
        by (simp_all add: defs)
      with Inr g i show ?thesis unfolding payin_ended_def by blast
    qed
  qed
  with q show ?thesis by (rule that)
qed

section \<open>A transfer comes to be\<close>

text \<open>What the routes rely on of \<open>create_pending_transfer\<close>: the row is new, PENDING on its pay-in, made
  of the arguments, and nothing else changes.\<close>

definition creates_pending :: "'w bookkeeping \<Rightarrow> bool" where
  "creates_pending b \<longleftrightarrow> (\<forall>a st t st'. create_pending_transfer b a st = Inr (t, st') \<longrightarrow>
     fresh_transfer (pt_reference a) t \<and> x_user_id t = pt_user_id a \<and> x_amount t = pt_net_amount a \<and>
     x_total_collected t = pt_total_collected a \<and> x_source_operator t = pt_source_operator a \<and>
     x_recipient_phone t = pt_recipient_phone a \<and>
     rows_of (pt_reference a) st = [] \<and> exchanges st' = exchanges st @ [t] \<and> wallets2 st' = wallets2 st)"

lemma creates_pendingD:
  assumes "creates_pending b" "create_pending_transfer b a st = Inr (t, st')"
  shows "fresh_transfer (pt_reference a) t" "x_user_id t = pt_user_id a" "x_amount t = pt_net_amount a"
    "x_total_collected t = pt_total_collected a" "x_source_operator t = pt_source_operator a"
    "x_recipient_phone t = pt_recipient_phone a"
    "rows_of (pt_reference a) st' = [t]" "wallets2 st' = wallets2 st"
  using assms by (auto simp: creates_pending_def rows_of_def fresh_transfer_def)

text \<open>Only the lock's key may have changed besides.\<close>

definition same_but_redis :: "('w, 'j) world \<Rightarrow> ('w, 'j) world \<Rightarrow> bool" where
  "same_but_redis s s' \<longleftrightarrow> (\<exists>r. s' = s\<lparr>redis_db := r\<rparr>)"

lemma open_transfer_cases:
  assumes "open_transfer v b a s = (r, s')" "creates_pending b"
  obtains (refused) f where "r = Inl f" "same_but_redis s s'"
  | (asked) t st w q r0 k1 k2 s1 where "create_pending_transfer b a (current2 s) = Inr (t, st)"
      "create_deposit_payment_request (jeko_of v) (pt_reference a @ ''-IN'') (pt_total_collected a)
         (operator_value v (pt_source_operator a)) (pt_source_phone a) (wire_of s) = (q, w)"
      "payin_ended v t (s\<lparr>redis_db := k1, current2 := st\<rparr>) w q r0 s1" "s' = s1\<lparr>redis_db := k2\<rparr>"
      "case r0 of Inl f \<Rightarrow> (\<exists>f'. r = Inl f') | Inr j \<Rightarrow> r = Inr (t, j)"
proof (cases "take_lock b User_lock (pt_user_id a) (time2 s) (redis_db s)")
  case None
  with assms(1) show ?thesis
    by (intro refused [of "Http_error 429 (fault_text v Lock_refused)"])
       (auto simp: open_transfer_def with_lock_def catching_def raise_def same_but_redis_def intro: exI [of _ "redis_db s"])
next
  case (Some k)
  let ?s = "s\<lparr>redis_db := k\<rparr>"
  let ?body = "andThen (bookkeep (create_pending_transfer b a)) (\<lambda>transaction.
     andThen (request_payin v transaction (pt_reference a) (pt_total_collected a) (pt_source_operator a) (pt_source_phone a))
       (\<lambda>jeko_response. return (transaction, jeko_response)))"
  obtain q1 s1 where body: "?body ?s = (q1, s1)" by fastforce
  let ?k = "free_lock b User_lock (pt_user_id a) (redis_db s1)"
  have out: "s' = s1\<lparr>redis_db := ?k\<rparr>" "case q1 of Inl f \<Rightarrow> (\<exists>f'. r = Inl f') | Inr x \<Rightarrow> r = Inr x"
    using assms(1) Some body
    by (auto simp: open_transfer_def with_lock_def catching_def raise_def split: sum.splits if_splits)
  show ?thesis
  proof (cases "create_pending_transfer b a (current2 s)")
    case (Inl f)
    with body have q1: "q1 = Inl f" "s1 = ?s" by (simp_all add: bookkeep_def eff_defs)
    with out obtain f' where "r = Inl f'" by auto
    moreover have "same_but_redis s s'" using out(1) q1(2) by (auto simp: same_but_redis_def)
    ultimately show ?thesis by (rule refused)
  next
    case (Inr x)
    obtain t st where x: "x = (t, st)" by fastforce
    let ?s2 = "?s\<lparr>current2 := st\<rparr>"
    obtain r0 s2 where rp: "request_payin v t (pt_reference a) (pt_total_collected a) (pt_source_operator a) (pt_source_phone a) ?s2 = (r0, s2)"
      by fastforce
    have s1: "s1 = s2" "q1 = (case r0 of Inl f \<Rightarrow> Inl f | Inr j \<Rightarrow> Inr (t, j))"
      using body Inr x rp by (auto simp: bookkeep_def eff_defs on_store_def split: sum.splits)
    from rp show ?thesis
    proof (cases rule: request_payin_cases)
      case (1 w q)
      with Inr x out s1 show ?thesis
        by (intro asked [of t st q w k r0 s1 ?k]) (auto split: sum.splits)
    qed
  qed
qed

lemma andThen_return: "andThen (return x) k = k x"
  by (rule ext) (simp add: andThen_def return_def)

lemma answer_get_object: "answer_get j k = Inr x \<Longrightarrow> \<exists>y. answer_get j k' = Inr y"
  by (cases j) (auto simp: answer_get_def)

text \<open>The row of a transfer as the client ordered it.\<close>

definition ordered :: "user2 \<Rightarrow> transfer_body \<Rightarrow> exchange_row \<Rightarrow> bool" where
  "ordered u p t \<longleftrightarrow> x_user_id t = u2_id u \<and> x_amount t = tb_amount p \<and>
     compute_total_to_collect (tb_amount p) = Some (x_total_collected t) \<and>
     x_source_operator t = tb_source_operator p \<and> x_recipient_phone t = tb_recipient_phone p"

definition asked_to_pay :: "('w, 'j) services \<Rightarrow> string \<Rightarrow> user2 \<Rightarrow> transfer_body \<Rightarrow> exchange_row \<Rightarrow> http_request list \<Rightarrow> bool" where
  "asked_to_pay v ref u p t reqs \<longleftrightarrow> (\<exists>c n. amount_to_cents (x_total_collected t) = Some c \<and> 1 \<le> n \<and> n \<le> 3 \<and>
     reqs = replicate n (deposit_request (jeko_of v) (ref @ ''-IN'') c (operator_value v (tb_source_operator p))
       (name_or (u2_phone_number u) (tb_source_phone p))))"

lemma create_transfer_cases:
  assumes "create_transfer v b e n p u s = (r, s')" "creates_pending b"
  defines "ref \<equiv> generate_internal_reference b ''TRF'' n"
  obtains (refused) f where "r = Inl f" "saved s' = saved s" "background s' = background s"
  | (failed) f t st where "r = Inl f" "saved s' = put_exchange (t\<lparr>x_payin_status := Some Leg_failed, x_status := Leg_failed\<rparr>) st"
      "rows_of ref st = [t]" "x_reference t = ref" "ordered u p t" "wallets2 st = wallets2 (current2 s)" "background s' = background s"
  | (accepted) a t st i reqs where "r = Inr a" "tr_reference a = ref" "tr_total_to_pay a = x_total_collected t"
      "saved s' = put_exchange (t\<lparr>x_jeko_payin_id := i\<rparr>) st"
      "rows_of ref st = [t]" "fresh_transfer ref t" "ordered u p t" "wallets2 st = wallets2 (current2 s)"
      "verify_pin2 e (tb_pin_code p) (u2_pin_code_hash u)" "background s' = background s @ [ref]"
      "sent (wire_of s') = sent (wire_of s) @ reqs" "asked_to_pay v ref u p t reqs"
proof -
  let ?phone = "name_or (u2_phone_number u) (tb_source_phone p)"
  consider (early) f where "r = Inl f" "s' = s"
    | (go) fee tot rate where "verify_pin2 e (tb_pin_code p) (u2_pin_code_hash u)"
        "\<not> (tb_recipient_phone p = ?phone \<and> tb_destination_operator p = tb_source_operator p)"
        "compute_platform_fee (tb_amount p) = Some fee" "compute_total_to_collect (tb_amount p) = Some tot"
        "map_of JEKO_DEPOSIT_FEE_RATE (tb_source_operator p) = Some rate"
    using assms(1) by (auto simp: create_transfer_def eff_defs Let_def split: if_splits option.splits)
  then show ?thesis
  proof cases
    case early
    then show ?thesis by (intro refused) auto
  next
    case go
    let ?a = "\<lparr>pt_user_id = u2_id u, pt_reference = ref,
             pt_source_operator = tb_source_operator p, pt_destination_operator = tb_destination_operator p,
             pt_net_amount = tb_amount p, pt_platform_fee = fee, pt_total_collected = tot,
             pt_deposit_fee_rate = rate, pt_recipient_name = tb_recipient_name p,
             pt_recipient_phone = tb_recipient_phone p, pt_source_phone = ?phone\<rparr>"
    obtain q0 s0 where ot: "open_transfer v b ?a s = (q0, s0)" by fastforce
    let ?finish = "\<lambda>(transaction, jeko_response).
          andThen (modify (\<lambda>s. s\<lparr>background := background s @ [ref]\<rparr>)) (\<lambda>_.
          case answer_get jeko_response ''redirectUrl'' of
            Inl e \<Rightarrow> raise e
          | Inr url \<Rightarrow> return \<lparr>tr_reference = ref, tr_status = x_status transaction, tr_net_amount = tb_amount p,
              tr_platform_fee = fee, tr_total_to_pay = tot, tr_redirect_url = url\<rparr>)"
    have run: "andThen (open_transfer v b ?a) ?finish s = (r, s')"
      using assms(1) go unfolding ref_def by (simp add: create_transfer_def value_or_def andThen_return Let_def)
    have stop: "r = Inl f \<and> s' = s0" if "q0 = Inl f" for f
      using run ot that by (simp add: andThen_def)
    from ot assms(2) show ?thesis
    proof (cases rule: open_transfer_cases)
      case (refused f)
      with stop show ?thesis by (intro that(1) [of f]) (auto simp: same_but_redis_def)
    next
      case (asked t st w q r0 k1 k2 s1)
      note new = creates_pendingD [OF assms(2) asked(1), simplified]
      have ord: "ordered u p t" using new go by (simp add: ordered_def)
      from asked(3) consider (unsaved) f where "r0 = Inl f" "s1 = s\<lparr>redis_db := k1, current2 := st, wire_of := w\<rparr>"
        | (no) j st' where "r0 = Inl (payment_refused v j)" "saved s1 = st'" "background s1 = background s"
            "st' = put_exchange (t\<lparr>x_payin_status := Some Leg_failed, x_status := Leg_failed\<rparr>) st"
        | (yes) j i st' where "q = Inr j" "r0 = Inr j" "answer_get j ''id'' = Inr i" "saved s1 = st'" "background s1 = background s"
            "wire_of s1 = w" "st' = put_exchange (t\<lparr>x_jeko_payin_id := i\<rparr>) st"
        unfolding payin_ended_def by auto
      then show ?thesis
      proof cases
        case (unsaved f)
        with asked(5) obtain f' where f': "q0 = Inl f'" by auto
        have "saved s0 = saved s" "background s0 = background s" using unsaved(2) asked(4) by simp_all
        with stop [OF f'] show ?thesis by (intro that(1) [of f']) simp_all
      next
        case (no j st')
        with asked(5) obtain f' where f': "q0 = Inl f'" by auto
        have "saved s0 = st'" "background s0 = background s" using no(2,3) asked(4) by simp_all
        with stop [OF f'] no(4) new ord show ?thesis
          by (intro that(2) [of f' t st]) (simp_all add: fresh_transfer_def)
      next
        case (yes j i st')
        from answer_get_object [OF yes(3)] obtain url where url: "answer_get j ''redirectUrl'' = Inr url" by blast
        let ?r = "\<lparr>tr_reference = ref, tr_status = x_status t, tr_net_amount = tb_amount p,
              tr_platform_fee = fee, tr_total_to_pay = tot, tr_redirect_url = url\<rparr>"
        have fin: "r = Inr ?r" "s' = s1\<lparr>redis_db := k2, background := background s @ [ref]\<rparr>"
          using run ot asked(4,5) yes url by (simp_all add: andThen_def modify_def return_def)
        from asked(2) obtain c m where reqs: "amount_to_cents tot = Some c" "1 \<le> m" "m \<le> 3"
          "sent w = sent (wire_of s) @ replicate m (deposit_request (jeko_of v) (ref @ ''-IN'') c (operator_value v (tb_source_operator p)) ?phone)"
          using yes(1) by (cases rule: deposit_sent) auto
        show ?thesis
        proof (rule that(3))
          show "r = Inr ?r" by (rule fin(1))
          show "saved s' = put_exchange (t\<lparr>x_jeko_payin_id := i\<rparr>) st" using yes fin by simp
          show "sent (wire_of s') = sent (wire_of s) @ replicate m (deposit_request (jeko_of v) (ref @ ''-IN'') c (operator_value v (tb_source_operator p)) ?phone)"
            using yes fin reqs by simp
          show "asked_to_pay v ref u p t (replicate m (deposit_request (jeko_of v) (ref @ ''-IN'') c (operator_value v (tb_source_operator p)) ?phone))"
            using reqs new go by (auto simp: asked_to_pay_def)
        qed (use new go fin yes ord in auto)
      qed
    qed
  qed
qed

section \<open>Contracts\<close>

lemma ordered_update [simp]:
  "ordered u p (t\<lparr>x_payin_status := a, x_status := b\<rparr>) = ordered u p t" "ordered u p (t\<lparr>x_jeko_payin_id := i\<rparr>) = ordered u p t"
  by (simp_all add: ordered_def)


section \<open>A sample order\<close>

definition sample_security2 :: security2 where
  "sample_security2 = \<lparr>pwd_hash2 = (\<lambda>n p. p), pwd_verify2 = (\<lambda>p h. p = h), jwt_encode2 = (\<lambda>c. []),
     jwt_decode2 = (\<lambda>now tok. if tok = ''token of 7'' then Some \<lparr>c2_sub = Some 7, c2_exp = 100\<rparr> else None), jwt_expire_minutes = 1\<rparr>"

definition sample_user2 :: user2 where
  "sample_user2 = \<lparr>u2_id = 7, u2_phone_number = ''0701'', u2_pin_code_hash = ''1234'', u2_kyc_status = ''VERIFIED'', u2_commission_rate = Dec 1 (-2)\<rparr>"

definition sample_order :: transfer_body where
  "sample_order = \<lparr>tb_pin_code = ''1234'', tb_source_phone = None, tb_recipient_phone = ''0502'', tb_recipient_name = None,
     tb_amount = Dec 1000 0, tb_source_operator = ''WAVE'', tb_destination_operator = ''MTN''\<rparr>"

definition pending_row :: "pending_transfer \<Rightarrow> exchange_row" where
  "pending_row a = sample_transfer\<lparr>x_reference := pt_reference a, x_user_id := pt_user_id a, x_amount := pt_net_amount a,
     x_platform_fee := pt_platform_fee a, x_total_collected := pt_total_collected a, x_source_operator := pt_source_operator a,
     x_destination_operator := pt_destination_operator a, x_source_phone := pt_source_phone a,
     x_recipient_phone := pt_recipient_phone a, x_recipient_name := pt_recipient_name a, x_jeko_payin_id := JNull\<rparr>"

definition sample_books :: "'w bookkeeping" where
  "sample_books = \<lparr>generate_internal_reference = (\<lambda>p n. p @ ''-'' @ nat_str n),
     take_lock = (\<lambda>k u now r. Some r), free_lock = (\<lambda>k u r. r),
     create_pending_transfer = (\<lambda>a st. if filter (\<lambda>x. x_reference x = pt_reference a) (exchanges st) \<noteq> [] then Inl (Wallet_fault 1)
       else Inr (pending_row a, st\<lparr>exchanges := exchanges st @ [pending_row a]\<rparr>)),
     create_pending_transaction = (\<lambda>a st. Inl (Wallet_fault 2)), get_or_create_client = (\<lambda>a p n st. Inl (Wallet_fault 3))\<rparr>"

lemma sample_books_create: "creates_pending sample_books"
  by (auto simp: creates_pending_def sample_books_def pending_row_def sample_transfer_def fresh_transfer_def rows_of_def
      split: if_splits)

definition empty_world :: "((nat \<times> decimal) list, nat) world" where
  "empty_world =
     (let st = \<lparr>exchanges = [], devices = [], users2 = [sample_user2], clients = [], kyc_files = [], wallets2 = []\<rparr>
      in \<lparr>saved = st, current2 = st, redis_db = (\<lambda>_. None), wire_of = \<lparr>server = 0, sent = []\<rparr>, posted = [], background = [], time2 = 50\<rparr>)"




definition slow_services :: "((nat \<times> decimal) list, nat) services" where
  "slow_services = sample_services\<lparr>jeko_of := sample_jeko\<lparr>answer_to := (\<lambda>rq n. (Unreachable, Suc n))\<rparr>\<rparr>"

text \<open>A payment can be lost. When the answers of JEKO do not arrive in time, JEKO has got the request
  for the pay-in three times, the client is told that the service is unavailable, and nothing of
  the transaction is kept: when the client confirms the payment on the phone, the report of JEKO
  is about an unknown transaction.\<close>

theorem transfer_lost_on_timeout:
  "let (r, s) = in_session (create_transfer slow_services sample_books sample_security2 5 sample_order sample_user2) empty_world
   in r = Inl payment_unavailable \<and> server (wire_of s) = 3 \<and> exchanges (saved s) = [] \<and>
      fst (deliver slow_services ''TRF-5'' (In_leg Leg_success ''e1'') s) = Inl (Not_found ''TRF-5'')"
  by code_simp

end
