(* ===== verification/Agents.thy ===== *)
theory Agents
  imports TransferContract Like
begin

text \<open>
  \<open>app/api/v1/agent.py\<close>: agents take and give cash for mobile money. A cash-in sends money from the
  agent's float at JEKO to the client, a cash-out collects it from the client; the commission is
  kept in a wallet. Path parameters that are ids are numbers.
\<close>

section \<open>The float\<close>

text \<open>\<open>key in raw\<close> for a value read from JSON: the keys of an object, the members of a list, a part of
  a string; a \<open>TypeError\<close> (\<open>None\<close>) otherwise.\<close>

fun has_text :: "string \<Rightarrow> string \<Rightarrow> bool" where
  "has_text k [] = (k = [])"
| "has_text k (c # s) = (starts_with k (c # s) \<or> has_text k s)"

fun json_has :: "json \<Rightarrow> string \<Rightarrow> bool option" where
  "json_has (JObj kvs) k = Some (jget kvs k \<noteq> None)"
| "json_has (JArr xs) k = Some (JStr k \<in> set xs)"
| "json_has (JStr s) k = Some (has_text k s)"
| "json_has _ k = None"

definition dict_get :: "(string \<times> json) list \<Rightarrow> string \<Rightarrow> json \<Rightarrow> json" where
  "dict_get kvs k d = (case jget kvs k of None \<Rightarrow> d | Some x \<Rightarrow> x)"

text \<open>Division of a decimal by 100: exact, with as few decimals as it takes; then the context's
  rounding.\<close>

definition dec_hundredth :: "decimal \<Rightarrow> decimal" where
  "dec_hundredth d =
     (let c = coef d; e = expo d in
      dec_fix (if 100 dvd c then Dec (c div 100) e else if 10 dvd c then Dec (c div 10) (e - 1) else Dec c (e - 2)))"

definition centimes :: "'j jeko_env \<Rightarrow> json \<Rightarrow> ('w, 'j, decimal) act" where
  "centimes k x = value_or Decimal_error (map_option dec_hundredth (dec_parse (str_of k x)))"

fun first_balance :: "'j jeko_env \<Rightarrow> (string \<times> json) list \<Rightarrow> string list \<Rightarrow> ('w, 'j, decimal \<times> json) act" where
  "first_balance k raw [] = return (Dec 0 0, JStr ''XOF'')"
| "first_balance k raw (key # keys) =
     (case jget raw key of
        Some x \<Rightarrow> andThen (centimes k x) (\<lambda>n. return (n, dict_get raw ''currency'' (JStr ''XOF'')))
      | None \<Rightarrow> first_balance k raw keys)"

definition BALANCE_KEYS :: "string list" where
  "BALANCE_KEYS = [''amountCents'', ''balance'', ''availableCents'']"

definition parse_store_balance :: "'j jeko_env \<Rightarrow> json \<Rightarrow> ('w, 'j, decimal \<times> json) act" where
  "parse_store_balance k raw =
     (case raw of
        JObj kvs \<Rightarrow>
          (case jget kvs ''balances'' of
             Some (JArr (entry # rest)) \<Rightarrow>
               (case entry of
                  JObj e \<Rightarrow>
                    let a = dict_get e ''amountCents'' JNull; b = dict_get e ''balance'' JNull in
                    andThen (centimes k (if truthy a then a else if truthy b then b else JNum 0)) (\<lambda>n.
                    return (n, dict_get e ''currency'' (JStr ''XOF'')))
                | _ \<Rightarrow> raise Attribute_error)
           | _ \<Rightarrow> first_balance k kvs BALANCE_KEYS)
      | _ \<Rightarrow>
          (case map (json_has raw) (''balances'' # BALANCE_KEYS) of
             found \<Rightarrow> if list_all (\<lambda>b. b = Some False) found then return (Dec 0 0, JStr ''XOF'') else raise Type_error))"

record agent_dashboard =
  ad_store_balance :: decimal
  ad_currency :: json
  ad_commission_earned_total :: decimal
  ad_commission_rate :: decimal

text \<open>\<open>commission_wallet\<close> reads the commission wallet of a user in the part of the database that is not in the
  repository.\<close>

definition get_dashboard ::
  "('w, 'j) services \<Rightarrow> (uuid \<Rightarrow> 'w \<Rightarrow> decimal option) \<Rightarrow> user2 \<Rightarrow> ('w, 'j, agent_dashboard) act" where
  "get_dashboard v commission_wallet current_user =
     andThen (gets (\<lambda>s. commission_wallet (u2_id current_user) (wallets2 (current2 s)))) (\<lambda>wallet.
     case wallet of
       None \<Rightarrow> raise (Http_error 404 ''Wallet de commission introuvable'')
     | Some earned \<Rightarrow>
         andThen
           (catching
              (andThen (on_wire (get_store_balance (jeko_of v))) (\<lambda>raw. parse_store_balance (jeko_of v) raw))
              (\<lambda>e. if is_jeko_error e then return (Dec 0 0, JStr ''XOF'') else raise e)) (\<lambda>(store_balance, currency).
         return \<lparr>ad_store_balance = store_balance, ad_currency = currency, ad_commission_earned_total = earned,
           ad_commission_rate = u2_commission_rate current_user\<rparr>))"

definition update_settings :: "decimal \<Rightarrow> user2 \<Rightarrow> ('w, 'j, unit) act" where
  "update_settings commission_rate current_user =
     andThen (on_store (\<lambda>st. st\<lparr>users2 := update_where (\<lambda>u. u2_id u = u2_id current_user)
       (\<lambda>u. u\<lparr>u2_commission_rate := commission_rate\<rparr>) (users2 st)\<rparr>)) (\<lambda>_.
     commit2)"

section \<open>Clients\<close>

text \<open>\<open>ORDER BY\<close> a text column follows the collation of the database, here the rank of a text.\<close>

definition list_clients :: "(string \<Rightarrow> nat) \<Rightarrow> string option \<Rightarrow> user2 \<Rightarrow> ('w, 'j, client_row list) act" where
  "list_clients collate search current_user =
     gets (\<lambda>s. oldest_first (\<lambda>c. collate (cl_full_name c))
       (filter (\<lambda>c. cl_agent_id c = u2_id current_user \<and>
          (case search of
             None \<Rightarrow> True
           | Some q \<Rightarrow> q = [] \<or> ilike (cl_full_name c) (''%'' @ q @ ''%'') \<or> ilike (cl_phone_number c) (''%'' @ q @ ''%'')))
        (clients (current2 s))))"

definition get_client_transactions :: "uuid \<Rightarrow> user2 \<Rightarrow> ('w, 'j, exchange_row list) act" where
  "get_client_transactions client_id current_user =
     andThen (gets (\<lambda>s. filter (\<lambda>c. cl_id c = client_id \<and> cl_agent_id c = u2_id current_user) (clients (current2 s)))) (\<lambda>rows.
     case rows of
       [] \<Rightarrow> raise (Http_error 404 ''Client introuvable'')
     | [c] \<Rightarrow>
         gets (\<lambda>s. newest_first x_created_at
           (filter (\<lambda>t. x_client_id t = Some client_id \<and> x_agent_id t = Some (u2_id current_user)) (exchanges (current2 s))))
     | _ \<Rightarrow> raise Multiple_results)"

definition get_transaction_status :: "string \<Rightarrow> user2 \<Rightarrow> ('w, 'j, exchange_row) act" where
  "get_transaction_status internal_reference current_user =
     andThen (find_exchange (\<lambda>t. x_reference t = internal_reference \<and> x_agent_id t = Some (u2_id current_user))) (\<lambda>found.
     case found of None \<Rightarrow> raise (Http_error 404 ''Transaction introuvable'') | Some t \<Rightarrow> return t)"

text \<open>An agent sees the clients and operations of that agent only.\<close>

lemma agent_sees_own:
  "list_clients collate q u s = (Inr cs, s1) \<Longrightarrow> \<forall>c \<in> set cs. cl_agent_id c = u2_id u \<and> c \<in> set (clients (current2 s))"
  "get_client_transactions i u s = (Inr ts, s2) \<Longrightarrow> \<forall>t \<in> set ts. x_agent_id t = Some (u2_id u) \<and> x_client_id t = Some i"
  "get_transaction_status ref u s = (Inr t, s3) \<Longrightarrow> x_agent_id t = Some (u2_id u) \<and> x_reference t = ref"
  by (auto simp: list_clients_def get_client_transactions_def get_transaction_status_def find_exchange_def eff_defs
      filter_eq_Cons_iff split: list.splits option.splits)

section \<open>Cash-in and cash-out\<close>

record cash_body =
  cb_pin_code :: string
  cb_client_phone_number :: string
  cb_client_full_name :: string
  cb_operator :: string
  cb_amount :: decimal

record cash_response =
  ca_reference :: string
  ca_status :: leg_status
  ca_commission_amount :: decimal

definition operation_busy :: fault where
  "operation_busy = Http_error 409 (''Une autre op'' @ [CHR 0xE9] @ ''ration est d'' @ [CHR 0xE9] @ ''j'' @ [CHR 0xE0] @
     '' en cours, veuillez patienter.'')"

text \<open>\<open>f"Echec du Cash-In ..."\<close> with the payload of JEKO's refusal.\<close>

definition cash_refused :: "('w, 'j) services \<Rightarrow> string \<Rightarrow> json \<Rightarrow> string" where
  "cash_refused v operation payload =
     [CHR 0xC9] @ ''chec du '' @ operation @ '' c'' @ [CHR 0xF4] @ ''t'' @ [CHR 0xE9] @ '' JEKO: '' @ str_of (jeko_of v) payload"

definition UNAVAILABLE :: string where
  "UNAVAILABLE = ''Service de paiement momentan'' @ [CHR 0xE9] @ ''ment indisponible, r'' @ [CHR 0xE9] @ ''essayez.''"

text \<open>The part under the lock: the file of the client and the PENDING row, committed.\<close>

definition open_operation ::
  "'w bookkeeping \<Rightarrow> tx_kind \<Rightarrow> string \<Rightarrow> cash_body \<Rightarrow> user2 \<Rightarrow> ('w, 'j, exchange_row) act" where
  "open_operation b tx_type internal_reference payload current_user =
     catching
       (with_lock b Agent_lock (u2_id current_user)
          (andThen (bookkeep (get_or_create_client b (u2_id current_user) (cb_client_phone_number payload) (cb_client_full_name payload))) (\<lambda>client.
           andThen (bookkeep (create_pending_transaction b
             \<lparr>po_agent_id = u2_id current_user, po_client_id = cl_id client, po_reference = internal_reference,
              po_type = tx_type, po_operator = cb_operator payload, po_amount = cb_amount payload,
              po_commission_rate = u2_commission_rate current_user, po_recipient_phone = cb_client_phone_number payload\<rparr>)) (\<lambda>transaction.
           andThen commit2 (\<lambda>_.
           return transaction)))))
       (\<lambda>e. if e = Lock_refused then raise operation_busy else raise e)"

definition fail_operation :: "exchange_row \<Rightarrow> fault \<Rightarrow> ('w, 'j, 'a) act" where
  "fail_operation transaction e =
     andThen (save (transaction\<lparr>x_status := Leg_failed\<rparr>)) (\<lambda>_.
     andThen commit2 (\<lambda>_.
     raise e))"

text \<open>The reference of JEKO's answer, committed.\<close>

definition note_reference :: "string \<Rightarrow> exchange_row \<Rightarrow> json \<Rightarrow> ('w, 'j, cash_response) act" where
  "note_reference internal_reference transaction jeko_response =
     (case answer_get jeko_response ''id'' of
        Inl e \<Rightarrow> raise e
      | Inr i \<Rightarrow>
          andThen (save (transaction\<lparr>x_jeko_reference := i\<rparr>)) (\<lambda>_.
          andThen commit2 (\<lambda>_.
          return \<lparr>ca_reference = internal_reference, ca_status = Leg_pending,
            ca_commission_amount = x_commission_amount transaction\<rparr>)))"

definition cash_in ::
  "('w, 'j) services \<Rightarrow> 'w bookkeeping \<Rightarrow> security2 \<Rightarrow> nat \<Rightarrow> cash_body \<Rightarrow> user2 \<Rightarrow> ('w, 'j, cash_response) act" where
  "cash_in v b e random payload current_user =
     (if \<not> verify_pin2 e (cb_pin_code payload) (u2_pin_code_hash current_user) then raise wrong_pin
      else
        let internal_reference = generate_internal_reference b ''CIN'' random in
        andThen (open_operation b Cash_in internal_reference payload current_user) (\<lambda>transaction.
        andThen
          (catching
             (on_wire (create_withdrawal_transfer (jeko_of v) internal_reference (cb_amount payload)
                (operator_value v (cb_operator payload)) (cb_client_phone_number payload) (cb_client_full_name payload)))
             (\<lambda>exc. case exc of
                Jeko_api_error code p \<Rightarrow> fail_operation transaction (Http_error 400 (cash_refused v ''Cash-In'' p))
              | Jeko_network_error \<Rightarrow> fail_operation transaction (Http_error 400 UNAVAILABLE)
              | _ \<Rightarrow> raise exc)) (\<lambda>jeko_response.
        note_reference internal_reference transaction jeko_response)))"

definition cash_out ::
  "('w, 'j) services \<Rightarrow> 'w bookkeeping \<Rightarrow> security2 \<Rightarrow> nat \<Rightarrow> cash_body \<Rightarrow> user2 \<Rightarrow> ('w, 'j, cash_response) act" where
  "cash_out v b e random payload current_user =
     (if \<not> verify_pin2 e (cb_pin_code payload) (u2_pin_code_hash current_user) then raise wrong_pin
      else
        let internal_reference = generate_internal_reference b ''COUT'' random in
        andThen (open_operation b Cash_out internal_reference payload current_user) (\<lambda>transaction.
        andThen
          (catching
             (on_wire (create_deposit_payment_request (jeko_of v) internal_reference (cb_amount payload)
                (operator_value v (cb_operator payload)) (cb_client_phone_number payload)))
             (\<lambda>exc. case exc of
                Jeko_api_error code p \<Rightarrow> fail_operation transaction (Http_error 400 (cash_refused v ''Cash-Out'' p))
              | Jeko_network_error \<Rightarrow> raise payment_unavailable
              | _ \<Rightarrow> raise exc)) (\<lambda>jeko_response.
        note_reference internal_reference transaction jeko_response)))"

end
