(* ===== verification/AgentContract.thy ===== *)
theory AgentContract
  imports Agents
begin

text \<open>
  What cash-in and cash-out come to, and how the webhooks treat their transactions.
\<close>

section \<open>The row\<close>

text \<open>What the routes rely on of the missing functions: a client's file and a PENDING row are added, the
  row made of the arguments under a new reference, and nothing else changes.\<close>

definition creates_operation :: "'w bookkeeping \<Rightarrow> bool" where
  "creates_operation b \<longleftrightarrow>
     (\<forall>a p n st c st'. get_or_create_client b a p n st = Inr (c, st') \<longrightarrow>
        exchanges st' = exchanges st \<and> wallets2 st' = wallets2 st) \<and>
     (\<forall>a st t st'. create_pending_transaction b a st = Inr (t, st') \<longrightarrow>
        x_reference t = po_reference a \<and> x_type t = po_type a \<and> x_status t = Leg_pending \<and> x_amount t = po_amount a \<and>
        x_agent_id t = Some (po_agent_id a) \<and>
        rows_of (po_reference a) st = [] \<and> exchanges st' = exchanges st @ [t] \<and> wallets2 st' = wallets2 st)"

lemma creates_operationD:
  assumes "creates_operation b" "create_pending_transaction b a st = Inr (t, st')"
  shows "x_reference t = po_reference a" "x_type t = po_type a" "x_status t = Leg_pending" "x_amount t = po_amount a"
    "x_agent_id t = Some (po_agent_id a)" "rows_of (po_reference a) st' = [t]" "wallets2 st' = wallets2 st"
proof -
  from assms have "x_reference t = po_reference a \<and> x_type t = po_type a \<and> x_status t = Leg_pending \<and> x_amount t = po_amount a \<and>
    x_agent_id t = Some (po_agent_id a) \<and> rows_of (po_reference a) st = [] \<and> exchanges st' = exchanges st @ [t] \<and> wallets2 st' = wallets2 st"
    unfolding creates_operation_def by blast
  then show "x_reference t = po_reference a" "x_type t = po_type a" "x_status t = Leg_pending" "x_amount t = po_amount a"
    "x_agent_id t = Some (po_agent_id a)" "rows_of (po_reference a) st' = [t]" "wallets2 st' = wallets2 st"
    by (simp_all add: rows_of_def)
qed

text \<open>The row of an operation as the agent entered it.\<close>

definition entered :: "tx_kind \<Rightarrow> string \<Rightarrow> cash_body \<Rightarrow> user2 \<Rightarrow> exchange_row \<Rightarrow> bool" where
  "entered k ref p u t \<longleftrightarrow> x_reference t = ref \<and> x_type t = k \<and> x_amount t = cb_amount p \<and> x_agent_id t = Some (u2_id u)"

lemma entered_update [simp]:
  "entered k ref p u (t\<lparr>x_status := st\<rparr>) = entered k ref p u t" "entered k ref p u (t\<lparr>x_jeko_reference := i\<rparr>) = entered k ref p u t"
  by (simp_all add: entered_def)

lemma bookkeep_cases:
  assumes "bookkeep f s = (r, s')"
  obtains (refused) e where "r = Inl e" "s' = s" | (kept) x st where "f (current2 s) = Inr (x, st)" "r = Inr x" "s' = s\<lparr>current2 := st\<rparr>"
  using assms by (auto simp: bookkeep_def eff_defs on_store_def split: sum.splits)

lemma open_operation_cases:
  assumes "open_operation b k ref p u s = (r, s')" "creates_operation b"
  obtains (refused) f where "r = Inl f" "saved s' = saved s" "wire_of s' = wire_of s"
  | (opened) t where "r = Inr t" "entered k ref p u t" "x_status t = Leg_pending" "rows_of ref (saved s') = [t]"
      "current2 s' = saved s'" "wallets2 (saved s') = wallets2 (current2 s)" "wire_of s' = wire_of s"
proof (cases "take_lock b Agent_lock (u2_id u) (time2 s) (redis_db s)")
  case None
  with assms(1) show ?thesis
    by (intro refused [of operation_busy]) (auto simp: open_operation_def with_lock_def catching_def raise_def)
next
  case (Some key)
  let ?s = "s\<lparr>redis_db := key\<rparr>"
  let ?op = "\<lambda>client. \<lparr>po_agent_id = u2_id u, po_client_id = cl_id client, po_reference = ref, po_type = k,
     po_operator = cb_operator p, po_amount = cb_amount p, po_commission_rate = u2_commission_rate u,
     po_recipient_phone = cb_client_phone_number p\<rparr>"
  let ?body = "andThen (bookkeep (get_or_create_client b (u2_id u) (cb_client_phone_number p) (cb_client_full_name p))) (\<lambda>client.
     andThen (bookkeep (create_pending_transaction b (?op client))) (\<lambda>t. andThen commit2 (\<lambda>_. return t)))"
  obtain q s1 where body: "?body ?s = (q, s1)" by fastforce
  have out: "s' = s1\<lparr>redis_db := free_lock b Agent_lock (u2_id u) (redis_db s1)\<rparr>"
    "case q of Inl f \<Rightarrow> (\<exists>f'. r = Inl f') | Inr t \<Rightarrow> r = Inr t"
    using assms(1) Some body
    by (auto simp: open_operation_def with_lock_def catching_def raise_def split: sum.splits if_splits)
  have stop: ?thesis if "q = Inl f" "saved s1 = saved s" "wire_of s1 = wire_of s" for f
    using that out by (auto intro: refused)
  from body show ?thesis
  proof (cases rule: andThen_cases)
    case (stopped f)
    from stopped(1) show ?thesis
      by (cases rule: bookkeep_cases) (use stopped(2) in \<open>auto intro: stop\<close>)
  next
    case (went_on c s2)
    from went_on(1) obtain st where c: "get_or_create_client b (u2_id u) (cb_client_phone_number p) (cb_client_full_name p) (current2 s) = Inr (c, st)"
      "s2 = ?s\<lparr>current2 := st\<rparr>" by (cases rule: bookkeep_cases) auto
    from went_on(2) show ?thesis
    proof (cases rule: andThen_cases)
      case (stopped f)
      from stopped(1) show ?thesis
        by (cases rule: bookkeep_cases) (use stopped(2) c(2) in \<open>auto intro: stop\<close>)
    next
      case (went_on t s3)
      from went_on(1) obtain st' where t: "create_pending_transaction b (?op c) st = Inr (t, st')" "s3 = s2\<lparr>current2 := st'\<rparr>"
        using c(2) by (cases rule: bookkeep_cases) auto
      from went_on(2) have s1: "q = Inr t" "s1 = s3\<lparr>saved := current2 s3\<rparr>" by (simp_all add: andThen_def commit2_def modify_def return_def)
      have st: "exchanges st = exchanges (current2 s)" "wallets2 st = wallets2 (current2 s)"
        using assms(2) c(1) by (auto simp: creates_operation_def)
      have "entered k ref p u t" "x_status t = Leg_pending" "rows_of ref st' = [t]" "wallets2 st' = wallets2 st"
        using creates_operationD [OF assms(2) t(1)] by (simp_all add: entered_def)
      with st s1 t(2) c(2) out show ?thesis by (intro opened [of t]) simp_all
    qed
  qed
qed

section \<open>Asking JEKO\<close>

text \<open>How an operation stands after JEKO's answer \<open>q\<close>, and the answer to the agent: FAILED on the errors
  for which the route says so, PENDING with JEKO's id or without it otherwise.\<close>

definition after_answer ::
  "string \<Rightarrow> exchange_row \<Rightarrow> (fault \<Rightarrow> bool) \<Rightarrow> fault + json \<Rightarrow> fault + cash_response \<Rightarrow> 'w store \<Rightarrow> bool" where
  "after_answer ref t fails q r st \<longleftrightarrow>
     (case q of
        Inl e \<Rightarrow> (\<exists>f. r = Inl f) \<and> rows_of ref st = [if fails e then t\<lparr>x_status := Leg_failed\<rparr> else t]
      | Inr j \<Rightarrow>
          (case answer_get j ''id'' of
             Inl f \<Rightarrow> r = Inl f \<and> rows_of ref st = [t]
           | Inr i \<Rightarrow> rows_of ref st = [t\<lparr>x_jeko_reference := i\<rparr>] \<and>
               r = Inr \<lparr>ca_reference = ref, ca_status = Leg_pending, ca_commission_amount = x_commission_amount t\<rparr>))"

lemma ask_jeko:
  assumes "andThen (catching (on_wire m) h) (note_reference ref t) s = (r, s')"
    and "\<And>e. h e = (if fails e then fail_operation t (g e) else raise (g e))"
    and "rows_of ref (saved s) = [t]" "current2 s = saved s" "x_reference t = ref"
  shows "\<exists>q. m (wire_of s) = (q, wire_of s') \<and> wallets2 (saved s') = wallets2 (saved s) \<and> after_answer ref t fails q r (saved s')"
proof -
  obtain q w where q: "m (wire_of s) = (q, w)" by fastforce
  then have wire: "on_wire m s = (q, s\<lparr>wire_of := w\<rparr>)" by (simp add: on_wire_def zoom_def)
  note defs = after_answer_def andThen_def catching_def raise_def fail_operation_def note_reference_def save_def on_store_def
    commit2_def modify_def return_def
  note put = rows_of_put [OF assms(3)]
  have "m (wire_of s) = (q, wire_of s') \<and> wallets2 (saved s') = wallets2 (saved s) \<and> after_answer ref t fails q r (saved s')"
  proof (cases q)
    case (Inl e)
    then show ?thesis
      using assms(1) q wire put [of "t\<lparr>x_status := Leg_failed\<rparr>"] assms(3-5)
      by (cases "fails e") (auto simp: defs assms(2))
  next
    case (Inr j)
    then show ?thesis
      using assms(1) q wire put assms(3-5)
      by (cases "answer_get j ''id''") (auto simp: defs)
  qed
  then show ?thesis by blast
qed

section \<open>Contracts\<close>

fun refused_by_jeko :: "fault \<Rightarrow> bool" where
  "refused_by_jeko (Jeko_api_error c p) = True"
| "refused_by_jeko _ = False"

text \<open>The outcome of an operation: refused without a trace, or entered and put to JEKO by \<open>ask\<close>.\<close>

definition operation_outcome ::
  "security2 \<Rightarrow> tx_kind \<Rightarrow> string \<Rightarrow> cash_body \<Rightarrow> user2 \<Rightarrow> ('j wire, fault, json) eff \<Rightarrow> (fault \<Rightarrow> bool)
   \<Rightarrow> ('w, 'j) world \<Rightarrow> fault + cash_response \<Rightarrow> ('w, 'j) world \<Rightarrow> bool" where
  "operation_outcome e k ref p u ask fails s r s' \<longleftrightarrow> wallets2 (saved s') = wallets2 (saved s) \<and>
     ((\<exists>f. r = Inl f) \<and> saved s' = saved s \<and> wire_of s' = wire_of s \<or>
      verify_pin2 e (cb_pin_code p) (u2_pin_code_hash u) \<and>
      (\<exists>t q. entered k ref p u t \<and> x_status t = Leg_pending \<and> ask (wire_of s) = (q, wire_of s') \<and>
         after_answer ref t fails q r (saved s')))"

lemma operation_outcomeI:
  assumes "in_session (andThen (open_operation b k ref p u) (\<lambda>t. andThen (catching (on_wire m) (h t)) (note_reference ref t))) s = (r, s')"
    and "\<And>t e. h t e = (if fails e then fail_operation t (g e) else raise (g e))"
    and "creates_operation b" "verify_pin2 e (cb_pin_code p) (u2_pin_code_hash u)"
  shows "operation_outcome e k ref p u m fails s r s'"
proof -
  let ?s = "s\<lparr>current2 := saved s\<rparr>"
  obtain s2 where run: "andThen (open_operation b k ref p u) (\<lambda>t. andThen (catching (on_wire m) (h t)) (note_reference ref t)) ?s = (r, s2)"
    and s': "s' = s2\<lparr>current2 := saved s2\<rparr>"
    using assms(1) by (auto simp: in_session_def split: prod.splits)
  obtain q0 s1 where oo: "open_operation b k ref p u ?s = (q0, s1)" by fastforce
  from oo assms(3) show ?thesis
  proof (cases rule: open_operation_cases)
    case (refused f)
    with run oo s' show ?thesis by (auto simp: andThen_def operation_outcome_def)
  next
    case (opened t)
    with run oo have "andThen (catching (on_wire m) (h t)) (note_reference ref t) s1 = (r, s2)" by (simp add: andThen_def)
    from ask_jeko [of m "h t" ref t s1 r s2 fails g, OF this assms(2) opened(4,5)] opened(2)
    obtain q where "m (wire_of s1) = (q, wire_of s2)" "wallets2 (saved s2) = wallets2 (saved s1)" "after_answer ref t fails q r (saved s2)"
      by (auto simp: entered_def)
    with opened assms(4) s' show ?thesis by (auto simp: operation_outcome_def)
  qed
qed

text \<open>C30: what cash-in and cash-out come to. Nothing happens unless the agent's PIN is right, and an
  operation that is refused before JEKO is asked leaves no trace. Otherwise the operation is in
  the database as entered, PENDING, before JEKO is asked; then it is FAILED exactly when JEKO
  refuses (or, for a cash-in, cannot be reached), and PENDING with JEKO's id when the agent gets an
  answer. The wallets are not touched: the commission is left to the report of JEKO.\<close>

theorem cash_operations:
  assumes "creates_operation b"
  shows "(let ref = generate_internal_reference b ''CIN'' n; (r, s') = in_session (cash_in v b e n p u) s
     in operation_outcome e Cash_in ref p u
        (create_withdrawal_transfer (jeko_of v) ref (cb_amount p) (operator_value v (cb_operator p))
          (cb_client_phone_number p) (cb_client_full_name p)) is_jeko_error s r s') \<and>
    (let ref = generate_internal_reference b ''COUT'' n; (r, s') = in_session (cash_out v b e n p u) s
     in operation_outcome e Cash_out ref p u
        (create_deposit_payment_request (jeko_of v) ref (cb_amount p) (operator_value v (cb_operator p))
          (cb_client_phone_number p)) refused_by_jeko s r s')"
proof (cases "verify_pin2 e (cb_pin_code p) (u2_pin_code_hash u)")
  case False
  then show ?thesis
    by (simp add: cash_in_def cash_out_def in_session_def raise_def operation_outcome_def)
next
  case True
  let ?m1 = "create_withdrawal_transfer (jeko_of v) (generate_internal_reference b ''CIN'' n) (cb_amount p)
     (operator_value v (cb_operator p)) (cb_client_phone_number p) (cb_client_full_name p)"
  let ?m2 = "create_deposit_payment_request (jeko_of v) (generate_internal_reference b ''COUT'' n) (cb_amount p)
     (operator_value v (cb_operator p)) (cb_client_phone_number p)"
  let ?g1 = "\<lambda>e. case e of Jeko_api_error c j \<Rightarrow> Http_error 400 (cash_refused v ''Cash-In'' j)
     | Jeko_network_error \<Rightarrow> Http_error 400 UNAVAILABLE | _ \<Rightarrow> e"
  let ?g2 = "\<lambda>e. case e of Jeko_api_error c j \<Rightarrow> Http_error 400 (cash_refused v ''Cash-Out'' j)
     | Jeko_network_error \<Rightarrow> payment_unavailable | _ \<Rightarrow> e"
  let ?h1 = "\<lambda>t e. case e of Jeko_api_error c j \<Rightarrow> fail_operation t (Http_error 400 (cash_refused v ''Cash-In'' j))
     | Jeko_network_error \<Rightarrow> fail_operation t (Http_error 400 UNAVAILABLE) | _ \<Rightarrow> raise e"
  let ?h2 = "\<lambda>t e. case e of Jeko_api_error c j \<Rightarrow> fail_operation t (Http_error 400 (cash_refused v ''Cash-Out'' j))
     | Jeko_network_error \<Rightarrow> raise payment_unavailable | _ \<Rightarrow> raise e"
  let ?in = "in_session (cash_in v b e n p u) s" and ?out = "in_session (cash_out v b e n p u) s"
  have "in_session (andThen (open_operation b Cash_in (generate_internal_reference b ''CIN'' n) p u)
      (\<lambda>t. andThen (catching (on_wire ?m1) (?h1 t)) (note_reference (generate_internal_reference b ''CIN'' n) t))) s = (fst ?in, snd ?in)"
    using True by (simp add: cash_in_def Let_def)
  from operation_outcomeI [where h = ?h1 and g = ?g1, OF this _ assms True]
  have "operation_outcome e Cash_in (generate_internal_reference b ''CIN'' n) p u ?m1 is_jeko_error s (fst ?in) (snd ?in)"
    by (auto split: fault.split)
  moreover have "in_session (andThen (open_operation b Cash_out (generate_internal_reference b ''COUT'' n) p u)
      (\<lambda>t. andThen (catching (on_wire ?m2) (?h2 t)) (note_reference (generate_internal_reference b ''COUT'' n) t))) s = (fst ?out, snd ?out)"
    using True by (simp add: cash_out_def Let_def)
  from operation_outcomeI [where h = ?h2 and g = ?g2, OF this _ assms True]
  have "operation_outcome e Cash_out (generate_internal_reference b ''COUT'' n) p u ?m2 refused_by_jeko s (fst ?out) (snd ?out)"
    by (auto split: fault.split)
  ultimately show ?thesis by (simp add: Let_def split_beta)
qed

text \<open>An agent, the bookkeeping of its operations, and a cash-in of 500.\<close>

definition pending_op :: "pending_operation \<Rightarrow> exchange_row" where
  "pending_op a = sample_transfer\<lparr>x_reference := po_reference a, x_user_id := po_agent_id a, x_type := po_type a,
     x_payin_status := None, x_amount := po_amount a, x_recipient_phone := po_recipient_phone a,
     x_agent_id := Some (po_agent_id a), x_client_id := Some (po_client_id a)\<rparr>"

definition agent_books :: "'w bookkeeping" where
  "agent_books = sample_books
     \<lparr>get_or_create_client := (\<lambda>a p n st. Inr (\<lparr>cl_id = 1, cl_agent_id = a, cl_full_name = n, cl_phone_number = p\<rparr>, st)),
      create_pending_transaction := (\<lambda>a st. if filter (\<lambda>x. x_reference x = po_reference a) (exchanges st) \<noteq> [] then Inl (Wallet_fault 1)
        else Inr (pending_op a, st\<lparr>exchanges := exchanges st @ [pending_op a]\<rparr>))\<rparr>"

lemma agent_books_create: "creates_operation agent_books"
  by (auto simp: creates_operation_def agent_books_def pending_op_def sample_transfer_def rows_of_def split: if_splits)

lemma agent_reference: "generate_internal_reference agent_books p n = p @ ''-'' @ nat_str n"
  by (simp add: agent_books_def sample_books_def)

definition sample_cash :: cash_body where
  "sample_cash = \<lparr>cb_pin_code = ''1234'', cb_client_phone_number = ''0502'', cb_client_full_name = ''Awa'',
     cb_operator = ''WAVE'', cb_amount = Dec 500 0\<rparr>"

theorem cash_operations_witness:
  "\<exists>t. rows_of ''CIN-3'' (saved (snd (in_session (cash_in sample_services agent_books sample_security2 3 sample_cash sample_user2) empty_world))) = [t] \<and>
     x_type t = Cash_in \<and> x_amount t = Dec 500 0 \<and> x_agent_id t = Some 7"
proof -
  let ?run = "in_session (cash_in sample_services agent_books sample_security2 3 sample_cash sample_user2) empty_world"
  have "case fst ?run of Inl f \<Rightarrow> False | Inr a \<Rightarrow> True" by code_simp
  then obtain a s' where run: "?run = (Inr a, s')" by (cases ?run) (auto split: sum.splits)
  have three: "nat_str 3 = ''3''" by code_simp
  from cash_operations [OF agent_books_create, where v = sample_services and e = sample_security2 and n = 3
      and p = sample_cash and u = sample_user2 and s = empty_world, THEN conjunct1] run three
  obtain t q where t: "entered Cash_in ''CIN-3'' sample_cash sample_user2 t"
    "after_answer ''CIN-3'' t is_jeko_error q (Inr a) (saved s')"
    by (auto simp: operation_outcome_def Let_def agent_reference)
  from t(2) obtain i where "rows_of ''CIN-3'' (saved s') = [t\<lparr>x_jeko_reference := i\<rparr>]"
    by (auto simp: after_answer_def split: sum.splits)
  with t(1) run show ?thesis by (simp add: entered_def sample_cash_def sample_user2_def)
qed

text \<open>A cash-in can be paid and called failed. When JEKO's answers do not arrive in time, JEKO has
  got three orders to send the money, and the operation is FAILED for good in the database and
  for the agent.\<close>

theorem cash_in_sent_and_failed:
  "let (r, s) = in_session (cash_in slow_services agent_books sample_security2 3 sample_cash sample_user2) empty_world
   in r = Inl (Http_error 400 UNAVAILABLE) \<and> map x_status (rows_of ''CIN-3'' (saved s)) = [Leg_failed] \<and>
      map rq_path (sent (wire_of s)) = replicate 3 ''/partner_api/transfers'' \<and> server (wire_of s) = 3"
  by code_simp

section \<open>The report of JEKO\<close>

lemma payout_operation_cases:
  assumes "handle_payout_webhook v t st s = (Inr u, s')" "rows_of ref (current2 s) = [t]" "x_reference t = ref"
    and "x_type t \<in> {Cash_in, Cash_out}" "x_payout_status t \<notin> set TERMINAL_LEG_STATUSES"
  obtains (praised) t' where "st = Leg_success" "rows_of ref (current2 s') = [t']" "x_status t' = Leg_success"
      "wallets2 (current2 s') = wallets2 (current2 s)"
  | (credited) t' w ws where "st \<noteq> Leg_success" "rows_of ref (current2 s') = [t']" "x_status t' = Leg_failed"
      "get_wallet_for_update v (x_user_id t) (wallets2 (current2 s)) = Inr w"
      "credit_wallet v w (x_amount t) (wallets2 (current2 s)) = Inr ws" "wallets2 (current2 s') = ws"
proof -
  let ?t = "t\<lparr>x_payout_status := Some st\<rparr>"
  let ?s = "s\<lparr>current2 := put_exchange ?t (current2 s)\<rparr>"
  have rows: "rows_of ref (current2 ?s) = [?t]" using assms(2,3) by (simp add: rows_of_put)
  show ?thesis
  proof (cases "st = Leg_success")
    case True
    with assms(1,5) obtain al where "andThen (save (?t\<lparr>x_status := Leg_success\<rparr>)) (\<lambda>_. tell v ?t al) ?s = (Inr u, s')"
      by (auto simp: handle_payout_webhook_def Let_def eff_runs)
    then show ?thesis
      using rows_of_put [OF rows, of "?t\<lparr>x_status := Leg_success\<rparr>"] assms(3) True
      by (auto simp: eff_runs elim!: tell_Inr intro!: praised)
  next
    case False
    let ?t' = "?t\<lparr>x_status := Leg_failed\<rparr>"
    from False assms(1,4,5) obtain w ws where *: "get_wallet_for_update v (x_user_id t) (wallets2 (current2 s)) = Inr w"
        "credit_wallet v w (x_amount t) (wallets2 (current2 s)) = Inr ws"
        "tell v ?t (Retrait_echoue (x_amount t)) (?s\<lparr>current2 := (put_exchange ?t' (current2 ?s))\<lparr>wallets2 := ws\<rparr>\<rparr>) = (Inr u, s')"
      by (auto simp: handle_payout_webhook_def Let_def eff_runs)
    with rows_of_put [OF rows, of ?t'] assms(3) False show ?thesis
      by (auto elim!: tell_Inr intro!: credited [of ?t' w ws])
  qed
qed

text \<open>C31: the webhook takes an agent's operation for a withdrawal. Its reference has no suffix, so that
  the report on a cash-in or a cash-out is taken as one on a pay-out: a success makes it SUCCESS
  without crediting the commission that the agent was promised; a failure credits the wallet of
  the operation's user with its whole amount, which had been debited from nobody.\<close>

theorem agent_report_misread:
  assumes "process_new_event v d s = (Inr x, s')" "ev_reference d = Some ref" "rows_of ref (current2 s) = [t]"
    and "\<not> ends_with ''-IN'' ref" "\<not> ends_with ''-OUT'' ref"
    and "x_type t \<in> {Cash_in, Cash_out}" "x_payout_status t \<notin> set TERMINAL_LEG_STATUSES"
  shows "\<exists>t'. rows_of ref (current2 s') = [t'] \<and>
    (if lower (ev_status d) = ''success''
     then x_status t' = Leg_success \<and> wallets2 (current2 s') = wallets2 (current2 s)
     else x_status t' = Leg_failed \<and> (\<exists>w. get_wallet_for_update v (x_user_id t) (wallets2 (current2 s)) = Inr w \<and>
       credit_wallet v w (x_amount t) (wallets2 (current2 s)) = Inr (wallets2 (current2 s'))))"
proof -
  have split: "split_reference ref = (ref, ''OUT'')" using assms(4,5) by (simp add: split_reference_def)
  let ?st = "if lower (ev_status d) = ''success'' then Leg_success else Leg_failed"
  from process_new_event_Inr [OF assms(1)] assms(2) split
  have x: "rows_of ref (current2 s) = [x]" "handle_event v x (event_of d ''OUT'') s = (Inr (), s')" by auto
  have h: "handle_payout_webhook v t ?st s = (Inr (), s')"
    using x assms(3) by (simp add: event_of_def handle_event_def Let_def)
  have "t \<in> set (rows_of ref (current2 s))" using assms(3) by simp
  then have ref: "x_reference t = ref" by (simp add: rows_of_def)
  from h assms(3) ref assms(6,7) show ?thesis
    by (cases rule: payout_operation_cases) (auto split: if_splits)
qed

text \<open>A failed cash-out: the agent's user is credited 500 that nobody paid.\<close>

definition failed_cash_out :: jeko_event where
  "failed_cash_out = \<lparr>ev_id = ''ev-1'', ev_status = ''error'', ev_reference = Some ''COUT-3''\<rparr>"

theorem agent_report_misread_witness:
  "wallets2 (current2 (snd (process_new_event sample_services failed_cash_out
     (snd (in_session (cash_out sample_services agent_books sample_security2 3 sample_cash sample_user2) empty_world))))) = [(7, Dec 500 0)]"
proof -
  define s where "s = snd (in_session (cash_out sample_services agent_books sample_security2 3 sample_cash sample_user2) empty_world)"
  define t where "t = hd (rows_of ''COUT-3'' (current2 s))"
  have "case fst (process_new_event sample_services failed_cash_out s) of Inl f \<Rightarrow> False | Inr x \<Rightarrow> True"
    unfolding s_def by code_simp
  then obtain x s' where run: "process_new_event sample_services failed_cash_out s = (Inr x, s')"
    by (cases "process_new_event sample_services failed_cash_out s") (auto split: sum.splits)
  have "length (rows_of ''COUT-3'' (current2 s)) = 1" unfolding s_def by code_simp
  then have row: "rows_of ''COUT-3'' (current2 s) = [t]" unfolding t_def by (cases "rows_of ''COUT-3'' (current2 s)") auto
  have t: "x_type t = Cash_out" "x_payout_status t = None" "x_amount t = Dec 500 0" "x_user_id t = 7" "wallets2 (current2 s) = []"
    unfolding t_def s_def by code_simp+
  have sfx: "ends_with ''-IN'' ''COUT-3'' = False" "ends_with ''-OUT'' ''COUT-3'' = False" "(lower ''error'' = ''success'') = False"
    by code_simp+
  from agent_report_misread [OF run, of "''COUT-3''" t] row t sfx
  have "wallets2 (current2 s') = [(7, Dec 500 0)]"
    by (auto simp add: failed_cash_out_def sample_services_def TERMINAL_LEG_STATUSES_def)
  with run show ?thesis by (simp flip: s_def)
qed

end
