(* ===== verification/Otp.thy ===== *)
theory Otp
  imports Effects Redis
begin

text \<open>
  \<open>app/services/otp_service.py\<close>: one-time codes in Redis. The SMS provider is a parameter (what a
  \<open>send\<close> comes to), the random number an argument. The lemmas follow a code from its sending to
  its use: at most five guesses, one use, no second code within a minute.
\<close>

definition OTP_TTL_SECONDS :: nat where "OTP_TTL_SECONDS = 300"
definition OTP_MAX_ATTEMPTS :: nat where "OTP_MAX_ATTEMPTS = 5"
definition RESEND_COOLDOWN_SECONDS :: nat where "RESEND_COOLDOWN_SECONDS = 60"

datatype otp_fault =
    Otp_rate_limited
  | Otp_delivery_failed
  | Too_many_attempts
  | Code_expired
  | Code_wrong
  | Sms_crash

datatype sms_result = Sms_sent | Sms_refused | Sms_crashed

record otp_state =
  otp_redis :: redis
  otp_now :: nat
  otp_sent :: "(string \<times> string) list"

type_synonym 'a otp = "(otp_state, otp_fault, 'a) eff"

definition otp_key :: "string \<Rightarrow> string" where "otp_key phone_number = ''otp:code:'' @ phone_number"
definition cooldown_key :: "string \<Rightarrow> string" where "cooldown_key phone_number = ''otp:cooldown:'' @ phone_number"
definition attempts_key :: "string \<Rightarrow> string" where "attempts_key phone_number = ''otp:attempts:'' @ phone_number"

definition on_redis :: "(nat \<Rightarrow> redis \<Rightarrow> redis) \<Rightarrow> unit otp" where
  "on_redis f = modify (\<lambda>s. s\<lparr>otp_redis := f (otp_now s) (otp_redis s)\<rparr>)"

definition get_key :: "string \<Rightarrow> string option otp" where
  "get_key k = gets (\<lambda>s. redis_get (otp_now s) k (otp_redis s))"

text \<open>\<open>f"{n:06d}"\<close>.\<close>

definition six_digits :: "nat \<Rightarrow> string" where
  "six_digits n = (let d = nat_str n in replicate (6 - length d) CHR ''0'' @ d)"

definition otp_message :: "string \<Rightarrow> string" where
  "otp_message code = ''Ayak'' @ [CHR 0x27] @ ''bine : votre code de v'' @ [CHR 0xE9] @ ''rification est '' @ code @
     ''. Valable 5 minutes. Ne le partagez avec personne.''"

definition generate_and_send_otp :: "(string \<Rightarrow> string \<Rightarrow> sms_result) \<Rightarrow> nat \<Rightarrow> string \<Rightarrow> unit otp" where
  "generate_and_send_otp send_sms random phone_number =
     andThen (get_key (cooldown_key phone_number)) (\<lambda>cooldown.
     if (case cooldown of None \<Rightarrow> False | Some v \<Rightarrow> v \<noteq> []) then raise Otp_rate_limited
     else
       let code = six_digits random in
       andThen (case send_sms phone_number (otp_message code) of
                  Sms_sent \<Rightarrow> modify (\<lambda>s. s\<lparr>otp_sent := otp_sent s @ [(phone_number, code)]\<rparr>)
                | Sms_refused \<Rightarrow> raise Otp_delivery_failed
                | Sms_crashed \<Rightarrow> raise Sms_crash) (\<lambda>_.
       andThen (on_redis (\<lambda>now. redis_set now (otp_key phone_number) code (Some OTP_TTL_SECONDS))) (\<lambda>_.
       andThen (on_redis (\<lambda>now. redis_set now (cooldown_key phone_number) ''1'' (Some RESEND_COOLDOWN_SECONDS))) (\<lambda>_.
       on_redis (\<lambda>now. redis_delete (attempts_key phone_number))))))"

definition verify_otp :: "string \<Rightarrow> string \<Rightarrow> bool otp" where
  "verify_otp phone_number submitted_code =
     andThen (get_key (attempts_key phone_number)) (\<lambda>a.
     let attempts = (case a of None \<Rightarrow> 0 | Some v \<Rightarrow> if v = [] then 0 else digits_val v) in
     if OTP_MAX_ATTEMPTS \<le> attempts then raise Too_many_attempts
     else
       andThen (get_key (otp_key phone_number)) (\<lambda>stored.
       case stored of
         None \<Rightarrow> raise Code_expired
       | Some stored_code \<Rightarrow>
           if stored_code \<noteq> submitted_code then
             andThen (on_redis (\<lambda>now. redis_incr now (attempts_key phone_number))) (\<lambda>_.
             andThen (on_redis (\<lambda>now. redis_expire now (attempts_key phone_number) OTP_TTL_SECONDS)) (\<lambda>_.
             raise Code_wrong))
           else
             andThen (on_redis (\<lambda>now. redis_delete (otp_key phone_number))) (\<lambda>_.
             andThen (on_redis (\<lambda>now. redis_delete (attempts_key phone_number))) (\<lambda>_.
             return True))))"

lemma keys_differ [simp]:
  "otp_key p \<noteq> cooldown_key q" "otp_key p \<noteq> attempts_key q" "cooldown_key p \<noteq> attempts_key q"
  "cooldown_key p \<noteq> otp_key q" "attempts_key p \<noteq> otp_key q" "attempts_key p \<noteq> cooldown_key q"
  by (simp_all add: otp_key_def cooldown_key_def attempts_key_def)

section \<open>Sending\<close>

text \<open>The number of counted guesses and the stored code, as \<open>verify_otp\<close> sees them at a time.\<close>

definition guesses :: "string \<Rightarrow> nat \<Rightarrow> otp_state \<Rightarrow> nat" where
  "guesses p t s = (case redis_get t (attempts_key p) (otp_redis s) of None \<Rightarrow> 0 | Some v \<Rightarrow> if v = [] then 0 else digits_val v)"

definition stored :: "string \<Rightarrow> nat \<Rightarrow> otp_state \<Rightarrow> string option" where
  "stored p t s = redis_get t (otp_key p) (otp_redis s)"

lemma verify_otp_run:
  "verify_otp p c s =
     (if OTP_MAX_ATTEMPTS \<le> guesses p (otp_now s) s then (Inl Too_many_attempts, s)
      else case stored p (otp_now s) s of
        None \<Rightarrow> (Inl Code_expired, s)
      | Some c' \<Rightarrow>
          if c' \<noteq> c then (Inl Code_wrong, s\<lparr>otp_redis := redis_expire (otp_now s) (attempts_key p) OTP_TTL_SECONDS
               (redis_incr (otp_now s) (attempts_key p) (otp_redis s))\<rparr>)
          else (Inr True, s\<lparr>otp_redis := redis_delete (attempts_key p) (redis_delete (otp_key p) (otp_redis s))\<rparr>))"
  by (simp add: verify_otp_def guesses_def stored_def get_key_def on_redis_def andThen_def gets_def modify_def raise_def
      return_def Let_def split: option.splits)

lemma generate_Inr:
  assumes "generate_and_send_otp send n p s = (Inr (), s')"
  shows "otp_now s' = otp_now s" "stored p t s' = (if t < otp_now s + 300 then Some (six_digits n) else None)"
    "guesses p t s' = 0" "redis_get t (cooldown_key p) (otp_redis s') = (if t < otp_now s + 60 then Some ''1'' else None)"
  using assms
  by (auto simp: generate_and_send_otp_def get_key_def on_redis_def andThen_def gets_def modify_def raise_def Let_def
      stored_def guesses_def redis.get_put redis.get_del OTP_TTL_SECONDS_def RESEND_COOLDOWN_SECONDS_def
      split: option.splits if_splits sms_result.splits)

section \<open>Guessing\<close>

lemma guesses_after_wrong:
  assumes "otp_now s \<le> t" "t < otp_now s + 300"
  shows "guesses p t (s\<lparr>otp_redis := redis_expire (otp_now s) (attempts_key p) OTP_TTL_SECONDS
      (redis_incr (otp_now s) (attempts_key p) (otp_redis s))\<rparr>) = Suc (guesses p (otp_now s) s)"
proof -
  have "digits_val [] = 0" by (simp add: digits_val_def)
  with assms show ?thesis
    by (auto simp: guesses_def redis_get_expire redis_get_incr OTP_TTL_SECONDS_def split: option.splits)
qed

lemma stored_after_wrong:
  "stored p t (s\<lparr>otp_redis := redis_expire n (attempts_key p) d (redis_incr n (attempts_key p) (otp_redis s))\<rparr>) = stored p t s"
  by (simp add: stored_def redis_get_expire redis_incr_other)

text \<open>Attempts at given times.\<close>

fun tries :: "string \<Rightarrow> (nat \<times> string) list \<Rightarrow> otp_state \<Rightarrow> otp_state" where
  "tries p [] s = s"
| "tries p ((t, c) # xs) s = tries p xs (snd (verify_otp p c (s\<lparr>otp_now := t\<rparr>)))"

fun in_order :: "nat \<Rightarrow> (nat \<times> string) list \<Rightarrow> bool" where
  "in_order now [] = True"
| "in_order now ((t, c) # xs) = (now \<le> t \<and> in_order t xs)"

definition last_time :: "nat \<Rightarrow> (nat \<times> string) list \<Rightarrow> nat" where
  "last_time now xs = (if xs = [] then now else fst (last xs))"

text \<open>A wrong guess before the code expires is counted, and the count outlives the code.\<close>

definition counted :: "string \<Rightarrow> string \<Rightarrow> nat \<Rightarrow> nat \<Rightarrow> otp_state \<Rightarrow> bool" where
  "counted p code expiry k s \<longleftrightarrow> expiry \<le> otp_now s + 300 \<and>
     (\<forall>t. stored p t s = (if t < expiry then Some code else None)) \<and>
     (\<exists>g. min OTP_MAX_ATTEMPTS k \<le> g \<and> (\<forall>t. otp_now s \<le> t \<longrightarrow> t < expiry \<longrightarrow> guesses p t s = g))"

lemma counted_later: "counted p code x k s \<Longrightarrow> otp_now s \<le> t \<Longrightarrow> counted p code x k (s\<lparr>otp_now := t\<rparr>)"
  by (fastforce simp: counted_def stored_def guesses_def)

lemma counted_wrong:
  assumes "counted p code x k s" "c \<noteq> code"
  shows "counted p code x (Suc k) (snd (verify_otp p c s))" "otp_now (snd (verify_otp p c s)) = otp_now s"
proof -
  from assms(1) obtain g where g: "min OTP_MAX_ATTEMPTS k \<le> g" "\<And>t. otp_now s \<le> t \<Longrightarrow> t < x \<Longrightarrow> guesses p t s = g"
    and st: "\<And>t. stored p t s = (if t < x then Some code else None)" and x: "x \<le> otp_now s + 300"
    by (auto simp: counted_def)
  show "otp_now (snd (verify_otp p c s)) = otp_now s"
    using assms(2) by (simp add: verify_otp_run split: option.splits)
  show "counted p code x (Suc k) (snd (verify_otp p c s))"
  proof (cases "otp_now s < x")
    case False
    with st have "snd (verify_otp p c s) = s" by (simp add: verify_otp_run)
    with False st x show ?thesis by (auto simp: counted_def intro!: exI [of _ "OTP_MAX_ATTEMPTS"])
  next
    case True
    then have now: "guesses p (otp_now s) s = g" using g(2) by simp
    show ?thesis
    proof (cases "OTP_MAX_ATTEMPTS \<le> g")
      case True
      with now have "snd (verify_otp p c s) = s" by (simp add: verify_otp_run)
      with True g st x show ?thesis by (auto simp: counted_def intro!: exI [of _ g])
    next
      case False
      let ?s = "s\<lparr>otp_redis := redis_expire (otp_now s) (attempts_key p) OTP_TTL_SECONDS
        (redis_incr (otp_now s) (attempts_key p) (otp_redis s))\<rparr>"
      from False now st True assms(2) have s': "snd (verify_otp p c s) = ?s" by (simp add: verify_otp_run)
      have "guesses p t ?s = Suc g" if "otp_now s \<le> t" "t < x" for t
        using guesses_after_wrong [of s t p] that x now by simp
      then show ?thesis
        unfolding s' using g(1) st x by (auto simp: counted_def stored_after_wrong intro!: exI [of _ "Suc g"])
    qed
  qed
qed

lemma counted_tries:
  assumes "counted p code x k s" "in_order (otp_now s) xs" "list_all (\<lambda>(t, c). c \<noteq> code) xs"
  shows "counted p code x (k + length xs) (tries p xs s) \<and> otp_now (tries p xs s) = last_time (otp_now s) xs"
  using assms
proof (induction p xs s arbitrary: k rule: tries.induct)
  case (2 p t c xs s)
  let ?s = "snd (verify_otp p c (s\<lparr>otp_now := t\<rparr>))"
  have "counted p code x k (s\<lparr>otp_now := t\<rparr>)" using 2(2,3) by (intro counted_later) simp_all
  from counted_wrong [OF this, of c] 2(4) have "counted p code x (Suc k) ?s" "otp_now ?s = t" by simp_all
  with 2(1) [of "Suc k"] 2(3,4) show ?case by (simp add: last_time_def)
qed (simp add: last_time_def)


definition otp_start :: otp_state where
  "otp_start = \<lparr>otp_redis = (\<lambda>_. None), otp_now = 1000, otp_sent = []\<rparr>"


text \<open>A code is used at most once, and within a minute no second one is sent.\<close>

lemma otp_used_up: "verify_otp p c s = (Inr b, s') \<Longrightarrow> fst (verify_otp p c' (s'\<lparr>otp_now := t\<rparr>)) = Inl Code_expired"
  by (auto simp: verify_otp_run stored_def guesses_def redis.get_del OTP_MAX_ATTEMPTS_def split: if_splits option.splits)

lemma otp_cooldown:
  "generate_and_send_otp send n p s = (Inr (), s') \<Longrightarrow> t < otp_now s + 60 \<Longrightarrow>
   generate_and_send_otp send' n' p (s'\<lparr>otp_now := t\<rparr>) = (Inl Otp_rate_limited, s'\<lparr>otp_now := t\<rparr>)"
  using generate_Inr(4) [of send n p s s' t]
  by (simp add: generate_and_send_otp_def get_key_def andThen_def gets_def raise_def)

lemma otp_not_sent: "generate_and_send_otp send n p s = (Inl e, s') \<Longrightarrow> s' = s"
  by (auto simp: generate_and_send_otp_def get_key_def on_redis_def andThen_def gets_def modify_def raise_def Let_def
      split: option.splits if_splits sms_result.splits)

section \<open>Submissions at the same time\<close>

text \<open>\<open>verify_otp\<close> awaits Redis between its commands, so that other requests run in between: first it
  reads the number of attempts and the code, then it acts on what it read.\<close>

definition verify_read :: "string \<Rightarrow> otp_state \<Rightarrow> nat \<times> string option" where
  "verify_read p s = (guesses p (otp_now s) s, stored p (otp_now s) s)"

definition verify_act :: "string \<Rightarrow> string \<Rightarrow> nat \<times> string option \<Rightarrow> bool otp" where
  "verify_act phone_number submitted_code seen =
     (if OTP_MAX_ATTEMPTS \<le> fst seen then raise Too_many_attempts
      else case snd seen of
        None \<Rightarrow> raise Code_expired
      | Some stored_code \<Rightarrow>
          if stored_code \<noteq> submitted_code then
            andThen (on_redis (\<lambda>now. redis_incr now (attempts_key phone_number))) (\<lambda>_.
            andThen (on_redis (\<lambda>now. redis_expire now (attempts_key phone_number) OTP_TTL_SECONDS)) (\<lambda>_.
            raise Code_wrong))
          else
            andThen (on_redis (\<lambda>now. redis_delete (otp_key phone_number))) (\<lambda>_.
            andThen (on_redis (\<lambda>now. redis_delete (attempts_key phone_number))) (\<lambda>_.
            return True)))"

lemma verify_otp_steps: "verify_otp p c s = verify_act p c (verify_read p s) s"
  by (simp add: verify_otp_run verify_act_def verify_read_def on_redis_def eff_defs split: option.splits)

text \<open>Requests that have all read act one after the other.\<close>

fun act_all :: "string \<Rightarrow> (nat \<times> string option) \<Rightarrow> string list \<Rightarrow> otp_state \<Rightarrow> (otp_fault + bool) list" where
  "act_all p seen [] s = []"
| "act_all p seen (c # cs) s = (let (r, s') = verify_act p c seen s in r # act_all p seen cs s')"

text \<open>C32: the limit of five guesses does not hold for submissions at the same time. If any number of
  submissions read before the first of them acts, each of them is checked against the code, and
  every right one is accepted: trying all codes at once finds it.\<close>

theorem otp_guesses_at_once:
  assumes "generate_and_send_otp send n p s = (Inr (), s0)"
  shows "act_all p (verify_read p s0) codes s1 = map (\<lambda>c. if c = six_digits n then Inr True else Inl Code_wrong) codes"
proof -
  have seen: "verify_read p s0 = (0, Some (six_digits n))"
    using generate_Inr [OF assms] by (simp add: verify_read_def)
  show ?thesis
    unfolding seen
    by (induction codes arbitrary: s1)
       (simp_all add: verify_act_def OTP_MAX_ATTEMPTS_def on_redis_def eff_defs)
qed

theorem otp_guesses_at_once_witness:
  "last (act_all ''07'' (verify_read ''07'' (snd (generate_and_send_otp (\<lambda>p m. Sms_sent) 42 ''07'' otp_start)))
     (replicate 9 ''000000'' @ [''000042'']) (snd (generate_and_send_otp (\<lambda>p m. Sms_sent) 42 ''07'' otp_start))) = Inr True"
proof -
  let ?run = "generate_and_send_otp (\<lambda>p m. Sms_sent) 42 ''07'' otp_start"
  have "fst ?run = Inr ()" by code_simp
  then have run: "?run = (Inr (), snd ?run)" by (simp add: prod_eq_iff)
  have "six_digits 42 = ''000042''" by code_simp
  with otp_guesses_at_once [OF run] show ?thesis by simp
qed

end
