(* ===== verification/Sms.thy ===== *)
theory Sms
  imports Otp Jeko
begin

text \<open>
  \<open>app/services/sms\<close>: the providers of text messages, console, Twilio and Orange, and the choice
  between them. The servers behind them are a parameter; what is sent is logged. Orange wants a
  token, which the provider keeps until shortly before it expires.
\<close>

section \<open>The wire\<close>

datatype sms_http =
    Connect_error | Read_timeout | Write_timeout | Connect_timeout
  | Httpx_failure
  | Sms_answer nat http_content

datatype sms_request =
    Token_request
  | Orange_message (om_url: string) (om_token: json) (om_recipient: string) (om_sender: string) (om_sender_name: string) (om_text: string)
  | Twilio_message string string string
  | Console_line string string

datatype sms_reason = Authentication_refused nat | Message_refused nat | Provider_unavailable

datatype sms_fault =
    Send_failed sms_reason          \<comment> \<open>\<open>SmsSendError\<close>\<close>
  | Provider_network                \<comment> \<open>\<open>_OrangeNetworkError\<close>, \<open>_TwilioNetworkError\<close>\<close>
  | Httpx_exception
  | Bad_json
  | Bad_shape                       \<comment> \<open>KeyError, TypeError or ValueError on an answer\<close>

record 'n sms_world =
  sms_server :: 'n
  sms_log :: "sms_request list"
  access_token :: json
  token_expires_at :: int
  monotonic :: int

record 'n sms_env =
  sender_address :: string
  sender_name :: string
  quote_url :: "string \<Rightarrow> string"
  int_of_json :: "json \<Rightarrow> int option"
  sms_post :: "sms_request \<Rightarrow> 'n \<Rightarrow> sms_http \<times> 'n"

type_synonym ('n, 'a) sms = "('n sms_world, sms_fault, 'a) eff"

definition post_sms :: "'n sms_env \<Rightarrow> sms_request \<Rightarrow> ('n, sms_http) sms" where
  "post_sms k q s = (let (a, n) = sms_post k q (sms_server s) in (Inr a, s\<lparr>sms_server := n, sms_log := sms_log s @ [q]\<rparr>))"

text \<open>\<open>response.json() if response.content else {}\<close>\<close>

definition read_payload :: "http_content \<Rightarrow> ('n, unit) sms" where
  "read_payload c = check (c \<noteq> Not_json) Bad_json"

section \<open>Orange\<close>

definition TOKEN_SAFETY_MARGIN_SECONDS :: int where "TOKEN_SAFETY_MARGIN_SECONDS = 30"

definition keep_token :: "'n sms_env \<Rightarrow> (string \<times> json) list \<Rightarrow> ('n, json) sms" where
  "keep_token k data =
     (case jget data ''access_token'' of
        None \<Rightarrow> raise Bad_shape
      | Some token \<Rightarrow>
          andThen (modify (\<lambda>s. s\<lparr>access_token := token\<rparr>)) (\<lambda>_.
          andThen (value_or Bad_shape (case jget data ''expires_in'' of None \<Rightarrow> Some 3600 | Some x \<Rightarrow> int_of_json k x)) (\<lambda>seconds.
          andThen (modify (\<lambda>s. s\<lparr>token_expires_at := monotonic s + seconds - TOKEN_SAFETY_MARGIN_SECONDS\<rparr>)) (\<lambda>_.
          return token))))"

definition get_access_token :: "'n sms_env \<Rightarrow> ('n, json) sms" where
  "get_access_token k =
     andThen (gets (\<lambda>s. (access_token s, monotonic s < token_expires_at s))) (\<lambda>(token, valid).
     if truthy token \<and> valid then return token
     else
       andThen (post_sms k Token_request) (\<lambda>response.
       case response of
         Sms_answer code content \<Rightarrow>
           if 400 \<le> code then andThen (read_payload content) (\<lambda>_. raise (Send_failed (Authentication_refused code)))
           else
             (case content of
                Content (JObj data) \<Rightarrow> keep_token k data
              | Content _ \<Rightarrow> raise Bad_shape
              | _ \<Rightarrow> raise Bad_json)
       | Write_timeout \<Rightarrow> raise Httpx_exception
       | Httpx_failure \<Rightarrow> raise Httpx_exception
       | _ \<Rightarrow> raise Provider_network))"

definition orange_message :: "'n sms_env \<Rightarrow> string \<Rightarrow> string \<Rightarrow> json \<Rightarrow> sms_request" where
  "orange_message k phone_number message token =
     Orange_message (''/smsmessaging/v1/outbound/'' @ quote_url k (sender_address k) @ ''/requests'') token
       (if starts_with ''tel:'' phone_number then phone_number else ''tel:'' @ phone_number)
       (sender_address k) (sender_name k) message"

definition orange_send_once :: "'n sms_env \<Rightarrow> string \<Rightarrow> string \<Rightarrow> ('n, unit) sms" where
  "orange_send_once k phone_number message =
     andThen (get_access_token k) (\<lambda>token.
     andThen (post_sms k (orange_message k phone_number message token)) (\<lambda>response.
     case response of
       Httpx_failure \<Rightarrow> raise Httpx_exception
     | Sms_answer code content \<Rightarrow>
         if 500 \<le> code then raise Provider_network
         else if 400 \<le> code then
           andThen (read_payload content) (\<lambda>_.
           andThen (if code = 401 then modify (\<lambda>s. s\<lparr>access_token := JNull\<rparr>) else return ()) (\<lambda>_.
           raise (Send_failed (Message_refused code))))
         else return ()
     | _ \<Rightarrow> raise Provider_network))"

definition hide_network :: "('n, unit) sms \<Rightarrow> ('n, unit) sms" where
  "hide_network m = catching m (\<lambda>e. if e = Provider_network then raise (Send_failed Provider_unavailable) else raise e)"

definition orange_send :: "'n sms_env \<Rightarrow> string \<Rightarrow> string \<Rightarrow> ('n, unit) sms" where
  "orange_send k phone_number message =
     hide_network (retrying 2 (\<lambda>e. e = Provider_network) (orange_send_once k phone_number message))"

section \<open>Twilio and the console\<close>

definition twilio_send_once :: "'n sms_env \<Rightarrow> string \<Rightarrow> string \<Rightarrow> ('n, unit) sms" where
  "twilio_send_once k phone_number message =
     andThen (post_sms k (Twilio_message phone_number (sender_address k) message)) (\<lambda>response.
     case response of
       Httpx_failure \<Rightarrow> raise Httpx_exception
     | Sms_answer code content \<Rightarrow>
         if 500 \<le> code then raise Provider_network
         else if 400 \<le> code then
           andThen (read_payload content) (\<lambda>_. raise (Send_failed (Message_refused code)))
         else return ()
     | _ \<Rightarrow> raise Provider_network)"

definition twilio_send :: "'n sms_env \<Rightarrow> string \<Rightarrow> string \<Rightarrow> ('n, unit) sms" where
  "twilio_send k phone_number message =
     hide_network (retrying 2 (\<lambda>e. e = Provider_network) (twilio_send_once k phone_number message))"

definition console_send :: "string \<Rightarrow> string \<Rightarrow> ('n, unit) sms" where
  "console_send phone_number message = modify (\<lambda>s. s\<lparr>sms_log := sms_log s @ [Console_line phone_number message]\<rparr>)"

section \<open>The choice\<close>

datatype sms_provider = Twilio_provider | Orange_provider | Console_provider

record sms_settings =
  ss_provider :: string
  ss_twilio :: "string \<times> string \<times> string"
  ss_orange :: "string \<times> string \<times> string"

definition all_given :: "string \<times> string \<times> string \<Rightarrow> bool" where
  "all_given x = (case x of (a, b, c) \<Rightarrow> a \<noteq> [] \<and> b \<noteq> [] \<and> c \<noteq> [])"

text \<open>The provider kept from an earlier call, or a new one; \<open>None\<close> is a \<open>RuntimeError\<close>, after which
  none is kept.\<close>

definition get_sms_provider :: "sms_settings \<Rightarrow> sms_provider option \<Rightarrow> sms_provider option" where
  "get_sms_provider st kept =
     (case kept of
        Some p \<Rightarrow> Some p
      | None \<Rightarrow>
          (let provider_name = lower (ss_provider st) in
           if provider_name = ''twilio'' then (if all_given (ss_twilio st) then Some Twilio_provider else None)
           else if provider_name = ''orange'' then (if all_given (ss_orange st) then Some Orange_provider else None)
           else if provider_name = ''console'' then Some Console_provider
           else None))"

definition provider_send :: "'n sms_env \<Rightarrow> sms_provider \<Rightarrow> string \<Rightarrow> string \<Rightarrow> ('n, unit) sms" where
  "provider_send k p =
     (case p of Twilio_provider \<Rightarrow> twilio_send k | Orange_provider \<Rightarrow> orange_send k | Console_provider \<Rightarrow> console_send)"

text \<open>What \<open>otp_service\<close> sees of a provider in some state.\<close>

definition sms_outcome :: "sms_fault + unit \<Rightarrow> sms_result" where
  "sms_outcome r =
     (case r of Inr u \<Rightarrow> Sms_sent | Inl (Send_failed why) \<Rightarrow> Sms_refused | Inl _ \<Rightarrow> Sms_crashed)"

definition sends_by :: "'n sms_env \<Rightarrow> sms_provider \<Rightarrow> 'n sms_world \<Rightarrow> string \<Rightarrow> string \<Rightarrow> sms_result" where
  "sends_by k p w phone_number message = sms_outcome (fst (provider_send k p phone_number message w))"

section \<open>What an attempt sends\<close>

lemma keep_token_log: "keep_token k d s = (r, s') \<Longrightarrow> sms_log s' = sms_log s"
  by (auto simp: keep_token_def eff_defs split: option.splits)

lemma get_access_token_log:
  assumes "get_access_token k s = (r, s')"
  shows "sms_log s' = sms_log s \<or> sms_log s' = sms_log s @ [Token_request]"
proof (cases "truthy (access_token s) \<and> monotonic s < token_expires_at s")
  case True
  with assms show ?thesis by (auto simp: get_access_token_def andThen_def gets_def return_def)
next
  case False
  obtain a n where p: "sms_post k Token_request (sms_server s) = (a, n)" by fastforce
  let ?s = "s\<lparr>sms_server := n, sms_log := sms_log s @ [Token_request]\<rparr>"
  have "sms_log s' = sms_log ?s"
    using assms False p
    by (auto simp: get_access_token_def post_sms_def read_payload_def check_def andThen_def gets_def return_def raise_def
        split: sms_http.splits http_content.splits json.splits if_splits dest: keep_token_log)
  then show ?thesis by simp
qed

text \<open>At most \<open>n\<close> requests for a token and \<open>n\<close> messages, all of them the one that was to be sent.\<close>

definition sent_within :: "nat \<Rightarrow> 'n sms_env \<Rightarrow> string \<Rightarrow> string \<Rightarrow> sms_request list \<Rightarrow> bool" where
  "sent_within n k phone msg l \<longleftrightarrow>
     length (filter (\<lambda>q. q = Token_request) l) \<le> n \<and> length (filter (\<lambda>q. q \<noteq> Token_request) l) \<le> n \<and>
     (\<forall>q \<in> set l. q = Token_request \<or> (\<exists>token. q = orange_message k phone msg token))"

lemma sent_within_append: "sent_within m k p x a \<Longrightarrow> sent_within n k p x b \<Longrightarrow> sent_within (m + n) k p x (a @ b)"
  by (auto simp: sent_within_def)

lemma sent_within_mono: "sent_within m k p x a \<Longrightarrow> m \<le> n \<Longrightarrow> sent_within n k p x a"
  by (auto simp: sent_within_def)

lemma orange_send_once_log:
  assumes "orange_send_once k phone msg s = (r, s')"
  shows "\<exists>l. sms_log s' = sms_log s @ l \<and> sent_within 1 k phone msg l"
  using assms unfolding orange_send_once_def
proof (cases rule: andThen_cases)
  case (stopped e)
  with get_access_token_log [OF stopped(1)] show ?thesis by (auto simp: sent_within_def)
next
  case (went_on token s1)
  obtain a n where p: "sms_post k (orange_message k phone msg token) (sms_server s1) = (a, n)" by fastforce
  from went_on(2) p have "sms_log s' = sms_log s1 @ [orange_message k phone msg token]"
    by (auto simp: post_sms_def read_payload_def eff_defs split: sms_http.splits if_splits)
  moreover have "orange_message k phone msg token \<noteq> Token_request" by (simp add: orange_message_def)
  ultimately show ?thesis using get_access_token_log [OF went_on(1)] by (auto simp: sent_within_def)
qed

lemma attempts_log:
  assumes "attempts again (orange_send_once k phone msg) n s r s'"
  shows "\<exists>l. sms_log s' = sms_log s @ l \<and> sent_within n k phone msg l"
  using assms
proof (induction rule: attempts.induct)
  case (last s r s')
  then show ?case by (rule orange_send_once_log)
next
  case (more s e s1 n r s')
  from orange_send_once_log [OF more.hyps(1)] more.IH obtain a b where
    "sms_log s1 = sms_log s @ a" "sent_within 1 k phone msg a" "sms_log s' = sms_log s1 @ b" "sent_within n k phone msg b" by blast
  then show ?case using sent_within_append [of 1 k phone msg a n b] by auto
qed

lemma attempts_result: "attempts again m n s r s' \<Longrightarrow> \<exists>s1. m s1 = (r, s')"
  by (induction rule: attempts.induct) auto

text \<open>An attempt that ends well sent a message that Orange took, and one refused for its token drops it.\<close>

lemma get_access_token_errors:
  "get_access_token k s = (Inl e, s') \<Longrightarrow> e \<noteq> Send_failed (Message_refused c)"
  by (auto simp: get_access_token_def keep_token_def post_sms_def read_payload_def eff_defs
      split: prod.splits sms_http.splits http_content.splits json.splits option.splits if_splits)

text \<open>The last post was of the message, and Orange accepted it.\<close>

definition orange_took :: "'n sms_env \<Rightarrow> string \<Rightarrow> string \<Rightarrow> 'n sms_world \<Rightarrow> bool" where
  "orange_took k phone msg s \<longleftrightarrow> (\<exists>token n code c. last (sms_log s) = orange_message k phone msg token \<and>
     sms_post k (orange_message k phone msg token) n = (Sms_answer code c, sms_server s) \<and> code < 400)"

lemma orange_send_once_ends:
  assumes "orange_send_once k phone msg s = (r, s')"
  shows "(r = Inr () \<longrightarrow> orange_took k phone msg s') \<and>
    (r = Inl (Send_failed (Message_refused 401)) \<longrightarrow> access_token s' = JNull)"
  using assms unfolding orange_send_once_def
proof (cases rule: andThen_cases)
  case (stopped e)
  then show ?thesis using get_access_token_errors by fastforce
next
  case (went_on token s1)
  obtain a n where p: "sms_post k (orange_message k phone msg token) (sms_server s1) = (a, n)" by fastforce
  let ?s = "s1\<lparr>sms_server := n, sms_log := sms_log s1 @ [orange_message k phone msg token]\<rparr>"
  from went_on(2) p have run: "(case a of
       Httpx_failure \<Rightarrow> raise Httpx_exception
     | Sms_answer code content \<Rightarrow>
         if 500 \<le> code then raise Provider_network
         else if 400 \<le> code then
           andThen (read_payload content) (\<lambda>_.
           andThen (if code = 401 then modify (\<lambda>s. s\<lparr>access_token := JNull\<rparr>) else return ()) (\<lambda>_.
           raise (Send_failed (Message_refused code))))
         else return ()
     | _ \<Rightarrow> raise Provider_network) ?s = (r, s')"
    by (simp add: post_sms_def andThen_def)
  show ?thesis
  proof (cases a)
    case (Sms_answer code content)
    have took: "orange_took k phone msg ?s" if "code < 400"
      using p Sms_answer that unfolding orange_took_def by fastforce
    consider "500 \<le> code" | "400 \<le> code" "code < 500" | "code < 400" by linarith
    then show ?thesis
      by cases (use run took Sms_answer in \<open>auto simp: read_payload_def eff_defs split: if_splits\<close>)
  qed (use run in \<open>auto simp: raise_def\<close>)
qed

text \<open>A text message costs at most three. Whatever Orange answers, sending one message makes at most
  three requests for a token and three posts, all of that message to that number. The sender never
  sees a failure of the network, only the refusal that \<open>otp_service\<close> expects; it sees success only
  after a post that Orange accepted; and when a post is refused for its token, the token is
  dropped, so that the next message asks for another one.\<close>

theorem orange_send_bounded:
  assumes "orange_send k phone msg s = (r, s')"
  shows "\<exists>l. sms_log s' = sms_log s @ l \<and> sent_within 3 k phone msg l \<and> r \<noteq> Inl Provider_network \<and>
    (r = Inr () \<longrightarrow> orange_took k phone msg s') \<and>
    (r = Inl (Send_failed (Message_refused 401)) \<longrightarrow> access_token s' = JNull)"
proof -
  obtain q s1 where q: "retrying 2 (\<lambda>e. e = Provider_network) (orange_send_once k phone msg) s = (q, s1)" by fastforce
  with assms have r: "s' = s1" "r = (if q = Inl Provider_network then Inl (Send_failed Provider_unavailable) else q)"
    by (auto simp: orange_send_def hide_network_def catching_def raise_def split: sum.splits if_splits)
  from retrying_attempts [OF q] obtain n where n: "n \<le> 3"
    "attempts (\<lambda>e. e = Provider_network) (orange_send_once k phone msg) n s q s1" by auto
  from attempts_log [OF n(2)] n(1) obtain l where l: "sms_log s' = sms_log s @ l" "sent_within 3 k phone msg l"
    using r(1) sent_within_mono by blast
  from attempts_result [OF n(2)] obtain s0 where "orange_send_once k phone msg s0 = (q, s1)" by blast
  from orange_send_once_ends [OF this] r l show ?thesis by (intro exI [of _ l]) simp
qed

text \<open>A token that Orange no longer takes.\<close>

definition stale_token_world :: "nat sms_world" where
  "stale_token_world = \<lparr>sms_server = 0, sms_log = [], access_token = JStr ''old'', token_expires_at = 100, monotonic = 5\<rparr>"

definition strict_orange :: "nat sms_env" where
  "strict_orange = \<lparr>sender_address = ''tel:+225'', sender_name = ''Ayak'', quote_url = (\<lambda>x. x), int_of_json = (\<lambda>x. Some 3600),
     sms_post = (\<lambda>q n. case q of
       Token_request \<Rightarrow> (Sms_answer 200 (Content (JObj [(''access_token'', JStr ''new'')])), Suc n)
     | Orange_message u token rc sa sn t \<Rightarrow> (Sms_answer (if token = JStr ''new'' then 201 else 401) No_content, Suc n)
     | _ \<Rightarrow> (Connect_error, n))\<rparr>"

theorem orange_send_bounded_witness:
  "access_token (snd (orange_send strict_orange ''07'' ''code 1'' stale_token_world)) = JNull \<and>
   fst (orange_send strict_orange ''07'' ''code 2'' (snd (orange_send strict_orange ''07'' ''code 1'' stale_token_world))) = Inr ()"
proof -
  let ?run = "orange_send strict_orange ''07'' ''code 1'' stale_token_world"
  have "fst ?run = Inl (Send_failed (Message_refused 401))" by code_simp
  then have "?run = (Inl (Send_failed (Message_refused 401)), snd ?run)" by (simp add: prod_eq_iff)
  from orange_send_bounded [OF this] have "access_token (snd ?run) = JNull" by blast
  moreover have "fst (orange_send strict_orange ''07'' ''code 2'' (snd ?run)) = Inr ()" by code_simp
  ultimately show ?thesis by blast
qed

text \<open>With any provider, a one-time code that cannot be delivered leaves no trace, so that the client
  may ask for another one at once.\<close>

lemma undelivered_code:
  assumes "sends_by k p w phone (otp_message (six_digits n)) \<noteq> Sms_sent"
    and "redis_get (otp_now s) (cooldown_key phone) (otp_redis s) = None"
  shows "snd (generate_and_send_otp (sends_by k p w) n phone s) = s \<and>
    fst (generate_and_send_otp (sends_by k p w) n phone s) \<in> {Inl Otp_delivery_failed, Inl Sms_crash}"
  using assms by (cases "sends_by k p w phone (otp_message (six_digits n))")
    (simp_all add: generate_and_send_otp_def get_key_def eff_defs Let_def)

end
