(* ===== verification/Clients.thy ===== *)
theory Clients
  imports Config Jeko Sms
begin

text \<open>
  The construction of the outside clients from the settings: \<open>_headers\<close>, \<open>JekoClient.__init__\<close> and
  \<open>get_jeko_client\<close> of \<open>app/services/jeko_client.py\<close>, the constructors of the SMS providers and the
  one provider of \<open>app/services/sms/factory.py\<close>. The settings object is what its attributes are, texts
  and numbers; \<open>attributes_of\<close> has those of the class of \<open>app/config.py\<close>. An \<open>httpx.AsyncClient\<close> is
  what it is constructed with.
\<close>

record attributes =
  texts :: "string \<rightharpoonup> string"
  numbers :: "string \<rightharpoonup> int"

datatype construction_error = No_attribute string | Settings_missing | Unknown_provider string

definition text_attr :: "attributes \<Rightarrow> string \<Rightarrow> construction_error + string" where
  "text_attr a name = (case texts a name of None \<Rightarrow> Inl (No_attribute name) | Some x \<Rightarrow> Inr x)"

definition number_attr :: "attributes \<Rightarrow> string \<Rightarrow> construction_error + int" where
  "number_attr a name = (case numbers a name of None \<Rightarrow> Inl (No_attribute name) | Some x \<Rightarrow> Inr x)"

record http_client =
  base_url :: string
  default_headers :: "(string \<times> string) list"
  basic :: "(string \<times> string) option"
  timeout_seconds :: int

section \<open>JEKO\<close>

definition jeko_headers :: "attributes \<Rightarrow> construction_error + (string \<times> string) list" where
  "jeko_headers a =
     bindE (text_attr a ''jeko_api_key'') (\<lambda>key.
     bindE (text_attr a ''jeko_api_key_id'') (\<lambda>key_id.
     Inr [(''X-API-KEY'', key), (''X-API-KEY-ID'', key_id), (''Content-Type'', ''application/json''),
          (''Accept'', ''application/json'')]))"

definition new_jeko_client :: "attributes \<Rightarrow> construction_error + http_client" where
  "new_jeko_client a =
     bindE (text_attr a ''jeko_base_url'') (\<lambda>url.
     bindE (jeko_headers a) (\<lambda>headers.
     bindE (number_attr a ''jeko_timeout_seconds'') (\<lambda>t.
     Inr \<lparr>base_url = url, default_headers = headers, basic = None, timeout_seconds = t\<rparr>)))"

text \<open>The global \<open>_jeko_client\<close> is the last argument and, afterwards, the second component.\<close>

definition get_jeko_client :: "attributes \<Rightarrow> http_client option \<Rightarrow> (construction_error + http_client) \<times> http_client option" where
  "get_jeko_client a kept =
     (case kept of
        Some c \<Rightarrow> (Inr c, kept)
      | None \<Rightarrow> (case new_jeko_client a of Inl e \<Rightarrow> (Inl e, None) | Inr c \<Rightarrow> (Inr c, Some c)))"

section \<open>SMS providers\<close>

datatype sms_client =
    Console_client
  | Twilio_client string http_client                        \<comment> \<open>the sender's number\<close>
  | Orange_client string string http_client json int        \<comment> \<open>sender, its name, token and its end\<close>

text \<open>\<open>not (a and b and c)\<close>: attributes are read up to the first that is empty.\<close>

fun all_set :: "attributes \<Rightarrow> string list \<Rightarrow> construction_error + bool" where
  "all_set a [] = Inr True"
| "all_set a (name # names) = bindE (text_attr a name) (\<lambda>x. if x = [] then Inr False else all_set a names)"

definition new_twilio :: "attributes \<Rightarrow> construction_error + sms_client" where
  "new_twilio a =
     bindE (all_set a [''twilio_account_sid'', ''twilio_auth_token'', ''twilio_from_number'']) (\<lambda>given.
     if \<not> given then Inl Settings_missing
     else
       bindE (text_attr a ''twilio_from_number'') (\<lambda>from_number.
       bindE (text_attr a ''twilio_account_sid'') (\<lambda>sid.
       bindE (text_attr a ''twilio_auth_token'') (\<lambda>token.
       bindE (number_attr a ''sms_timeout_seconds'') (\<lambda>t.
       Inr (Twilio_client from_number \<lparr>base_url = ''https://api.twilio.com/2010-04-01/Accounts/'' @ sid,
         default_headers = [], basic = Some (sid, token), timeout_seconds = t\<rparr>))))))"

definition new_orange :: "attributes \<Rightarrow> construction_error + sms_client" where
  "new_orange a =
     bindE (all_set a [''orange_client_id'', ''orange_client_secret'', ''orange_sender_address'']) (\<lambda>given.
     if \<not> given then Inl Settings_missing
     else
       bindE (number_attr a ''sms_timeout_seconds'') (\<lambda>t.
       bindE (text_attr a ''orange_sender_address'') (\<lambda>sender.
       bindE (text_attr a ''orange_sender_name'') (\<lambda>name.
       Inr (Orange_client sender (if name = [] then ''Ayak'' @ [CHR 0x27] @ ''bine'' else name)
         \<lparr>base_url = ''https://api.orange.com'', default_headers = [], basic = None, timeout_seconds = t\<rparr> JNull 0)))))"

definition new_provider :: "attributes \<Rightarrow> construction_error + sms_client" where
  "new_provider a =
     bindE (text_attr a ''sms_provider'') (\<lambda>chosen.
     let provider_name = lower chosen in
     if provider_name = ''twilio'' then new_twilio a
     else if provider_name = ''orange'' then new_orange a
     else if provider_name = ''console'' then Inr Console_client
     else Inl (Unknown_provider chosen))"

definition get_provider :: "attributes \<Rightarrow> sms_client option \<Rightarrow> (construction_error + sms_client) \<times> sms_client option" where
  "get_provider a kept =
     (case kept of
        Some p \<Rightarrow> (Inr p, kept)
      | None \<Rightarrow> (case new_provider a of Inl e \<Rightarrow> (Inl e, None) | Inr p \<Rightarrow> (Inr p, Some p)))"

fun http_of :: "sms_client \<Rightarrow> http_client option" where
  "http_of Console_client = None"
| "http_of (Twilio_client n h) = Some h"
| "http_of (Orange_client s n h t x) = Some h"

text \<open>\<open>close_sms_provider\<close>: the client that is closed. The provider stays the one that is kept.\<close>

definition close_sms_provider :: "sms_client option \<Rightarrow> http_client option" where
  "close_sms_provider kept = (case kept of None \<Rightarrow> None | Some p \<Rightarrow> http_of p)"

section \<open>One client\<close>

lemma get_jeko_client_once: "get_jeko_client a kept = (Inr c, kept') \<Longrightarrow> kept' = Some c \<and> get_jeko_client b kept' = (Inr c, kept')"
  by (auto simp: get_jeko_client_def split: option.splits sum.splits)

lemma get_provider_once: "get_provider a kept = (Inr p, kept') \<Longrightarrow> kept' = Some p \<and> get_provider b kept' = (Inr p, kept')"
  by (auto simp: get_provider_def split: option.splits sum.splits)

text \<open>Where the settings have the attributes, the provider is the one of \<open>Sms.get_sms_provider\<close>.\<close>

fun kind_of :: "sms_client \<Rightarrow> sms_provider" where
  "kind_of Console_client = Console_provider"
| "kind_of (Twilio_client n h) = Twilio_provider"
| "kind_of (Orange_client s n h t x) = Orange_provider"

definition has_all_settings :: "attributes \<Rightarrow> sms_settings \<Rightarrow> bool" where
  "has_all_settings a st \<longleftrightarrow> texts a ''sms_provider'' = Some (ss_provider st) \<and> numbers a ''sms_timeout_seconds'' \<noteq> None \<and>
     texts a ''orange_sender_name'' \<noteq> None \<and>
     (\<exists>i k n. ss_twilio st = (i, k, n) \<and> texts a ''twilio_account_sid'' = Some i \<and> texts a ''twilio_auth_token'' = Some k \<and>
       texts a ''twilio_from_number'' = Some n) \<and>
     (\<exists>i k n. ss_orange st = (i, k, n) \<and> texts a ''orange_client_id'' = Some i \<and> texts a ''orange_client_secret'' = Some k \<and>
       texts a ''orange_sender_address'' = Some n)"

definition kind_made :: "construction_error + sms_client \<Rightarrow> sms_provider option" where
  "kind_made r = (case r of Inl e \<Rightarrow> None | Inr p \<Rightarrow> Some (kind_of p))"

lemma all_set_given:
  assumes "texts a x = Some i" "texts a y = Some k" "texts a z = Some n"
  shows "all_set a [x, y, z] = Inr (all_given (i, k, n))"
  using assms by (simp add: all_given_def text_attr_def)

lemma new_twilio_kind: "has_all_settings a st \<Longrightarrow> kind_made (new_twilio a) = (if all_given (ss_twilio st) then Some Twilio_provider else None)"
  by (auto simp: has_all_settings_def new_twilio_def all_set_given text_attr_def number_attr_def kind_made_def simp del: all_set.simps)

lemma new_orange_kind: "has_all_settings a st \<Longrightarrow> kind_made (new_orange a) = (if all_given (ss_orange st) then Some Orange_provider else None)"
  by (auto simp: has_all_settings_def new_orange_def all_set_given text_attr_def number_attr_def kind_made_def simp del: all_set.simps)

lemma new_provider_choice:
  assumes "has_all_settings a st"
  shows "get_sms_provider st None = kind_made (new_provider a)"
proof -
  have chosen: "text_attr a ''sms_provider'' = Inr (ss_provider st)" using assms by (simp add: has_all_settings_def text_attr_def)
  have "kind_made (Inl e) = None" "kind_made (Inr Console_client) = Some Console_provider" for e
    by (simp_all add: kind_made_def)
  with new_twilio_kind [OF assms] new_orange_kind [OF assms] show ?thesis
    unfolding get_sms_provider_def new_provider_def Let_def chosen by simp
qed

section \<open>The settings of the repository\<close>

text \<open>The attributes of \<open>Settings\<close>: its names are in capitals, and Python tells them from small letters.\<close>

definition attributes_of :: "settings \<Rightarrow> attributes" where
  "attributes_of c = \<lparr>
     texts = map_of [(''DATABASE_URL'', DATABASE_URL c), (''JWT_SECRET_KEY'', JWT_SECRET_KEY c),
       (''JWT_ALGORITHM'', JWT_ALGORITHM c), (''ADMIN_BOOTSTRAP_SECRET'', ADMIN_BOOTSTRAP_SECRET c),
       (''WEBHOOK_SECRET'', WEBHOOK_SECRET c), (''SMS_LISTENER_TOKEN'', SMS_LISTENER_TOKEN c),
       (''WAVE_MERCHANT_PHONE'', WAVE_MERCHANT_PHONE c), (''WAVE_MERCHANT_NAME'', WAVE_MERCHANT_NAME c),
       (''ORANGE_MERCHANT_PHONE'', ORANGE_MERCHANT_PHONE c), (''ORANGE_MERCHANT_NAME'', ORANGE_MERCHANT_NAME c),
       (''APP_HOST'', APP_HOST c), (''FIREBASE_PROJECT_ID'', FIREBASE_PROJECT_ID c),
       (''FIREBASE_SERVICE_ACCOUNT_JSON'', FIREBASE_SERVICE_ACCOUNT_JSON c)],
     numbers = map_of [(''JWT_EXPIRE_MINUTES'', JWT_EXPIRE_MINUTES c), (''APP_PORT'', APP_PORT c),
       (''KYC_MAX_IMAGE_BASE64_CHARS'', KYC_MAX_IMAGE_BASE64_CHARS c)]\<rparr>"

text \<open>So no variable of the environment makes the clients work: whatever is set, there is no JEKO
  client and no SMS provider, not even the console.\<close>

lemma no_clients:
  shows "get_jeko_client (attributes_of c) None = (Inl (No_attribute ''jeko_base_url''), None)"
    and "get_provider (attributes_of c) None = (Inl (No_attribute ''sms_provider''), None)"
  by (simp_all add: get_jeko_client_def new_jeko_client_def get_provider_def new_provider_def attributes_of_def text_attr_def)

end
