(* ===== verification/Startup.thy ===== *)
theory Startup
  imports Effects "HOL-Library.List_Lexorder" "HOL-Library.Char_ord" "HOL-Library.Sublist"
begin

text \<open>
  The start of the service: the database URLs of \<open>app/database.py\<close> and the migration runner of
  \<open>app/db_migrate.py\<close>, which \<open>app/main.py\<close> calls before it serves. A file is its name and text;
  what executing a text does to the database, in one transaction, is a parameter.
\<close>

section \<open>Database URLs\<close>

text \<open>\<open>url.replace(old, new, 1)\<close> where \<open>url\<close> starts with \<open>old\<close>.\<close>

definition replace_start :: "string \<Rightarrow> string \<Rightarrow> string \<Rightarrow> string" where
  "replace_start old new url = new @ drop (length old) url"

definition async_url :: "string \<Rightarrow> string" where
  "async_url url =
     (if starts_with ''postgres://'' url then replace_start ''postgres://'' ''postgresql+asyncpg://'' url
      else if starts_with ''postgresql://'' url then replace_start ''postgresql://'' ''postgresql+asyncpg://'' url
      else url)"

definition sync_url :: "string \<Rightarrow> string" where
  "sync_url url =
     (if starts_with ''postgresql+asyncpg://'' url then replace_start ''postgresql+asyncpg://'' ''postgresql+psycopg2://'' url
      else if starts_with ''postgres+asyncpg://'' url then replace_start ''postgres+asyncpg://'' ''postgresql+psycopg2://'' url
      else if starts_with ''postgres://'' url then replace_start ''postgres://'' ''postgresql+psycopg2://'' url
      else if starts_with ''postgresql://'' url then replace_start ''postgresql://'' ''postgresql+psycopg2://'' url
      else url)"

lemma starts_with_Cons: "starts_with (c # p) s \<longleftrightarrow> (\<exists>t. s = c # t \<and> starts_with p t)"
  by (cases s) (auto simp: starts_with_def)

lemma starts_with_Nil [simp]: "starts_with [] s"
  by (simp add: starts_with_def)

lemma url_cases:
  obtains (bare) t where "u = ''postgres://'' @ t" | (sql) t where "u = ''postgresql://'' @ t"
  | (async) t where "u = ''postgresql+asyncpg://'' @ t" | (short_async) t where "u = ''postgres+asyncpg://'' @ t"
  | (other) "async_url u = u" "sync_url u = u" "\<not> starts_with ''postgresql+asyncpg://'' u"
proof -
  have "?thesis" if "\<not> (\<exists>t. u = ''postgres://'' @ t)" "\<not> (\<exists>t. u = ''postgresql://'' @ t)"
      "\<not> (\<exists>t. u = ''postgresql+asyncpg://'' @ t)" "\<not> (\<exists>t. u = ''postgres+asyncpg://'' @ t)"
    using that by (intro other) (simp_all add: async_url_def sync_url_def starts_with_iff)
  then show ?thesis using bare sql async short_async by blast
qed

lemma url_values [simp]:
  "async_url (''postgres://'' @ t) = ''postgresql+asyncpg://'' @ t"
  "async_url (''postgresql://'' @ t) = ''postgresql+asyncpg://'' @ t"
  "async_url (''postgresql+asyncpg://'' @ t) = ''postgresql+asyncpg://'' @ t"
  "async_url (''postgres+asyncpg://'' @ t) = ''postgres+asyncpg://'' @ t"
  "sync_url (''postgres://'' @ t) = ''postgresql+psycopg2://'' @ t"
  "sync_url (''postgresql://'' @ t) = ''postgresql+psycopg2://'' @ t"
  "sync_url (''postgresql+asyncpg://'' @ t) = ''postgresql+psycopg2://'' @ t"
  "sync_url (''postgres+asyncpg://'' @ t) = ''postgresql+psycopg2://'' @ t"
  "sync_url (''postgresql+psycopg2://'' @ t) = ''postgresql+psycopg2://'' @ t"
  by (simp_all add: async_url_def sync_url_def replace_start_def starts_with_Cons)

text \<open>Both engines can be given either URL, once or twice over, and the synchronous one never gets
  the asynchronous driver.\<close>

lemma url_drivers:
  "sync_url (async_url u) = sync_url u \<and> sync_url (sync_url u) = sync_url u \<and> async_url (async_url u) = async_url u \<and>
   \<not> starts_with ''postgresql+asyncpg://'' (sync_url u)"
  by (cases u rule: url_cases) (simp_all only: url_values, simp_all add: starts_with_Cons)

section \<open>Migrations\<close>

type_synonym migration = "string \<times> string"

text \<open>The database: the rows of \<open>schema_migrations\<close> in order of insertion, where the table exists, and the
  rest. Names of files have at most 255 characters, as the column has.\<close>

record 'd tracked =
  tracking :: "string list option"
  content :: 'd

datatype 'e migration_error = Undefined_table | Sql_failed 'e

definition names_done :: "'d tracked \<Rightarrow> string list" where
  "names_done s = (case tracking s of None \<Rightarrow> [] | Some ns \<Rightarrow> ns)"

definition migration_files :: "migration list \<Rightarrow> migration list" where
  "migration_files dir = sort_key fst dir"

definition ensure_tracking_table :: "'d tracked \<Rightarrow> 'd tracked" where
  "ensure_tracking_table s = (case tracking s of None \<Rightarrow> s\<lparr>tracking := Some []\<rparr> | Some _ \<Rightarrow> s)"

text \<open>\<open>tables\<close>: the names of \<open>information_schema.tables\<close>, but for the table of the migrations.\<close>

definition table_exists :: "('d \<Rightarrow> string list) \<Rightarrow> 'd tracked \<Rightarrow> string \<Rightarrow> bool" where
  "table_exists tables s name = (name \<in> set (tables (content s)) \<or> name = ''schema_migrations'' \<and> tracking s \<noteq> None)"

definition already_applied :: "'d tracked \<Rightarrow> 'e migration_error + string list" where
  "already_applied s = (case tracking s of None \<Rightarrow> Inl Undefined_table | Some ns \<Rightarrow> Inr ns)"

text \<open>\<open>INSERT ... ON CONFLICT DO NOTHING\<close>.\<close>

definition mark_done :: "string \<Rightarrow> 'd tracked \<Rightarrow> 'e migration_error + 'd tracked" where
  "mark_done n s = (case tracking s of
       None \<Rightarrow> Inl Undefined_table
     | Some ns \<Rightarrow> Inr (if n \<in> set ns then s else s\<lparr>tracking := Some (ns @ [n])\<rparr>))"

text \<open>The first transaction: the table of the migrations, the names in it, and the first file marked
  where the tables were made by other means. It yields \<open>applied\<close> and the database it commits.\<close>

definition adopt_base :: "('d \<Rightarrow> string list) \<Rightarrow> string \<Rightarrow> 'd tracked \<Rightarrow> 'e migration_error + (string list \<times> 'd tracked)" where
  "adopt_base tables first s =
     (let s0 = ensure_tracking_table s in
      bindE (already_applied s0) (\<lambda>applied.
      if first \<notin> set applied \<and> table_exists tables s0 ''users''
      then bindE (mark_done first s0) (\<lambda>s1. Inr (applied @ [first], s1))
      else Inr (applied, s0)))"

text \<open>The transaction of a file: its text and its name, or neither.\<close>

definition apply_file :: "(string \<Rightarrow> 'd \<Rightarrow> 'e + 'd) \<Rightarrow> migration \<Rightarrow> 'd tracked \<Rightarrow> 'e migration_error + 'd tracked" where
  "apply_file exec_sql f s =
     (case exec_sql (snd f) (content s) of
        Inl e \<Rightarrow> Inl (Sql_failed e)
      | Inr d \<Rightarrow> mark_done (fst f) (s\<lparr>content := d\<rparr>))"

fun apply_files :: "(string \<Rightarrow> 'd \<Rightarrow> 'e + 'd) \<Rightarrow> string list \<Rightarrow> migration list \<Rightarrow> ('d tracked, 'e migration_error, unit) eff" where
  "apply_files exec_sql applied [] s = (Inr (), s)"
| "apply_files exec_sql applied (f # files) s =
     (if fst f \<in> set applied then apply_files exec_sql applied files s
      else case apply_file exec_sql f s of
        Inl e \<Rightarrow> (Inl e, s)
      | Inr s' \<Rightarrow> apply_files exec_sql applied files s')"

definition run_migrations ::
  "(string \<Rightarrow> 'd \<Rightarrow> 'e + 'd) \<Rightarrow> ('d \<Rightarrow> string list) \<Rightarrow> migration list \<Rightarrow> ('d tracked, 'e migration_error, unit) eff" where
  "run_migrations exec_sql tables dir s =
     (case migration_files dir of
        [] \<Rightarrow> (Inr (), s)
      | first # rest \<Rightarrow>
          (case adopt_base tables (fst first) s of
             Inl e \<Rightarrow> (Inl e, s)
           | Inr (applied, s1) \<Rightarrow> apply_files exec_sql applied (migration_files dir) s1))"

text \<open>\<open>lifespan\<close> of \<open>app/main.py\<close>: the service serves (here \<open>serving\<close>) once the migrations are through,
  and does not start when one fails.\<close>

definition lifespan ::
  "(string \<Rightarrow> 'd \<Rightarrow> 'e + 'd) \<Rightarrow> ('d \<Rightarrow> string list) \<Rightarrow> migration list \<Rightarrow> ('d tracked, 'e migration_error, 'a) eff \<Rightarrow>
    ('d tracked, 'e migration_error, 'a) eff" where
  "lifespan exec_sql tables dir serving = andThen (run_migrations exec_sql tables dir) (\<lambda>_. serving)"

text \<open>Executing files one after the other.\<close>

fun exec_all :: "(string \<Rightarrow> 'd \<Rightarrow> 'e + 'd) \<Rightarrow> migration list \<Rightarrow> 'd \<Rightarrow> 'e + 'd" where
  "exec_all exec_sql [] d = Inr d"
| "exec_all exec_sql (f # files) d = bindE (exec_sql (snd f) d) (exec_all exec_sql files)"

lemma adopt_base_spec:
  "\<exists>known. adopt_base tables first s = Inr (known, s\<lparr>tracking := Some known\<rparr>) \<and> set (names_done s) \<subseteq> set known \<and>
     set known \<subseteq> set (names_done s) \<union> {first}"
  by (cases s; cases "tracking s")
     (auto simp: adopt_base_def Let_def ensure_tracking_table_def already_applied_def mark_done_def names_done_def
       split: option.splits)

lemma adopt_base_known:
  "tracking s = Some ns \<Longrightarrow> first \<in> set ns \<Longrightarrow> adopt_base tables first s = Inr (ns, s)"
  by (simp add: adopt_base_def Let_def ensure_tracking_table_def already_applied_def)

lemma apply_file_cases:
  assumes "tracking s = Some ns" "fst f \<notin> set ns"
  obtains (failed) e where "apply_file exec_sql f s = Inl e"
  | (applied) d where "exec_sql (snd f) (content s) = Inr d"
      "apply_file exec_sql f s = Inr (s\<lparr>tracking := Some (ns @ [fst f]), content := d\<rparr>)"
  using assms by (cases s; cases "exec_sql (snd f) (content s)") (auto simp: apply_file_def mark_done_def)

lemma apply_files_spec:
  assumes "apply_files exec_sql applied files s = (r, s')" "distinct (map fst files)"
    and "tracking s = Some ns" "set ns \<inter> fst ` set files \<subseteq> set applied"
  shows "\<exists>run rest. filter (\<lambda>f. fst f \<notin> set applied) files = run @ rest \<and> tracking s' = Some (ns @ map fst run) \<and>
    exec_all exec_sql run (content s) = Inr (content s') \<and> (rest = [] \<longleftrightarrow> r = Inr ())"
  using assms
proof (induction exec_sql applied files s arbitrary: ns rule: apply_files.induct)
  case (1 exec_sql applied s)
  then show ?case by auto
next
  case (2 exec_sql applied f files s)
  show ?case
  proof (cases "fst f \<in> set applied")
    case True
    have "apply_files exec_sql applied files s = (r, s')" using 2(3) True by simp
    from 2(1) [OF True this _ 2(5)] 2(4,6) obtain run rest where
      "filter (\<lambda>f. fst f \<notin> set applied) files = run @ rest" "tracking s' = Some (ns @ map fst run)"
      "exec_all exec_sql run (content s) = Inr (content s')" "rest = [] \<longleftrightarrow> r = Inr ()" by auto
    with True show ?thesis
      by (intro exI [of _ run] exI [of _ rest]) simp
  next
    case False
    then have "fst f \<notin> set ns" using 2(6) by auto
    from 2(5) this show ?thesis
    proof (cases rule: apply_file_cases [where exec_sql = exec_sql])
      case (failed e)
      with 2(3,5) False show ?thesis
        by (intro exI [of _ "[]"] exI [of _ "filter (\<lambda>f. fst f \<notin> set applied) (f # files)"]) auto
    next
      case (applied d)
      let ?s = "s\<lparr>tracking := Some (ns @ [fst f]), content := d\<rparr>"
      have "apply_files exec_sql applied files ?s = (r, s')" using 2(3) False applied by simp
      from 2(2) [OF False applied(2) this, of "ns @ [fst f]"] 2(4,6) obtain run rest where
        "filter (\<lambda>f. fst f \<notin> set applied) files = run @ rest" "tracking s' = Some (ns @ [fst f] @ map fst run)"
        "exec_all exec_sql run d = Inr (content s')" "rest = [] \<longleftrightarrow> r = Inr ()" by auto
      with False applied show ?thesis
        by (intro exI [of _ "f # run"] exI [of _ rest]) simp
    qed
  qed
qed

lemma apply_files_all_done: "fst ` set files \<subseteq> set applied \<Longrightarrow> apply_files exec_sql applied files s = (Inr (), s)"
  by (induction exec_sql applied files s rule: apply_files.induct) auto



end
