(* ===== verification/Scripts.thy ===== *)
theory Scripts
  imports Effects
begin

text \<open>
  The command-line scripts: \<open>scripts/init_db.py\<close> and \<open>scripts/reset_db.py\<close>, with \<open>start.sh\<close>, the
  command of the container, which runs them before the service; and \<open>test_sms.py\<close>. What PostgreSQL
  does on a statement, what Twilio answers and whether \<open>app.database\<close> can be imported are parameters.
\<close>

section \<open>Creating and resetting the database\<close>

datatype 'e script_fault =
    Import_failed string      \<comment> \<open>ImportError: cannot import name\<close>
  | Failure 'e

text \<open>\<open>from m import a, b\<close> where \<open>m\<close> is a module, not a package: each name has to be bound in it.\<close>

fun import_from :: "string list \<Rightarrow> string list \<Rightarrow> ('s, 'e script_fault, unit) eff" where
  "import_from namespace [] = return ()"
| "import_from namespace (name # names) =
     (if name \<in> set namespace then import_from namespace names else raise (Import_failed name))"

text \<open>What \<open>app/models.py\<close> binds: its imports and its classes.\<close>

definition models_namespace :: "string list" where
  "models_namespace =
     [''annotations'', ''enum'', ''uuid'', ''datetime'', ''Decimal'', ''Boolean'', ''CheckConstraint'', ''DateTime'',
      ''Enum'', ''ForeignKey'', ''Numeric'', ''String'', ''Text'', ''UniqueConstraint'', ''func'', ''JSONB'', ''UUID'', ''Mapped'',
      ''mapped_column'', ''relationship'', ''Base'', ''UserRole'', ''TransactionType'', ''TransactionStatus'',
      ''PaymentProvider'', ''KycStatus'', ''User'', ''Wallet'', ''LedgerTransaction'', ''KycSubmission'',
      ''DeviceToken'', ''AdminAuditLog'']"

text \<open>\<open>async with engine.begin()\<close>: the statements of the block, or nothing when one fails.\<close>

definition engine_begin :: "('s, 'e, 'a) eff \<Rightarrow> ('s, 'e, 'a) eff" where
  "engine_begin block s = (case block s of (Inl e, _) \<Rightarrow> (Inl e, s) | (Inr x, s') \<Rightarrow> (Inr x, s'))"

definition init_db ::
  "('s, 'e script_fault, unit) eff \<Rightarrow> string list \<Rightarrow> ('s, 'e script_fault, unit) eff \<Rightarrow> ('s, 'e script_fault, unit) eff" where
  "init_db import_database models create_all =
     andThen import_database (\<lambda>_.
     andThen (import_from models [''device_token'', ''models'']) (\<lambda>_.
     engine_begin create_all))"

definition reset_db ::
  "('s, 'e script_fault, unit) eff \<Rightarrow> string list \<Rightarrow> ('s, 'e script_fault, unit) eff \<Rightarrow> ('s, 'e script_fault, unit) eff \<Rightarrow>
    ('s, 'e script_fault, unit) eff \<Rightarrow> ('s, 'e script_fault, unit) eff" where
  "reset_db import_database models drop_schema create_schema create_all =
     andThen import_database (\<lambda>_.
     andThen (import_from models [''device_token'', ''models'']) (\<lambda>_.
     engine_begin (andThen drop_schema (\<lambda>_. andThen create_schema (\<lambda>_. create_all)))))"

text \<open>\<open>start.sh\<close>, under \<open>set -e\<close>: a script that fails ends it.\<close>

definition start_container ::
  "(string \<rightharpoonup> string) \<Rightarrow> ('s, 'e, unit) eff \<Rightarrow> ('s, 'e, unit) eff \<Rightarrow> ('s, 'e, 'a) eff \<Rightarrow> ('s, 'e, 'a) eff" where
  "start_container environ reset init serving =
     andThen (if environ ''RUN_RESET_DB'' = Some ''true'' then reset else return ()) (\<lambda>_.
     andThen (if environ ''RUN_INIT_DB'' = Some ''true'' then init else return ()) (\<lambda>_.
     serving))"

text \<open>Neither script gets past its imports: \<open>app.models\<close> is one module, which has no \<open>device_token\<close>.\<close>

lemma models_import_fails: "import_from models_namespace [''device_token'', ''models''] s = (Inl (Import_failed ''device_token''), s)"
  by (simp add: models_namespace_def raise_def)

lemma stops_after_import:
  assumes "import_database s = (r, s)"
  shows "\<exists>e. andThen import_database (\<lambda>_. andThen (import_from models_namespace [''device_token'', ''models'']) k) s = (Inl e, s)"
  by (cases r) (simp_all add: andThen_def assms models_import_fails del: import_from.simps)

lemma init_db_fails: "import_database s = (r, s) \<Longrightarrow> \<exists>e. init_db import_database models_namespace create_all s = (Inl e, s)"
  unfolding init_db_def by (rule stops_after_import)

lemma reset_db_fails:
  "import_database s = (r, s) \<Longrightarrow>
    \<exists>e. reset_db import_database models_namespace drop_schema create_schema create_all s = (Inl e, s)"
  unfolding reset_db_def by (rule stops_after_import)

text \<open>So a container that is asked to create or reset the database never serves, and leaves the
  database as it was; one that is not asked serves at once.\<close>

lemma container_asked_never_serves:
  assumes asked: "environ ''RUN_RESET_DB'' = Some ''true'' \<or> environ ''RUN_INIT_DB'' = Some ''true''"
    and loads: "import_database s = (r, s)"
  shows "\<exists>e. start_container environ
    (reset_db import_database models_namespace drop_schema create_schema create_all)
    (init_db import_database models_namespace create_all) serving s = (Inl e, s)"
proof -
  obtain e1 e2 where fails: "init_db import_database models_namespace create_all s = (Inl e1, s)"
    "reset_db import_database models_namespace drop_schema create_schema create_all s = (Inl e2, s)"
    using init_db_fails [of import_database s r, OF loads] reset_db_fails [of import_database s r, OF loads] by blast
  show ?thesis
  proof (cases "environ ''RUN_RESET_DB'' = Some ''true''")
    case True
    then show ?thesis by (simp add: start_container_def andThen_def fails)
  next
    case False
    with asked show ?thesis by (simp add: start_container_def andThen_def return_def fails)
  qed
qed

lemma container_serves:
  assumes "environ ''RUN_RESET_DB'' \<noteq> Some ''true''" "environ ''RUN_INIT_DB'' \<noteq> Some ''true''"
  shows "start_container environ reset init serving = serving"
  using assms by (simp add: start_container_def andThen_def return_def fun_eq_iff)

text \<open>With the names in place, the reset is one transaction: a failure leaves the old schema.\<close>

lemma reset_all_or_nothing:
  assumes "import_database s = (Inr (), s)" "set [''device_token'', ''models''] \<subseteq> set models"
    and "reset_db import_database models drop_schema create_schema create_all s = (Inl e, s')"
  shows "s' = s"
  using assms by (auto simp: reset_db_def engine_begin_def andThen_def return_def split: prod.splits sum.splits)

section \<open>The test message\<close>

definition TEST_MESSAGE :: string where
  "TEST_MESSAGE = ''Ayak'' @ [CHR 0x27] @ ''bine : votre code de v'' @ [CHR 0xE9] @ ''rification est 123456. Valable 5 minutes.''"

text \<open>\<open>_get\<close>: an empty variable of the environment is as none.\<close>

definition getenv :: "(string \<rightharpoonup> string) \<Rightarrow> (string \<rightharpoonup> string) \<Rightarrow> string \<Rightarrow> string option" where
  "getenv environ dotenv key =
     (case environ key of
        Some v \<Rightarrow> if v \<noteq> [] then Some v else dotenv key
      | None \<Rightarrow> dotenv key)"

definition present :: "string option \<Rightarrow> bool" where
  "present v \<longleftrightarrow> v \<noteq> None \<and> v \<noteq> Some []"

record twilio_post =
  account :: string
  basic_auth :: "string \<times> string"
  To :: string
  From :: string
  Body :: string

datatype printed =
    Credentials_missing | Usage | Sending_to string string | Http_status nat | Answer_body | Message_sent | Message_not_sent

datatype ending = Exit nat | Uncaught

text \<open>The answer of Twilio: None when httpx raises; its status and whether its body is JSON otherwise.
  The result: the lines printed, the messages posted, the end.\<close>

definition test_sms ::
  "(string \<rightharpoonup> string) \<Rightarrow> (string \<rightharpoonup> string) \<Rightarrow> string list \<Rightarrow> (twilio_post \<Rightarrow> (nat \<times> bool) option) \<Rightarrow>
    printed list \<times> twilio_post list \<times> ending" where
  "test_sms environ dotenv argv post =
     (let sid = getenv environ dotenv ''TWILIO_ACCOUNT_SID'';
          token = getenv environ dotenv ''TWILIO_AUTH_TOKEN'';
          from_number = getenv environ dotenv ''TWILIO_FROM_NUMBER''
      in if \<not> (present sid \<and> present token \<and> present from_number) then ([Credentials_missing], [], Exit 1)
      else if length argv < 2 then ([Usage], [], Exit 1)
      else
        let m = \<lparr>account = the sid, basic_auth = (the sid, the token), To = argv ! 1, From = the from_number, Body = TEST_MESSAGE\<rparr>;
            sending = Sending_to (argv ! 1) (the from_number)
        in case post m of
             None \<Rightarrow> ([sending], [m], Uncaught)
           | Some (status, is_json) \<Rightarrow>
               if \<not> is_json then ([sending, Http_status status], [m], Uncaught)
               else ([sending, Http_status status, Answer_body, if status < 300 then Message_sent else Message_not_sent], [m], Exit 0))"

text \<open>At most one message is posted, to the number on the command line and with the credentials that
  were found; success is reported only when Twilio accepted it.\<close>

lemma test_sms_posts:
  assumes "test_sms environ dotenv argv post = (out, posts, fin)"
  shows "posts = [] \<and> fin = Exit 1 \<or>
    (\<exists>m. posts = [m] \<and> 2 \<le> length argv \<and> To m = argv ! 1 \<and> getenv environ dotenv ''TWILIO_AUTH_TOKEN'' = Some (snd (basic_auth m)) \<and>
      (Message_sent \<in> set out \<longleftrightarrow> (\<exists>status. post m = Some (status, True) \<and> status < 300)))"
  using assms by (auto simp: test_sms_def Let_def present_def split: if_splits option.splits prod.splits)

end
