(* ===== verification/Spec2Isabelle.thy ===== *)
theory Spec2Isabelle
  imports RouteProps Serializable Decisions Config Pages ReconcileContract Races Lifecycle AgentContract Clients Startup Scripts
begin

text \<open>
  The wallet backend ``Ayak'bine''. Clients declare deposits made with a mobile operator, ask for
  withdrawals, transfer money to each other, send identity documents; an administrator confirms
  deposits, pays withdrawals, decides on the documents. \<open>app/main.py\<close> serves five routers
  (\<open>api_auth\<close>, \<open>api_wallet\<close>, \<open>api_admin\<close>, \<open>api_kyc\<close>, \<open>api_devices\<close>); these call
  \<open>wallet_service.py\<close>, which calls functions stored in the database (\<open>sql/migration_*.sql\<close>), and
  \<open>push_service.py\<close>.

  Theories and the code they model:

  \<^item> \<open>Prelude\<close>: lists of rows, results with errors, ASCII strings, JSON values.
  \<^item> \<open>Decimal\<close>, \<open>DecimalText\<close>: NUMERIC(15,2) with its rounding half away from zero; Python's
    Decimal (28 digits, half even), its printing and parsing.
  \<^item> \<open>Models\<close>: \<open>app/models.py\<close> and the constraints of the migrations (\<open>wf_db\<close>). Tables are lists of
    rows in order of insertion; amounts of the database are integers in hundredths.
  \<^item> \<open>Wallets\<close>: the wallets table and the locale \<open>balance_store\<close> of what the rest relies on.
  \<^item> \<open>LedgerSql\<close>: \<open>process_payin_credit\<close> (migration 009), \<open>process_payout_deduction\<close> and
    \<open>admin_process_payout\<close> (004), \<open>process_internal_transfer\<close> (006). \<open>LedgerProps\<close>,
    \<open>LedgerContract\<close>, \<open>Books\<close>: what each does on every branch; once-only laws; the balance of
    wallets and ledger over sequences of calls.
  \<^item> \<open>Session\<close>: a SQLAlchemy session (committed and current database, transactions that a failed
    statement aborts) and programs over it that end in a value or an exception.
  \<^item> \<open>WalletService\<close>, \<open>WalletApi\<close>, \<open>Push\<close>, \<open>Auth\<close>, \<open>Kyc\<close>, \<open>Admin\<close>: the Python modules of that name
    (\<open>Kyc\<close> has \<open>api_kyc.py\<close> and \<open>api_devices.py\<close>, \<open>Auth\<close> has \<open>auth.py\<close> and \<open>api_auth.py\<close>), one
    definition per function. \<open>ServiceContract\<close>, \<open>AuthContract\<close>, \<open>AdminContract\<close>, \<open>Like\<close>: their
    properties.
  \<^item> \<open>Service\<close>: the application, all routes behind \<open>serve\<close>, background tasks after the response,
    and \<open>served\<close>, the relation of databases that calls lead to. \<open>ServiceProps\<close>, \<open>SystemBooks\<close>,
    \<open>SystemAccounts\<close>: invariants of every call.
  \<^item> \<open>Schemas\<close>: \<open>schemas.py\<close>, from the JSON of a body to the arguments of a call, as pydantic reads it.
    \<open>Routes\<close>: the HTTP side of \<open>main.py\<close> and of the routers' decorators: CORS, the table of routes in
    its order, bearer tokens, ids in paths, statuses; \<open>respond\<close> answers a request. \<open>RouteProps\<close>: the
    statuses, and what guards the routes below /api/v1/admin.
  \<^item> \<open>Config\<close>: \<open>config.py\<close>, the settings from the environment and \<open>.env\<close>, and how they reach the routes.
  \<^item> \<open>Interleaving\<close>: sessions of the database that run at the same time, as a step relation over trees
    of statements (\<open>script\<close>). \<open>Concurrency\<close>: registering, bootstrapping, submitting documents
    and all operations that move money or decide about it as such scripts; each, alone, is the program of the module it belongs to
    (\<open>script_is_program\<close>); what holds however they interleave, and what does not. None is ever stuck (\<open>always_answered\<close>).
  \<^item> \<open>Serializable\<close>: operations that move money, each of which has one transaction that writes and
    reads only settings before; however they interleave, they answer and leave what some order of
    them does. Registrations, declarations, submissions of files and the approval of deposits look
    at tables before they write and are not among them. \<open>Decisions\<close>: the routes through which the ORM changes a row it
    loaded (decisions on identity files, blocking, devices) and the deletion of dead tokens, as scripts that
    write the columns that changed (\<open>dirty\<close>); the books under all requests that write.
  \<^item> \<open>Pages\<close>: the two HTML pages of \<open>api_admin.py\<close> as lists of pieces: a fixed text of the template,
    named by a label whose text is a parameter, or a text inserted from the data.
  \<^item> \<open>Startup\<close>: the URLs of \<open>database.py\<close>, the migration runner of \<open>db_migrate.py\<close> with its table of
    the files done, and the \<open>lifespan\<close> of \<open>main.py\<close>. \<open>Scripts\<close>: \<open>scripts/init_db.py\<close>,
    \<open>scripts/reset_db.py\<close>, \<open>start.sh\<close> and \<open>test_sms.py\<close>.
  \<^item> This theory: the properties of the whole service, with a sample run.

  Beside these modules the repository has a second generation of them, which collects and pays
  through the JEKO API (\<open>app/services\<close>, \<open>app/api/v1\<close>). Nothing of it is served by \<open>main.py\<close>, and it
  imports \<open>app.models.models\<close>, \<open>app.schemas.schemas\<close> and \<open>app.services.wallet_service\<close>, which are
  not in the repository. It is modelled over rows that have the attributes the code uses, with the
  functions of the missing modules as parameters:

  \<^item> \<open>Effects\<close>: programs over any state that end in a value or an exception, with invariants and
    bounded retries (\<open>retrying n\<close> makes n + 1 attempts, as \<open>stop_after_attempt(n + 1)\<close>).
  \<^item> \<open>FeeRules\<close>: \<open>services/fee_rules.py\<close>. \<open>Jeko\<close>: \<open>services/jeko_client.py\<close>; the server is a function
    from requests and its own state to answers, and what is sent is logged.
  \<^item> \<open>Redis\<close>: the store of keys that expire that the code relies on, as the locale
    \<open>expiring_store\<close> with its interpretation. \<open>Signatures\<close>: \<open>utils/hmac_verify.py\<close> and
    \<open>services/kkiapay_client.py\<close>.
  \<^item> \<open>Exchange\<close>: the state of this generation (the database with its session, Redis, JEKO, the
    posts) and \<open>services/push_service.py\<close>. \<open>Webhooks\<close>: \<open>services/webhook_service.py\<close> and
    \<open>api/v1/webhooks.py\<close>. \<open>Reconcile\<close>: \<open>services/reconciliation.py\<close>, \<open>services/auto_reconcile.py\<close> and
    \<open>reconcile_pending_transactions.py\<close>. \<open>WebhookContract\<close> and \<open>ReconcileContract\<close> have \<open>settling\<close>, the
    relation of databases that reports on a transfer lead to, and its invariant.
  \<^item> \<open>Races\<close>: reports of JEKO that are handled at the same time; between loading a transaction and
    handling the report on it others can run.
  \<^item> \<open>Lifecycle\<close>: the five phases of a transfer as an abstract machine, which the handlers implement.
  \<^item> \<open>Access\<close>: \<open>core/security.py\<close>, \<open>api/v1/devices.py\<close>, \<open>api/v1/kyc.py\<close>. \<open>Transfers\<close>: \<open>api/v1/transfers.py\<close>,
    with the record \<open>bookkeeping\<close> of what \<open>app.services.wallet_service\<close> is to do. \<open>Agents\<close>:
    \<open>api/v1/agent.py\<close>. \<open>TransferContract\<close> and \<open>AgentContract\<close>: each way out of the routes that move
    money, and their composition with the webhooks.
  \<^item> \<open>Otp\<close>: \<open>services/otp_service.py\<close>, also with submissions that interleave. \<open>Sms\<close>: \<open>services/sms\<close>.
    \<open>Clients\<close>: how the JEKO client and the SMS providers are made from the settings, and that the
    settings of \<open>config.py\<close> make none.

  Modelling decisions. In the theories of the modules a call runs alone. \<open>Concurrency\<close> lets the
  statements of calls interleave: each sees what is committed and what its own transaction wrote
  (READ COMMITTED), and a transaction that has written keeps the others from writing until it
  commits or ends. PostgreSQL lets transactions that write different rows overlap, and may abort one
  in a deadlock; this is not modelled. Ids are natural
  numbers; their text is read by a parameter of \<open>respond\<close>. The programs of routes that change a loaded row assign every
  column of the assignment; their scripts tell the columns that changed from the others, and are
  the programs where the constraints hold (\<open>kyc_decide_alone\<close>, \<open>user_status_alone\<close>, \<open>register_device_alone\<close>). Time, random bits and generated ids are
  arguments (\<open>draws\<close>). bcrypt, the JWT library, Google, FCM, JEKO, the HMAC, SMS providers and what executing a
  migration does are parameters (\<open>security\<close>, \<open>fcm\<close>, \<open>services\<close>) with the laws that are used as
  hypotheses (\<open>pins_verify\<close>, \<open>tokens_decode\<close>, \<open>counts_credits\<close>, \<open>creates_pending\<close>,
  \<open>creates_operation\<close>) and instances that satisfy them.
  The division of NUMERIC is exact and rounded when stored; decimals are finite; \<open>upper\<close>, \<open>lower\<close>
  and ILIKE fold ASCII letters only. The session of the authentication dependency is the one of
  the handler. The background reconciliation makes three turns, as its list of delays has three
  entries; no other recursion needs a bound of its own.

  Not modelled: the wording of the fixed texts of the browser pages, the JSON text of the
  answers (they are values of \<open>answer\<close>), logging, connection pools, what the scripts print
  beyond the choice of the lines.
\<close>

section \<open>The service as a whole\<close>

text \<open>The libraries of the sample runs: those of \<open>AuthContract\<close>, with a push service that accepts
  every message.\<close>

definition sample_env :: "unit env" where
  "sample_env = \<lparr>security_of = sample_security, fcm_of = sample_fcm, max_chars = 1000, today_start = 0\<rparr>"

definition sample_draws :: "nat \<Rightarrow> draws" where
  "sample_draws n = \<lparr>dr_now = 10 * n, dr_salt = n, dr_id1 = 100 * n, dr_id2 = 100 * n + 1,
     dr_uuid1 = 0, dr_uuid2 = 79228162514264337593543950336\<rparr>"

text \<open>The database after the calls of a list, each with the draws of its number.\<close>

fun after_calls :: "'c env \<Rightarrow> (nat \<times> call) list \<Rightarrow> db \<Rightarrow> db" where
  "after_calls v [] s = s"
| "after_calls v ((n, c) # cs) s = after_calls v cs (snd (handle v (sample_draws n) c s))"

lemma served_after_calls: "served v s0 s \<Longrightarrow> served v s0 (after_calls v cs s)"
  by (induction v cs s rule: after_calls.induct) (auto intro: served.step [OF _ prod.collapse [symmetric]])

fun proper_calls :: "'c env \<Rightarrow> (nat \<times> call) list \<Rightarrow> db \<Rightarrow> bool" where
  "proper_calls v [] s = True"
| "proper_calls v ((n, c) # cs) s =
     (proper_call c s \<and> proper_calls v cs (snd (handle v (sample_draws n) c s)))"

lemma served_properly_after_calls:
  "served_properly v s0 s \<Longrightarrow> proper_calls v cs s \<Longrightarrow> served_properly v s0 (after_calls v cs s)"
  by (induction v cs s rule: after_calls.induct)
     (auto intro: served_properly.step [OF _ _ prod.collapse [symmetric]])

text \<open>The administrator signs up, tries to do so again, a client registers and is credited.\<close>

definition sample_token :: "nat \<Rightarrow> string \<Rightarrow> string" where
  "sample_token n role = create_access_token sample_security (10 * n) (100 * n) role"

definition sample_calls :: "(nat \<times> call) list" where
  "sample_calls =
     [(1, Public (Bootstrap ''0799'' ''1234'' ''s3cret'')),
      (2, Public (Bootstrap ''0798'' ''1234'' ''s3cret'')),
      (3, Public (Register sample_registration)),
      (4, Administrator (sample_token 1 ''ADMIN'') (Credit_user 300 25 ''geste''))]"

lemma sound_empty_db: "sound empty_db"
proof -
  have "configured_fee empty_db = Some (Dec 8 0)" by code_simp
  then have "fee_ok empty_db" by (simp add: fee_ok_def dec_val_def)
  with wf_empty_db show ?thesis by (simp add: sound_def books_balance_def balance_def balance_in_def empty_db_def)
qed

lemma accounts_ok_empty_db: "accounts_ok empty_db"
  by (simp add: accounts_ok_def one_admin_def admins_def provisioned_def empty_db_def)





text \<open>An error has no effect. Whatever route is called, when the caller gets an error (an HTTP
  error, or an exception that ends as 500) the database is the one the call found: no partial
  write is ever committed, and no background task runs.\<close>

theorem errors_have_no_effect:
  assumes "handle v d c s = (Inl e, s')"
  shows "s' = s"
  using assms serve_aon [of v d c] by (auto elim!: handle_cases simp: all_or_nothing_def)

theorem errors_have_no_effect_witness:
  "handle sample_env (sample_draws 1) (Client ''forged'' (Payout_request \<lparr>ob_amount = 5, ob_provider = ''mtn'', ob_phone_number = ''0701''\<rparr>)) sample_db
   = (Inl (Http 401 Session_invalide), sample_db)"
proof -
  let ?m = "handle sample_env (sample_draws 1) (Client ''forged'' (Payout_request \<lparr>ob_amount = 5, ob_provider = ''mtn'', ob_phone_number = ''0701''\<rparr>)) sample_db"
  have "fst ?m = Inl (Http 401 Session_invalide)" by code_simp
  then have "?m = (Inl (Http 401 Session_invalide), snd ?m)" by (metis prod.collapse)
  with errors_have_no_effect [OF this] show ?thesis by simp
qed

text \<open>C7: every HTTP request gets one of thirteen statuses, and only a success can change anything.
  Whatever the method, path, header, query and body (also none, or no JSON), the answer has a status
  the code or the framework names, and when it is a redirection or an error the database is the one
  the request found.\<close>

theorem http_statuses_and_effects:
  assumes "respond v uuid_of d rq s = (r, s')"
  shows "status_of_reply r \<in> {200, 201, 202, 307, 400, 401, 403, 404, 405, 409, 413, 422, 500} \<and>
    (300 \<le> status_of_reply r \<longrightarrow> s' = s)"
  using fine_respond [of v s uuid_of d rq] assms by (auto simp: fine_def STATUSES_def)

definition sample_request :: "http_method \<Rightarrow> string list \<Rightarrow> string option \<Rightarrow> http_body \<Rightarrow> web_request" where
  "sample_request m p h b = \<lparr>wr_method = m, wr_path = p, wr_query = [], wr_authorization = h, wr_origin = None,
     wr_preflight_for = None, wr_body = b\<rparr>"

theorem http_statuses_and_effects_witness:
  "snd (respond sample_env (\<lambda>_. None) (sample_draws 1)
     (sample_request POST [''api'', ''v1'', ''auth'', ''register''] None
        (Json (V_dict [(''phone_number'', V_str ''0705'')]))) sample_db) = sample_db"
proof -
  let ?rq = "sample_request POST [''api'', ''v1'', ''auth'', ''register''] None (Json (V_dict [(''phone_number'', V_str ''0705'')]))"
  let ?m = "respond sample_env (\<lambda>_. None) (sample_draws 1) ?rq sample_db"
  have "fst ?m = Refused 422 Validation_error" by code_simp
  then have "?m = (Refused 422 Validation_error, snd ?m)" by (metis prod.collapse)
  from http_statuses_and_effects [OF this] show ?thesis by simp
qed

text \<open>C10: the administration is for administrators. When any request to a path below /api/v1/admin
  succeeds, with whatever method, headers and body, it carried a bearer token that decodes to an account
  whose role is ADMIN, or the secret of the deployment as its query parameter, and that secret is not
  empty.\<close>

theorem admin_area_protected:
  assumes "wf_db s" "wr_path rq = ''api'' # ''v1'' # ''admin'' # rest" "respond v uuid_of d rq s = (Success n a, s')"
  shows "(\<exists>token p u. bearer_token (wr_authorization rq) = Some token \<and>
      jwt_decode (security_of v) (dr_now d) token = Some p \<and> c_sub p = Some (u_id u) \<and>
      u \<in> set (db_users s) \<and> u_role u = ADMIN) \<or>
    (\<exists>sec. arg ''secret'' (wr_query rq) = Some sec \<and> sec = bootstrap_secret (security_of v) \<and> sec \<noteq> [])"
proof -
  from assms(3) obtain r ps where r: "find_route (wr_method rq) (wr_path rq) app_routes = Found r ps"
    by (cases "find_route (wr_method rq) (wr_path rq) app_routes") (auto simp: respond_def split: if_splits)
  define ep where "ep = ro_endpoint r uuid_of ps (wr_query rq) (wr_body rq)"
  have door: "behind_door (wr_query rq) ep"
    unfolding ep_def by (rule admin_doors) (use find_route_Found [OF r] assms(2) in simp_all)
  have run: "answer_endpoint v d (ro_status r) (wr_authorization rq) ep s = (Success n a, s')"
    using assms(3) r by (auto simp: respond_def ep_def split: if_splits)
  have ok: "\<exists>b. handle v d c s = (Inr b, s')" if "reply_of_call m (handle v d c s) = (Success n a, s')" for m c
  proof -
    have "reply_of_error e \<noteq> Success n a" for e by (cases e) auto
    with that show ?thesis by (auto simp: reply_of_call_def prod_eq_iff split: sum.splits)
  qed
  have no: "reply_of_check x \<noteq> (Success n a, s')" for x
  proof -
    have "reply_of_error e \<noteq> Success n a" for e by (cases e) auto
    then show ?thesis by (auto simp: reply_of_check_def split: sum.splits)
  qed
  show ?thesis
  proof (cases ep)
    case (Open_to_all x)
    show ?thesis
    proof (cases x)
      case (Call_of c)
      with Open_to_all run ok obtain b where "handle v d (Public c) s = (Inr b, s')" by auto
      moreover from Call_of Open_to_all door obtain sec where "secret_of c = Some sec" "arg ''secret'' (wr_query rq) = Some sec"
        by auto
      ultimately show ?thesis using secret_checked [of c sec v d s b s'] by blast
    qed (use Open_to_all run no in simp_all)
  next
    case (Admin_bearer x)
    with run obtain token where t: "bearer_token (wr_authorization rq) = Some token"
      by (cases "bearer_token (wr_authorization rq)") auto
    show ?thesis
    proof (cases x)
      case (Call_of c)
      with Admin_bearer run ok t obtain b where "handle v d (Administrator token c) s = (Inr b, s')" by auto
      from admin_call_checked [OF assms(1) this] t show ?thesis by blast
    qed (use Admin_bearer run no t in simp_all)
  qed (use door in simp_all)
qed

theorem admin_area_protected_witness:
  "\<exists>u \<in> set (db_users (after_calls sample_env sample_calls empty_db)). u_id u = 100 \<and> u_role u = ADMIN"
proof -
  let ?s = "after_calls sample_env sample_calls empty_db"
  let ?rq = "sample_request GET [''api'', ''v1'', ''admin'', ''pending-payouts''] (Some (''Bearer '' @ sample_token 1 ''ADMIN'')) No_body"
  let ?m = "respond sample_env (\<lambda>_. None) (sample_draws 5) ?rq ?s"
  have m: "fst ?m = Success 200 (A_pending [])" by code_simp
  then have run: "?m = (Success 200 (A_pending []), snd ?m)" by (metis prod.collapse)
  have path: "wr_path ?rq = ''api'' # ''v1'' # ''admin'' # [''pending-payouts'']" by (simp add: sample_request_def)
  have "arg ''secret'' (wr_query ?rq) = None" by (simp add: sample_request_def arg_def)
  moreover have "bearer_token (wr_authorization ?rq) = Some (sample_token 1 ''ADMIN'')" by code_simp
  moreover have "jwt_decode (security_of sample_env) (dr_now (sample_draws 5)) (sample_token 1 ''ADMIN'')
      = Some \<lparr>c_sub = Some 100, c_role = ''ADMIN'', c_exp = 2592010\<rparr>" by code_simp
  moreover have wf: "wf_db ?s"
    using served_after_calls [OF served.start] wf_empty_db by (induction rule: served.induct) (auto intro: handle_wf)
  ultimately show ?thesis using admin_area_protected [OF wf path run] by auto
qed



end
